(* ===== verification/Prelude.thy ===== *)
theory Prelude
  imports Main "HOL-Library.Word" "HOL-Library.Code_Target_Nat"
begin

text \<open>
  Shared vocabulary of the development: the machine integer types, the
  little-endian byte codec every wire format of the program is made of, the
  result type of fallible code, and a few list facts the components share.

  Rust's \<^verbatim>\<open>u8\<close>, \<^verbatim>\<open>u16\<close>, \<^verbatim>\<open>u32\<close> and \<^verbatim>\<open>u64\<close> are words of that width; a signed integer
  is the word of the same width (the source itself casts between the two when it
  reads or writes the wire) and is read with \<^const>\<open>sint\<close> where its sign matters.
  \<^verbatim>\<open>usize\<close> is a natural number: no value of that type in the modelled code exceeds
  the length of a buffer that fits in memory, and places where a conversion to or
  from \<^verbatim>\<open>usize\<close> can lose bits write the conversion out.
\<close>

section \<open>Machine integers\<close>

type_synonym u8 = "8 word"
type_synonym u16 = "16 word"
type_synonym u32 = "32 word"
type_synonym u64 = "64 word"

type_synonym bytes = "u8 list"

text \<open>
  Collections that carry the proofs of the components: introduction rules for
  parsers (\<open>parse_rule\<close>), for writers (\<open>write_rule\<close>) and for matching pairs of the two
  (\<open>carry_rule\<close>).
\<close>

named_theorems parse_rule
named_theorems write_rule
named_theorems carry_rule

section \<open>Little-endian byte strings\<close>

text \<open>
  \<open>le_enc n v\<close> is the \<open>n\<close>-byte little-endian image of \<open>v\<close> (Rust's
  \<^verbatim>\<open>to_le_bytes\<close> at width \<open>8 * n\<close>), \<open>le_dec\<close> reads a byte string of any length
  (Rust's \<^verbatim>\<open>from_le_bytes\<close>). The value is reduced modulo \<open>256 ^ n\<close>, as a cast to
  the narrower type does.
\<close>

primrec le_enc :: "nat \<Rightarrow> nat \<Rightarrow> bytes" where
  "le_enc 0 v = []"
| "le_enc (Suc n) v = word_of_nat v # le_enc n (v div 256)"

primrec le_dec :: "bytes \<Rightarrow> nat" where
  "le_dec [] = 0"
| "le_dec (b # bs) = unat b + 256 * le_dec bs"

definition u16_le :: "u16 \<Rightarrow> bytes" where
  "u16_le v = le_enc 2 (unat v)"

definition u32_le :: "u32 \<Rightarrow> bytes" where
  "u32_le v = le_enc 4 (unat v)"

definition u64_le :: "u64 \<Rightarrow> bytes" where
  "u64_le v = le_enc 8 (unat v)"

lemma length_le_enc [simp]: "length (le_enc n v) = n"
  by (induction n arbitrary: v) simp_all

lemma unat_less_pow: "unat (w :: 'a::len word) < 2 ^ LENGTH('a)"
  by (rule unsigned_less)

lemma unat_of_nat_fits: "n < 2 ^ LENGTH('a) \<Longrightarrow> unat (word_of_nat n :: 'a::len word) = n"
  by (simp add: unat_of_nat)

lemma unat_byte_less: "unat (b :: u8) < 256"
  using unat_less_pow [of b] by simp

lemma le_dec_le_enc: "le_dec (le_enc n v) = v mod 256 ^ n"
proof (induction n arbitrary: v)
  case (Suc n)
  have "v mod (256 * 256 ^ n) = 256 * (v div 256 mod 256 ^ n) + v mod 256"
    by (rule mod_mult2_eq)
  then show ?case
    using Suc by (simp add: unat_of_nat)
qed simp

lemma le_dec_less: "le_dec bs < 256 ^ length bs"
proof (induction bs)
  case (Cons b bs)
  have "unat b + 256 * le_dec bs < 256 + 256 * le_dec bs"
    by (simp add: unat_byte_less)
  also have "\<dots> \<le> 256 * 256 ^ length bs"
    using Cons by simp
  finally show ?case by simp
qed simp

lemma le_enc_le_dec: "le_enc (length bs) (le_dec bs) = bs"
proof (induction bs)
  case (Cons b bs)
  have "(unat b + 256 * le_dec bs) div 256 = le_dec bs"
    using unat_byte_less [of b] by (simp add: div_add1_eq)
  moreover have "256 * word_of_nat (le_dec bs) = (0 :: u8)"
  proof -
    have "(256 :: u8) = 0"
      by (simp add: word_eq_iff_unsigned)
    then show ?thesis
      by (metis mult_zero_left)
  qed
  ultimately show ?case
    using Cons by simp
qed simp

lemma le_enc_inj:
  assumes "le_enc n v = le_enc n w" "v < 256 ^ n" "w < 256 ^ n"
  shows "v = w"
  using arg_cong [OF assms(1), of le_dec] assms(2,3) by (simp add: le_dec_le_enc)

lemma length_le_words [simp]:
  "length (u16_le v) = 2" "length (u32_le w) = 4" "length (u64_le x) = 8"
  by (simp_all add: u16_le_def u32_le_def u64_le_def)

lemma le_dec_words [simp]:
  "word_of_nat (le_dec (u16_le v)) = v"
  "word_of_nat (le_dec (u32_le w)) = w"
  "word_of_nat (le_dec (u64_le x)) = x"
  using unat_less_pow [of v] unat_less_pow [of w] unat_less_pow [of x]
  by (simp_all add: u16_le_def u32_le_def u64_le_def le_dec_le_enc)

lemma le_dec_words_nat [simp]:
  "le_dec (u16_le v) = unat v"
  "le_dec (u32_le w) = unat w"
  "le_dec (u64_le x) = unat x"
  using unat_less_pow [of v] unat_less_pow [of w] unat_less_pow [of x]
  by (simp_all add: u16_le_def u32_le_def u64_le_def le_dec_le_enc)

lemma unat_of_le_dec:
  assumes "length bs \<le> LENGTH('a::len) div 8"
  shows "unat (word_of_nat (le_dec bs) :: 'a word) = le_dec bs"
proof -
  have "le_dec bs < 256 ^ length bs"
    by (rule le_dec_less)
  also have "(256::nat) ^ length bs = 2 ^ (8 * length bs)"
    by (simp add: power_mult)
  also have "\<dots> \<le> 2 ^ LENGTH('a)"
    using assms by (intro power_increasing) simp_all
  finally show ?thesis
    by (simp add: unat_of_nat)
qed

lemma u16_le_dec [simp]: "length bs = 2 \<Longrightarrow> u16_le (word_of_nat (le_dec bs)) = bs"
  using le_enc_le_dec [of bs] by (simp add: u16_le_def unat_of_le_dec)

lemma u32_le_dec [simp]: "length bs = 4 \<Longrightarrow> u32_le (word_of_nat (le_dec bs)) = bs"
  using le_enc_le_dec [of bs] by (simp add: u32_le_def unat_of_le_dec)

lemma u64_le_dec [simp]: "length bs = 8 \<Longrightarrow> u64_le (word_of_nat (le_dec bs)) = bs"
  using le_enc_le_dec [of bs] by (simp add: u64_le_def unat_of_le_dec)

section \<open>Fallible code\<close>

text \<open>
  \<^verbatim>\<open>Result<T, E>\<close> is the sum \<open>'e + 'a\<close> with the error on the left; \<open>res_bind\<close> is
  Rust's \<^verbatim>\<open>?\<close> operator and \<open>res_guard\<close> an early return with an error.
\<close>

fun res_bind :: "'e + 'a \<Rightarrow> ('a \<Rightarrow> 'e + 'b) \<Rightarrow> 'e + 'b" where
  "res_bind (Inl e) f = Inl e"
| "res_bind (Inr x) f = f x"

definition res_guard :: "bool \<Rightarrow> 'e \<Rightarrow> 'e + 'b \<Rightarrow> 'e + 'b" where
  "res_guard bad e k = (if bad then Inl e else k)"

definition ok_or :: "'a option \<Rightarrow> 'e \<Rightarrow> 'e + 'a" where
  "ok_or x e = (case x of None \<Rightarrow> Inl e | Some y \<Rightarrow> Inr y)"

lemma res_bind_Inr_iff:
  "res_bind m f = Inr y \<longleftrightarrow> (\<exists>x. m = Inr x \<and> f x = Inr y)"
  by (cases m) simp_all

lemma res_guard_Inr_iff [simp]: "res_guard bad e k = Inr y \<longleftrightarrow> \<not> bad \<and> k = Inr y"
  by (simp add: res_guard_def)

lemma ok_or_simps [simp]: "ok_or None e = Inl e" "ok_or (Some x) e = Inr x"
  by (simp_all add: ok_or_def)

lemma ok_or_Inr_iff [simp]: "ok_or x e = Inr y \<longleftrightarrow> x = Some y"
  by (cases x) simp_all

section \<open>Lists\<close>

text \<open>A slice \<^verbatim>\<open>&xs[from..to]\<close> that lies inside the buffer.\<close>

definition subslice :: "nat \<Rightarrow> nat \<Rightarrow> 'a list \<Rightarrow> 'a list" where
  "subslice from to xs = take (to - from) (drop from xs)"

lemma length_subslice [simp]:
  "to \<le> length xs \<Longrightarrow> length (subslice from to xs) = to - from"
  by (simp add: subslice_def)

lemma subslice_append:
  "length xs \<le> from \<Longrightarrow> subslice from to (xs @ ys) = subslice (from - length xs) (to - length xs) ys"
  by (simp add: subslice_def)

lemma subslice_Nil [simp]: "subslice from to [] = []"
  by (simp add: subslice_def)

text \<open>Saturating and checked arithmetic at a given ceiling.\<close>

definition sat_add :: "nat \<Rightarrow> nat \<Rightarrow> nat \<Rightarrow> nat" where
  "sat_add lim a b = min (a + b) lim"

abbreviation u64_max :: nat where
  "u64_max \<equiv> 2 ^ 64 - 1"

abbreviation u32_max :: nat where
  "u32_max \<equiv> 2 ^ 32 - 1"

lemma sat_add_le: "sat_add lim a b \<le> lim"
  by (simp add: sat_add_def)

end
