(* ===== verification/Ptp_Datatype.thy ===== *)
theory Ptp_Datatype
  imports Prelude
begin

text \<open>
  The byte cursor and the append-only writer of \<^verbatim>\<open>crates/ptp-core/src/datatype.rs\<close>,
  with the PTP wire datatypes built on them: fixed-width integers, the counted
  UTF-16 string and the counted array.

  A decoder is a function from the cursor to a result: the error, or the decoded
  value with the advanced cursor. An encoder maps the bytes written so far to a
  result together with the bytes written, because a failing encoder leaves what it
  has already written in the buffer, and callers of the source use that buffer even
  when they drop the error. The relations \<open>parses\<close> and \<open>writes\<close> describe what a
  decoder and an encoder do independently of the cursor position and of the buffer,
  and the locale \<open>codec\<close> states the contract of a pair of them; the wire formats of
  the program interpret it.
\<close>

section \<open>Errors\<close>

datatype DecodeError =
    UnexpectedEof nat nat        \<comment> \<open>offset, needed\<close>
  | InvalidString string
  | LengthMismatch nat nat       \<comment> \<open>declared, actual\<close>
  | UnknownPacketType u32
  | TrailingBytes nat            \<comment> \<open>remaining\<close>
  | ArrayTooLong u32

datatype EncodeError = StringTooLong nat

section \<open>The cursor\<close>

record reader =
  buf :: bytes
  pos :: nat

type_synonym 'a rd = "reader \<Rightarrow> DecodeError + ('a \<times> reader)"

definition MAX_ELEMENTS :: u32 where
  "MAX_ELEMENTS = 2 ^ 24"

definition Reader_new :: "bytes \<Rightarrow> reader" where
  "Reader_new bs = \<lparr>buf = bs, pos = 0\<rparr>"

definition position :: "reader \<Rightarrow> nat" where
  "position r = pos r"

definition remaining :: "reader \<Rightarrow> nat" where
  "remaining r = length (buf r) - pos r"

definition rd_return :: "'a \<Rightarrow> 'a rd" where
  "rd_return x r = Inr (x, r)"

definition rd_fail :: "DecodeError \<Rightarrow> 'a rd" where
  "rd_fail e r = Inl e"

definition rd_bind :: "'a rd \<Rightarrow> ('a \<Rightarrow> 'b rd) \<Rightarrow> 'b rd" where
  "rd_bind d f r = (case d r of Inl e \<Rightarrow> Inl e | Inr (x, r') \<Rightarrow> f x r')"

definition rd_map :: "('a \<Rightarrow> 'b) \<Rightarrow> 'a rd \<Rightarrow> 'b rd" where
  "rd_map f d = rd_bind d (\<lambda>x. rd_return (f x))"

primrec rd_repeat :: "nat \<Rightarrow> 'a rd \<Rightarrow> 'a list rd" where
  "rd_repeat 0 d = rd_return []"
| "rd_repeat (Suc n) d = rd_bind d (\<lambda>x. rd_bind (rd_repeat n d) (\<lambda>xs. rd_return (x # xs)))"

definition finish :: "unit rd" where
  "finish r = (if remaining r = 0 then Inr ((), r) else Inl (TrailingBytes (remaining r)))"

definition rd_take :: "nat \<Rightarrow> bytes rd" where
  "rd_take n r =
    (if remaining r < n then Inl (UnexpectedEof (pos r) (n - remaining r))
     else Inr (take n (drop (pos r) (buf r)), r\<lparr>pos := pos r + n\<rparr>))"

definition rd_u8 :: "u8 rd" where
  "rd_u8 = rd_map hd (rd_take 1)"

definition rd_i8 :: "u8 rd" where
  "rd_i8 = rd_u8"

definition rd_u16 :: "u16 rd" where
  "rd_u16 = rd_map (\<lambda>b. word_of_nat (le_dec b)) (rd_take 2)"

definition rd_i16 :: "u16 rd" where
  "rd_i16 = rd_u16"

definition rd_u32 :: "u32 rd" where
  "rd_u32 = rd_map (\<lambda>b. word_of_nat (le_dec b)) (rd_take 4)"

definition rd_i32 :: "u32 rd" where
  "rd_i32 = rd_u32"

definition rd_u64 :: "u64 rd" where
  "rd_u64 = rd_map (\<lambda>b. word_of_nat (le_dec b)) (rd_take 8)"

definition rd_i64 :: "u64 rd" where
  "rd_i64 = rd_u64"

definition rd_bytes :: "nat \<Rightarrow> bytes rd" where
  "rd_bytes n = rd_take n"

definition rd_rest :: "bytes rd" where
  "rd_rest r = Inr (drop (pos r) (buf r), r\<lparr>pos := length (buf r)\<rparr>)"

section \<open>Strings\<close>

text \<open>
  A Rust \<^verbatim>\<open>String\<close> is a list of Unicode scalar values. \<open>encode_utf16\<close> and
  \<open>from_utf16\<close> are the standard library's \<^verbatim>\<open>str::encode_utf16\<close> and
  \<^verbatim>\<open>String::from_utf16\<close>: code points from the supplementary planes are surrogate pairs,
  and an unpaired surrogate is an error.
\<close>

type_synonym ustring = "nat list"

definition scalar_value :: "nat \<Rightarrow> bool" where
  "scalar_value c \<longleftrightarrow> c < 0xD800 \<or> 0xE000 \<le> c \<and> c < 0x110000"

definition valid_str :: "ustring \<Rightarrow> bool" where
  "valid_str s = list_all scalar_value s"

definition encode_char_utf16 :: "nat \<Rightarrow> u16 list" where
  "encode_char_utf16 c =
    (if c < 0x10000 then [word_of_nat c]
     else [word_of_nat (0xD800 + (c - 0x10000) div 0x400),
           word_of_nat (0xDC00 + (c - 0x10000) mod 0x400)])"

definition encode_utf16 :: "ustring \<Rightarrow> u16 list" where
  "encode_utf16 s = concat (map encode_char_utf16 s)"

definition is_surrogate :: "u16 \<Rightarrow> bool" where
  "is_surrogate u \<longleftrightarrow> 0xD800 \<le> unat u \<and> unat u < 0xE000"

definition low_surrogate :: "u16 \<Rightarrow> bool" where
  "low_surrogate u \<longleftrightarrow> 0xDC00 \<le> unat u \<and> unat u < 0xE000"

definition join_surrogates :: "u16 \<Rightarrow> u16 \<Rightarrow> nat" where
  "join_surrogates h l = 0x10000 + (unat h - 0xD800) * 0x400 + (unat l - 0xDC00)"

fun from_utf16 :: "u16 list \<Rightarrow> ustring option" where
  "from_utf16 [] = Some []"
| "from_utf16 [u] = (if is_surrogate u then None else Some [unat u])"
| "from_utf16 (u # v # us) =
    (if \<not> is_surrogate u then map_option (Cons (unat u)) (from_utf16 (v # us))
     else if low_surrogate u \<or> \<not> low_surrogate v then None
     else map_option (Cons (join_surrogates u v)) (from_utf16 us))"

text \<open>\<open>pop_nul\<close> is the removal of one trailing NUL unit in \<^verbatim>\<open>Reader::ptp_string\<close>.\<close>

definition pop_nul :: "u16 list \<Rightarrow> u16 list" where
  "pop_nul us = (if us \<noteq> [] \<and> last us = 0 then butlast us else us)"

definition rd_ptp_string :: "ustring rd" where
  "rd_ptp_string =
    rd_bind rd_u8 (\<lambda>count.
      if count = 0 then rd_return []
      else rd_bind (rd_repeat (unat count) rd_u16) (\<lambda>units.
        case from_utf16 (pop_nul units) of
          None \<Rightarrow> rd_fail (InvalidString ''not valid UTF-16'')
        | Some s \<Rightarrow> rd_return s))"

definition rd_ptp_array :: "'a rd \<Rightarrow> 'a list rd" where
  "rd_ptp_array f =
    rd_bind rd_u32 (\<lambda>count.
      if count > MAX_ELEMENTS then rd_fail (ArrayTooLong count)
      else (\<lambda>r. if unat count > remaining r
                 then Inl (UnexpectedEof (pos r) (unat count - remaining r))
                 else rd_repeat (unat count) f r))"

section \<open>The writer\<close>

type_synonym wr = "bytes \<Rightarrow> (EncodeError + unit) \<times> bytes"

definition wr_ok :: wr where
  "wr_ok w = (Inr (), w)"

definition wr_fail :: "EncodeError \<Rightarrow> wr" where
  "wr_fail e w = (Inl e, w)"

definition wr_then :: "wr \<Rightarrow> wr \<Rightarrow> wr" where
  "wr_then a b w = (case a w of (Inl e, w') \<Rightarrow> (Inl e, w') | (Inr u, w') \<Rightarrow> b w')"

definition wr_bytes :: "bytes \<Rightarrow> wr" where
  "wr_bytes bs w = (Inr (), w @ bs)"

definition wr_u8 :: "u8 \<Rightarrow> wr" where
  "wr_u8 v = wr_bytes [v]"

definition wr_i8 :: "u8 \<Rightarrow> wr" where
  "wr_i8 v = wr_u8 v"

definition wr_u16 :: "u16 \<Rightarrow> wr" where
  "wr_u16 v = wr_bytes (u16_le v)"

definition wr_i16 :: "u16 \<Rightarrow> wr" where
  "wr_i16 v = wr_u16 v"

definition wr_u32 :: "u32 \<Rightarrow> wr" where
  "wr_u32 v = wr_bytes (u32_le v)"

definition wr_i32 :: "u32 \<Rightarrow> wr" where
  "wr_i32 v = wr_u32 v"

definition wr_u64 :: "u64 \<Rightarrow> wr" where
  "wr_u64 v = wr_bytes (u64_le v)"

definition wr_i64 :: "u64 \<Rightarrow> wr" where
  "wr_i64 v = wr_u64 v"

primrec wr_each :: "('a \<Rightarrow> wr) \<Rightarrow> 'a list \<Rightarrow> wr" where
  "wr_each f [] = wr_ok"
| "wr_each f (x # xs) = wr_then (f x) (wr_each f xs)"

definition patch_u32 :: "nat \<Rightarrow> u32 \<Rightarrow> bytes \<Rightarrow> bytes" where
  "patch_u32 offset v w = take offset w @ u32_le v @ drop (offset + 4) w"

definition wr_ptp_string :: "ustring \<Rightarrow> wr" where
  "wr_ptp_string s =
    (if s = [] then wr_u8 0
     else let units = encode_utf16 s; count = length units + 1 in
       if count > 255 then wr_fail (StringTooLong count)
       else wr_then (wr_u8 (word_of_nat count))
             (wr_then (wr_each wr_u16 units) (wr_u16 0)))"

definition wr_ptp_array :: "('a \<Rightarrow> wr) \<Rightarrow> 'a list \<Rightarrow> wr" where
  "wr_ptp_array f items =
    wr_then (wr_u32 (word_of_nat (length items))) (wr_each f items)"

section \<open>What a decoder and an encoder do\<close>

text \<open>
  \<open>unread\<close> is the input a cursor has left. \<open>parses d bs x\<close>: whenever the unread
  input starts with \<open>bs\<close>, the decoder \<open>d\<close> returns \<open>x\<close> and consumes exactly \<open>bs\<close>.
  \<open>exact d enc\<close> is the converse direction for formats with one encoding per value:
  whatever \<open>d\<close> accepts is what \<open>enc\<close> produces for the returned value.
\<close>

definition unread :: "reader \<Rightarrow> bytes" where
  "unread r = drop (pos r) (buf r)"

definition advance :: "nat \<Rightarrow> reader \<Rightarrow> reader" where
  "advance n r = r\<lparr>pos := pos r + n\<rparr>"

definition parses :: "'a rd \<Rightarrow> bytes \<Rightarrow> 'a \<Rightarrow> bool" where
  "parses d bs x \<longleftrightarrow>
    (\<forall>r ys. unread r = bs @ ys \<longrightarrow> d r = Inr (x, advance (length bs) r))"

definition exact :: "'a rd \<Rightarrow> ('a \<Rightarrow> bytes) \<Rightarrow> bool" where
  "exact d enc \<longleftrightarrow>
    (\<forall>r x r'. d r = Inr (x, r') \<longrightarrow>
       unread r = enc x @ unread r' \<and> r' = advance (length (enc x)) r)"

definition writes :: "wr \<Rightarrow> bytes \<Rightarrow> bool" where
  "writes a bs \<longleftrightarrow> (\<forall>w. a w = (Inr (), w @ bs))"

lemma unread_new [simp]: "unread (Reader_new bs) = bs"
  by (simp add: unread_def Reader_new_def)

lemma remaining_unread: "remaining r = length (unread r)"
  by (simp add: remaining_def unread_def)

lemma unread_advance [simp]: "unread (advance n r) = drop n (unread r)"
  by (simp add: unread_def advance_def add.commute)

lemma advance_simps [simp]:
  "advance 0 r = r" "advance m (advance n r) = advance (n + m) r"
  "buf (advance n r) = buf r" "pos (advance n r) = pos r + n"
  by (simp_all add: advance_def)

lemma parsesD: "parses d bs x \<Longrightarrow> unread r = bs @ ys \<Longrightarrow> d r = Inr (x, advance (length bs) r)"
  by (simp add: parses_def)

lemma writesD: "writes a bs \<Longrightarrow> a w = (Inr (), w @ bs)"
  by (simp add: writes_def)

lemma parses_return [parse_rule]: "parses (rd_return x) [] x"
  by (simp add: parses_def rd_return_def)

lemma parses_bind [parse_rule]:
  assumes "parses d bs x" "parses (f x) cs y"
  shows "parses (rd_bind d f) (bs @ cs) y"
  unfolding parses_def
proof (intro allI impI)
  fix r ys
  assume r: "unread r = (bs @ cs) @ ys"
  then have "d r = Inr (x, advance (length bs) r)"
    using assms(1) by (simp add: parsesD)
  moreover have "f x (advance (length bs) r) = Inr (y, advance (length cs) (advance (length bs) r))"
    using r by (intro parsesD [OF assms(2)]) simp
  ultimately show "rd_bind d f r = Inr (y, advance (length (bs @ cs)) r)"
    by (simp add: rd_bind_def)
qed

lemma parses_map: "parses d bs x \<Longrightarrow> parses (rd_map f d) bs (f x)"
  using parses_bind [of d bs x "\<lambda>x. rd_return (f x)" "[]"] by (simp add: rd_map_def parses_return)

lemma parses_bind_return:
  "parses d bs x \<Longrightarrow> parses (rd_bind d (\<lambda>x. rd_return (f x))) bs (f x)"
  using parses_map [of d bs x f] by (simp add: rd_map_def)

lemma parses_last:
  "parses d bs x \<Longrightarrow> f x = y \<Longrightarrow> parses (rd_bind d (\<lambda>x. rd_return (f x))) bs y"
  using parses_bind_return [of d bs x f] by simp

lemma parses_take: "parses (rd_take (length bs)) bs bs"
  by (simp add: parses_def rd_take_def remaining_unread advance_def flip: unread_def)

lemma parses_takeI [parse_rule]: "length bs = n \<Longrightarrow> parses (rd_take n) bs bs"
  using parses_take by blast

lemma parses_bytes [parse_rule]: "length bs = n \<Longrightarrow> parses (rd_bytes n) bs bs"
  by (simp add: rd_bytes_def parses_takeI)

lemma parses_u8 [parse_rule]: "parses rd_u8 [v] v"
  using parses_map [OF parses_take [of "[v]"], of hd] by (simp add: rd_u8_def)

lemma parses_u16 [parse_rule]: "parses rd_u16 (u16_le v) v"
  using parses_map [OF parses_take [of "u16_le v"], of "\<lambda>b. word_of_nat (le_dec b) :: u16"]
  by (simp add: rd_u16_def)

lemma parses_u32 [parse_rule]: "parses rd_u32 (u32_le v) v"
  using parses_map [OF parses_take [of "u32_le v"], of "\<lambda>b. word_of_nat (le_dec b) :: u32"]
  by (simp add: rd_u32_def)

lemma parses_u64 [parse_rule]: "parses rd_u64 (u64_le v) v"
  using parses_map [OF parses_take [of "u64_le v"], of "\<lambda>b. word_of_nat (le_dec b) :: u64"]
  by (simp add: rd_u64_def)

lemma parses_signed [parse_rule]:
  "parses rd_i8 [a] a" "parses rd_i16 (u16_le b) b"
  "parses rd_i32 (u32_le c) c" "parses rd_i64 (u64_le d) d"
  by (simp_all add: rd_i8_def rd_i16_def rd_i32_def rd_i64_def parses_u8 parses_u16 parses_u32 parses_u64)

lemma parses_repeat:
  assumes "\<And>x. x \<in> set xs \<Longrightarrow> parses d (enc x) x"
  shows "parses (rd_repeat (length xs) d) (concat (map enc xs)) xs"
  using assms
proof (induction xs)
  case (Cons x xs)
  have "parses (rd_bind (rd_repeat (length xs) d) (\<lambda>ys. rd_return (x # ys))) (concat (map enc xs)) (x # xs)"
    using Cons by (intro parses_bind_return) simp
  then show ?case
    using Cons.prems by (auto intro: parses_bind)
qed (simp add: parses_return)

lemma writes_ok [write_rule]: "writes wr_ok []"
  by (simp add: writes_def wr_ok_def)

lemma writes_then [write_rule]:
  "writes a bs \<Longrightarrow> writes b cs \<Longrightarrow> writes (wr_then a b) (bs @ cs)"
  by (simp add: writes_def wr_then_def)

lemma writes_bytes [write_rule]: "writes (wr_bytes bs) bs"
  by (simp add: writes_def wr_bytes_def)

lemma writes_ints [write_rule]:
  "writes (wr_u8 a) [a]" "writes (wr_u16 b) (u16_le b)"
  "writes (wr_u32 c) (u32_le c)" "writes (wr_u64 d) (u64_le d)"
  "writes (wr_i8 a) [a]" "writes (wr_i16 b) (u16_le b)"
  "writes (wr_i32 c) (u32_le c)" "writes (wr_i64 d) (u64_le d)"
  by (simp_all add: wr_u8_def wr_u16_def wr_u32_def wr_u64_def wr_i8_def wr_i16_def
      wr_i32_def wr_i64_def writes_bytes)

lemma writes_each:
  assumes "\<And>x. x \<in> set xs \<Longrightarrow> writes (f x) (enc x)"
  shows "writes (wr_each f xs) (concat (map enc xs))"
  using assms by (induction xs) (simp_all add: writes_ok writes_then)

section \<open>Inversion of decoders\<close>

lemma rd_bind_Inr_iff:
  "rd_bind d f r = Inr (y, r') \<longleftrightarrow> (\<exists>x r1. d r = Inr (x, r1) \<and> f x r1 = Inr (y, r'))"
  by (auto simp: rd_bind_def split: sum.splits)

lemma rd_return_Inr_iff [simp]: "rd_return x r = Inr (y, r') \<longleftrightarrow> y = x \<and> r' = r"
  by (auto simp: rd_return_def)

lemma rd_fail_not_Inr [simp]: "rd_fail e r \<noteq> Inr z"
  by (simp add: rd_fail_def)

lemma finish_Inr_iff [simp]: "finish r = Inr (u, r') \<longleftrightarrow> unread r = [] \<and> r' = r"
  by (auto simp: finish_def remaining_unread)

lemma rd_take_InrD:
  assumes "rd_take n r = Inr (bs, r')"
  shows "unread r = bs @ unread r' \<and> length bs = n"
proof -
  have "bs = take n (unread r)" "n \<le> length (unread r)" "r' = advance n r"
    using assms
    by (auto simp: rd_take_def remaining_unread advance_def split: if_splits simp flip: unread_def)
  then show ?thesis by simp
qed

lemma rd_u8_InrD:
  assumes "rd_u8 r = Inr (v, r')"
  shows "unread r = v # unread r'"
proof -
  obtain bs where "rd_take 1 r = Inr (bs, r')" "v = hd bs"
    using assms by (auto simp: rd_u8_def rd_map_def rd_bind_Inr_iff)
  then show ?thesis
    using rd_take_InrD [of 1 r bs r'] by (cases bs) simp_all
qed

lemma rd_u16_InrD:
  "rd_u16 r = Inr (v, r') \<Longrightarrow> unread r = u16_le v @ unread r'"
  by (auto simp: rd_u16_def rd_map_def rd_bind_Inr_iff dest!: rd_take_InrD)

lemma rd_u32_InrD:
  "rd_u32 r = Inr (v, r') \<Longrightarrow> unread r = u32_le v @ unread r'"
  by (auto simp: rd_u32_def rd_map_def rd_bind_Inr_iff dest!: rd_take_InrD)

lemma rd_u64_InrD:
  "rd_u64 r = Inr (v, r') \<Longrightarrow> unread r = u64_le v @ unread r'"
  by (auto simp: rd_u64_def rd_map_def rd_bind_Inr_iff dest!: rd_take_InrD)

lemma rd_rest_InrD: "rd_rest r = Inr (bs, r') \<Longrightarrow> unread r = bs \<and> unread r' = []"
  by (auto simp: rd_rest_def unread_def)

lemmas rd_InrD = rd_take_InrD rd_u8_InrD rd_u16_InrD rd_u32_InrD rd_u64_InrD rd_rest_InrD

lemma rd_repeat_InrD:
  assumes "rd_repeat n d r = Inr (xs, r')"
    and "\<And>r x r'. d r = Inr (x, r') \<Longrightarrow> unread r = enc x @ unread r'"
  shows "length xs = n \<and> unread r = concat (map enc xs) @ unread r'"
  using assms(1)
proof (induction n arbitrary: r xs)
  case (Suc n)
  then obtain x r1 ys where "d r = Inr (x, r1)" "rd_repeat n d r1 = Inr (ys, r')" "xs = x # ys"
    by (auto simp: rd_bind_Inr_iff)
  then show ?case
    using Suc.IH [of r1 ys] assms(2) [of r x r1] by simp
qed simp

section \<open>UTF-16\<close>

lemma unat_u16_less: "unat (u :: u16) < 65536"
  using unat_less_pow [of u] by simp

lemma word_unat_inverse: "word_of_nat (unat w) = (w :: 'a::len word)"
  by simp

lemma unat_word_of_nat_u16: "n < 65536 \<Longrightarrow> unat (word_of_nat n :: u16) = n"
  by (simp add: unat_of_nat)

lemma from_utf16_Cons:
  "\<not> is_surrogate u \<Longrightarrow> from_utf16 (u # us) = map_option (Cons (unat u)) (from_utf16 us)"
  by (cases us) simp_all

lemma from_utf16_encode_char:
  assumes "scalar_value c"
  shows "from_utf16 (encode_char_utf16 c @ us) = map_option (Cons c) (from_utf16 us)"
proof (cases "c < 65536")
  case True
  then have "\<not> is_surrogate (word_of_nat c)"
    using assms by (auto simp: is_surrogate_def scalar_value_def unat_word_of_nat_u16)
  then show ?thesis
    using True by (simp add: encode_char_utf16_def from_utf16_Cons unat_word_of_nat_u16)
next
  case False
  define q where "q = (c - 65536) div 1024"
  define m where "m = (c - 65536) mod 1024"
  have "q < 1024" "m < 1024"
    using assms False by (auto simp: q_def m_def scalar_value_def)
  moreover have "65536 + q * 1024 + m = c"
    using False by (simp add: q_def m_def)
  moreover have "encode_char_utf16 c = [word_of_nat (55296 + q), word_of_nat (56320 + m)]"
    using False by (simp add: encode_char_utf16_def q_def m_def)
  ultimately show ?thesis
    by (simp add: is_surrogate_def low_surrogate_def join_surrogates_def unat_word_of_nat_u16
        del: of_nat_add of_nat_numeral)
qed

lemma from_utf16_encode_utf16: "valid_str s \<Longrightarrow> from_utf16 (encode_utf16 s) = Some s"
  by (induction s) (simp_all add: encode_utf16_def valid_str_def from_utf16_encode_char)

lemma encode_join_surrogates:
  assumes "is_surrogate u" "\<not> low_surrogate u" "low_surrogate v"
  shows "encode_char_utf16 (join_surrogates u v) = [u, v]" "scalar_value (join_surrogates u v)"
proof -
  define q where "q = unat u - 55296"
  define m where "m = unat v - 56320"
  have q: "unat u = 55296 + q" "q < 1024" and m: "unat v = 56320 + m" "m < 1024"
    using assms by (auto simp: q_def m_def is_surrogate_def low_surrogate_def)
  have join: "join_surrogates u v = 65536 + (q * 1024 + m)"
    by (simp add: join_surrogates_def q m)
  have "word_of_nat (55296 + q) = u" "word_of_nat (56320 + m) = v"
    by (simp_all only: q(1) [symmetric] m(1) [symmetric] word_unat_inverse)
  then show "encode_char_utf16 (join_surrogates u v) = [u, v]"
    unfolding join encode_char_utf16_def using m(2) by (simp del: of_nat_add of_nat_numeral)
  show "scalar_value (join_surrogates u v)"
    unfolding join scalar_value_def using q(2) m(2) by simp
qed

lemma from_utf16_SomeD:
  "from_utf16 us = Some s \<Longrightarrow> valid_str s \<and> encode_utf16 s = us"
proof (induction us arbitrary: s rule: from_utf16.induct)
  case (2 u)
  then show ?case
    using unat_u16_less [of u]
    by (auto simp: valid_str_def scalar_value_def encode_utf16_def encode_char_utf16_def
        is_surrogate_def split: if_splits)
next
  case (3 u v us)
  show ?case
  proof (cases "is_surrogate u")
    case True
    then obtain t where t: "from_utf16 us = Some t" "s = join_surrogates u v # t"
      and uv: "\<not> low_surrogate u" "low_surrogate v"
      using "3.prems" by (auto split: if_splits)
    then show ?thesis
      using "3.IH"(2) [of t] True encode_join_surrogates [OF True uv]
      by (simp add: valid_str_def encode_utf16_def)
  next
    case False
    then obtain t where "from_utf16 (v # us) = Some t" "s = unat u # t"
      using "3.prems" by auto
    then show ?thesis
      using "3.IH"(1) [of t] False unat_u16_less [of u]
      by (auto simp: valid_str_def encode_utf16_def encode_char_utf16_def scalar_value_def
          is_surrogate_def)
  qed
qed (simp add: valid_str_def encode_utf16_def)

section \<open>PTP strings\<close>

text \<open>
  \<open>str_fits\<close> is the domain on which \<^verbatim>\<open>Writer::ptp_string\<close> succeeds: at most 254
  code units before the terminator. \<open>str_wire\<close> names the bytes it then writes.
\<close>

definition str_fits :: "ustring \<Rightarrow> bool" where
  "str_fits s \<longleftrightarrow> length (encode_utf16 s) \<le> 254"

definition valid_ptp_str :: "ustring \<Rightarrow> bool" where
  "valid_ptp_str s \<longleftrightarrow> valid_str s \<and> str_fits s"

definition str_wire :: "ustring \<Rightarrow> bytes" where
  "str_wire s =
    (if s = [] then [0]
     else word_of_nat (length (encode_utf16 s) + 1) #
          concat (map u16_le (encode_utf16 s)) @ u16_le 0)"

lemma encode_utf16_eq_Nil [simp]: "encode_utf16 s = [] \<longleftrightarrow> s = []"
  by (cases s) (simp_all add: encode_utf16_def encode_char_utf16_def)

lemma writes_ptp_string: "str_fits s \<Longrightarrow> writes (wr_ptp_string s) (str_wire s)"
  using writes_then [OF writes_ints(1) writes_then [OF writes_each [OF writes_ints(2)] writes_ints(2)]]
  by (auto simp: wr_ptp_string_def str_wire_def str_fits_def Let_def writes_ints)

lemma wr_ptp_string_too_long:
  "\<not> str_fits s \<Longrightarrow> wr_ptp_string s w = (Inl (StringTooLong (length (encode_utf16 s) + 1)), w)"
  by (cases s) (auto simp: wr_ptp_string_def str_fits_def Let_def wr_fail_def encode_utf16_def)

lemma parses_units:
  "parses (rd_repeat (length us) rd_u16) (concat (map u16_le us)) us"
  by (rule parses_repeat) (rule parses_u16)

lemma parses_ptp_string:
  assumes "valid_ptp_str s"
  shows "parses rd_ptp_string (str_wire s) s"
proof (cases "s = []")
  case True
  then show ?thesis
    using parses_bind [OF parses_u8 [of 0], of _ "[]" s]
    by (simp add: rd_ptp_string_def str_wire_def parses_return)
next
  case False
  define us where "us = encode_utf16 s @ [0]"
  let ?n = "word_of_nat (length us) :: u8"
  have "0 < length us" "length us \<le> 255"
    using assms by (simp_all add: us_def valid_ptp_str_def str_fits_def)
  then have n: "unat ?n = length us" "?n \<noteq> 0"
    by (simp_all add: unat_of_nat word_unat_eq_iff)
  have pop: "from_utf16 (pop_nul us) = Some s"
    using assms by (simp add: us_def pop_nul_def valid_ptp_str_def from_utf16_encode_utf16)
  have "parses (rd_bind (rd_repeat (length us) rd_u16) (\<lambda>units.
      case from_utf16 (pop_nul units) of
        None \<Rightarrow> rd_fail (InvalidString ''not valid UTF-16'')
      | Some s \<Rightarrow> rd_return s)) (concat (map u16_le us) @ []) s"
    by (rule parses_bind [OF parses_units]) (simp add: pop parses_return)
  then have "parses rd_ptp_string ([?n] @ (concat (map u16_le us))) s"
    unfolding rd_ptp_string_def by (intro parses_bind [OF parses_u8]) (simp add: n)
  then show ?thesis
    using False by (simp add: us_def str_wire_def)
qed

lemma rd_ptp_string_InrD:
  assumes "rd_ptp_string r = Inr (s, r')"
  shows "valid_str s \<and> length (encode_utf16 s) \<le> 255"
proof -
  obtain count r1 where c: "rd_u8 r = Inr (count, r1)"
    and body: "(if count = 0 then rd_return []
      else rd_bind (rd_repeat (unat count) rd_u16) (\<lambda>units.
        case from_utf16 (pop_nul units) of
          None \<Rightarrow> rd_fail (InvalidString ''not valid UTF-16'')
        | Some s \<Rightarrow> rd_return s)) r1 = Inr (s, r')"
    using assms by (auto simp: rd_ptp_string_def rd_bind_Inr_iff)
  show ?thesis
  proof (cases "count = 0")
    case True
    then show ?thesis using body by (simp add: valid_str_def encode_utf16_def)
  next
    case False
    then obtain us r2 where us: "rd_repeat (unat count) rd_u16 r1 = Inr (us, r2)"
      and dec: "from_utf16 (pop_nul us) = Some s"
      using body by (auto simp: rd_bind_Inr_iff split: option.splits)
    have "length us = unat count"
      using rd_repeat_InrD [OF us rd_u16_InrD] by simp
    then have "length (pop_nul us) \<le> 255"
      using unat_byte_less [of count] by (auto simp: pop_nul_def)
    then show ?thesis
      using from_utf16_SomeD [OF dec] by simp
  qed
qed

section \<open>The codec contract\<close>

text \<open>
  A pair of an encoder and a decoder keeps the codec contract on a domain when, for
  every value of it, the encoder succeeds and the decoder reads the encoder's bytes
  back to that value, whatever follows them. \<open>sized_codec\<close> adds that no value has an
  empty image, the requirement \<^verbatim>\<open>Reader::ptp_array\<close> documents for its elements
  ("each wire element occupies at least one byte"); arrays of such values are a codec
  again.
\<close>

definition output_of :: "wr \<Rightarrow> bytes" where
  "output_of a = snd (a [])"

definition carries :: "wr \<Rightarrow> 'a rd \<Rightarrow> 'a \<Rightarrow> bool" where
  "carries a d x \<longleftrightarrow> (\<exists>bs. writes a bs \<and> parses d bs x)"

lemma output_writes: "writes a bs \<Longrightarrow> output_of a = bs"
  by (simp add: output_of_def writes_def)

lemma carriesI: "writes a bs \<Longrightarrow> parses d bs x \<Longrightarrow> carries a d x"
  by (auto simp: carries_def)

lemma carries_writes: "carries a d x \<Longrightarrow> writes a (output_of a)"
  using output_writes by (auto simp: carries_def)

lemma carries_parses: "carries a d x \<Longrightarrow> parses d (output_of a) x"
  using output_writes by (auto simp: carries_def)

lemma carries_then [carry_rule]:
  "carries a d x \<Longrightarrow> carries b (f x) y \<Longrightarrow> carries (wr_then a b) (rd_bind d f) y"
  unfolding carries_def [of a] carries_def [of b]
  by (elim exE conjE) (rule carriesI [OF writes_then parses_bind])

lemma carries_last:
  "carries a d x \<Longrightarrow> f x = y \<Longrightarrow> carries a (rd_bind d (\<lambda>x. rd_return (f x))) y"
  by (auto simp: carries_def intro!: parses_bind_return)

lemma carries_ints [carry_rule]:
  "carries (wr_u8 a) rd_u8 a" "carries (wr_u16 b) rd_u16 b"
  "carries (wr_u32 c) rd_u32 c" "carries (wr_u64 d) rd_u64 d"
  "carries (wr_i8 a) rd_i8 a" "carries (wr_i16 b) rd_i16 b"
  "carries (wr_i32 c) rd_i32 c" "carries (wr_i64 d) rd_i64 d"
  by (rule carriesI [OF writes_ints(1) parses_u8] carriesI [OF writes_ints(2) parses_u16]
      carriesI [OF writes_ints(3) parses_u32] carriesI [OF writes_ints(4) parses_u64]
      carriesI [OF writes_ints(5) parses_signed(1)] carriesI [OF writes_ints(6) parses_signed(2)]
      carriesI [OF writes_ints(7) parses_signed(3)] carriesI [OF writes_ints(8) parses_signed(4)])+

lemma carries_bytes: "length bs = n \<Longrightarrow> carries (wr_bytes bs) (rd_bytes n) bs"
  by (rule carriesI [OF writes_bytes parses_bytes])

lemma carries_ptp_string: "valid_ptp_str s \<Longrightarrow> carries (wr_ptp_string s) rd_ptp_string s"
  by (rule carriesI [OF writes_ptp_string parses_ptp_string]) (simp_all add: valid_ptp_str_def)

locale codec =
  fixes put :: "'a \<Rightarrow> wr"
    and get :: "'a rd"
    and valid :: "'a \<Rightarrow> bool"
  assumes law: "valid x \<Longrightarrow> carries (put x) get x"
begin

lemma round_trip:
  assumes "valid x"
  shows "get (Reader_new (output_of (put x) @ ys)) =
    Inr (x, advance (length (output_of (put x))) (Reader_new (output_of (put x) @ ys)))"
  using assms by (intro parsesD [OF carries_parses [OF law], of x _ ys]) simp_all

lemma unambiguous:
  assumes "valid x" "valid y" "output_of (put x) @ xs = output_of (put y) @ ys"
  shows "x = y \<and> xs = ys"
  using round_trip [OF assms(1), of xs] round_trip [OF assms(2), of ys] assms(3) by simp

lemma each_law:
  assumes "list_all valid xs"
  shows "carries (wr_each put xs) (rd_repeat (length xs) get) xs"
proof (rule carriesI)
  let ?bs = "concat (map (\<lambda>x. output_of (put x)) xs)"
  show "writes (wr_each put xs) ?bs"
    using assms by (auto intro: writes_each carries_writes law simp: list_all_iff)
  show "parses (rd_repeat (length xs) get) ?bs xs"
    using assms by (auto intro: parses_repeat carries_parses law simp: list_all_iff)
qed

lemma each_length:
  assumes "list_all valid xs" "\<And>x. valid x \<Longrightarrow> output_of (put x) \<noteq> []"
  shows "length xs \<le> length (output_of (wr_each put xs))"
proof -
  have "output_of (wr_each put xs) = concat (map (\<lambda>x. output_of (put x)) xs)"
    using assms(1) carries_writes [OF law]
    by (intro output_writes writes_each) (simp add: list_all_iff)
  moreover have "length xs \<le> length (concat (map (\<lambda>x. output_of (put x)) xs))"
    using assms(1)
  proof (induction xs)
    case (Cons x xs)
    then show ?case
      using assms(2) [of x] by (cases "output_of (put x)") simp_all
  qed simp
  ultimately show ?thesis by simp
qed

end

locale sized_codec = codec +
  assumes nonempty: "valid x \<Longrightarrow> output_of (put x) \<noteq> []"
begin

lemma array_law:
  assumes "length xs \<le> 2 ^ 24" "list_all valid xs"
  shows "carries (wr_ptp_array put xs) (rd_ptp_array get) xs"
proof -
  note each = each_law [OF assms(2)]
  let ?n = "word_of_nat (length xs) :: u32" and ?bs = "output_of (wr_each put xs)"
  have n: "unat ?n = length xs" "\<not> MAX_ELEMENTS < ?n"
    using assms(1) by (auto simp: unat_of_nat MAX_ELEMENTS_def word_less_nat_alt)
  have "parses (\<lambda>r. if unat ?n > remaining r
      then Inl (UnexpectedEof (pos r) (unat ?n - remaining r))
      else rd_repeat (unat ?n) get r) ?bs xs"
    unfolding parses_def
    using each_length [OF assms(2) nonempty] parsesD [OF carries_parses [OF each]]
    by (simp add: n(1) remaining_unread)
  then have "carries (wr_each put xs) (\<lambda>r. if unat ?n > remaining r
      then Inl (UnexpectedEof (pos r) (unat ?n - remaining r))
      else rd_repeat (unat ?n) get r) xs"
    by (rule carriesI [OF carries_writes [OF each]])
  then show ?thesis
    unfolding wr_ptp_array_def rd_ptp_array_def
    using n(2) by (intro carries_then [OF carries_ints(3)]) simp
qed

end

sublocale sized_codec \<subseteq> arr: codec "wr_ptp_array put" "rd_ptp_array get"
  "\<lambda>xs. length xs \<le> 2 ^ 24 \<and> list_all valid xs"
  using array_law by (intro codec.intro) blast

lemma u16_le_not_Nil [simp]: "u16_le v \<noteq> []"
  using length_le_words(1) [of v] by fastforce

lemma u32_le_not_Nil [simp]: "u32_le v \<noteq> []"
  using length_le_words(2) [of v] by fastforce

lemma str_wire_not_Nil [simp]: "str_wire s \<noteq> []"
  by (simp add: str_wire_def)

interpretation u16_codec: sized_codec wr_u16 rd_u16 "\<lambda>_. True"
  by unfold_locales (simp_all add: carries_ints output_writes [OF writes_ints(2)])

interpretation u32_codec: sized_codec wr_u32 rd_u32 "\<lambda>_. True"
  by unfold_locales (simp_all add: carries_ints output_writes [OF writes_ints(3)])

interpretation str_codec: sized_codec wr_ptp_string rd_ptp_string valid_ptp_str
  by unfold_locales
    (simp_all add: carries_ptp_string output_writes [OF writes_ptp_string] valid_ptp_str_def)

section \<open>Properties\<close>

text \<open>PTP strings are self-delimiting. Two well-formed strings within the 254-unit limit whose
  encodings, followed by arbitrary further bytes, give the same byte stream are the same
  string followed by the same bytes.\<close>
theorem ptp_string_self_delimiting:
  assumes "valid_ptp_str s" "valid_ptp_str t"
    and "output_of (wr_ptp_string s) @ xs = output_of (wr_ptp_string t) @ ys"
  shows "s = t \<and> xs = ys"
  using assms by (rule str_codec.unambiguous)

theorem ptp_string_self_delimiting_witness:
  "valid_ptp_str [0x1F4F7, 65] \<and>
   output_of (wr_ptp_string [0x1F4F7, 65]) = [4, 0x3D, 0xD8, 0xF7, 0xDC, 65, 0, 0, 0] \<and>
   [0x1F4F7, 65] = [0x1F4F7, 65 :: nat] \<and> [7] = [7 :: u8]"
proof -
  have v: "valid_ptp_str [0x1F4F7, 65]"
    and out: "output_of (wr_ptp_string [0x1F4F7, 65]) = [4, 0x3D, 0xD8, 0xF7, 0xDC, 65, 0, 0, 0]"
    by code_simp+
  show ?thesis
    using v out ptp_string_self_delimiting [OF v v, of "[7]" "[7]"] by simp
qed

text \<open>C23: every string the decoder returns is well formed and has at most 255 code units, and it
  can be encoded again exactly when it has at most 254; otherwise the encoder writes nothing
  and reports the unit count including the terminator.\<close>
theorem ptp_string_reencode:
  assumes "rd_ptp_string r = Inr (s, r')"
  shows "valid_str s \<and> length (encode_utf16 s) \<le> 255 \<and>
    (if length (encode_utf16 s) \<le> 254
     then wr_ptp_string s w = (Inr (), w @ str_wire s)
     else length (encode_utf16 s) = 255 \<and> wr_ptp_string s w = (Inl (StringTooLong 256), w))"
  using rd_ptp_string_InrD [OF assms] wr_ptp_string_too_long [of s w]
    writesD [OF writes_ptp_string, of s w]
  by (auto simp: str_fits_def)

theorem ptp_string_reencode_witness:
  "rd_ptp_string (Reader_new [2, 72, 0, 105, 0]) = Inr ([72, 105], \<lparr>buf = [2, 72, 0, 105, 0], pos = 5\<rparr>) \<and>
   wr_ptp_string [72, 105] [] = (Inr (), [3, 72, 0, 105, 0, 0, 0])"
proof -
  have d: "rd_ptp_string (Reader_new [2, 72, 0, 105, 0]) = Inr ([72, 105], \<lparr>buf = [2, 72, 0, 105, 0], pos = 5\<rparr>)"
    by code_simp
  have "length (encode_utf16 [72, 105]) = 2" "str_wire [72, 105] = [3, 72, 0, 105, 0, 0, 0]"
    by code_simp+
  then show ?thesis
    using ptp_string_reencode [OF d, of "[]"] d by simp
qed

end
