(* ===== verification/Ptp_Container.thy ===== *)
theory Ptp_Container
  imports Ptp_Datatype
begin

text \<open>
  The logical PTP/IP payloads of \<^verbatim>\<open>crates/ptp-core/src/container.rs\<close>: one record per
  payload struct, with its \<^verbatim>\<open>decode_body\<close> and \<^verbatim>\<open>encode_body\<close>. Payloads that read "the
  rest of the body" (parameters, data blocks) are described by \<open>ends\<close>, the variant of
  \<open>parses\<close> for decoders that consume the whole input.
\<close>

section \<open>Payload structs\<close>

record InitCommandRequest =
  icr_initiator_guid :: bytes
  icr_friendly_name :: ustring
  icr_protocol_version :: u32

record InitCommandAck =
  ica_connection_number :: u32
  ica_responder_guid :: bytes
  ica_friendly_name :: ustring
  ica_protocol_version :: u32

record InitEventRequest =
  ier_connection_number :: u32

record InitFail =
  fail_reason :: u32

record OperationRequest =
  oreq_data_phase_info :: u32
  oreq_code :: u16
  oreq_transaction_id :: u32
  oreq_params :: "u32 list"

record OperationResponse =
  oresp_code :: u16
  oresp_transaction_id :: u32
  oresp_params :: "u32 list"

record EventPacket =
  ev_code :: u16
  ev_transaction_id :: u32
  ev_params :: "u32 list"

record StartData =
  sd_transaction_id :: u32
  sd_total_length :: u64

record DataBlock =
  db_transaction_id :: u32
  db_payload :: bytes

section \<open>Body decoders and encoders\<close>

definition rd_guid :: "bytes rd" where
  "rd_guid = rd_bytes 16"

lemma rd_u32_remaining: "rd_u32 r = Inr (v, r') \<Longrightarrow> remaining r' < remaining r"
  using arg_cong [of "unread r" "u32_le v @ unread r'" length]
  by (auto simp: remaining_unread dest: rd_u32_InrD)

function params_loop :: "u32 list rd" where
  "params_loop r =
    (if remaining r \<ge> 4
     then case rd_u32 r of
            Inl e \<Rightarrow> Inl e
          | Inr (p, r') \<Rightarrow>
              (case params_loop r' of
                 Inl e \<Rightarrow> Inl e
               | Inr (ps, r'') \<Rightarrow> Inr (p # ps, r''))
     else Inr ([], r))"
  by pat_completeness auto

termination params_loop
  by (relation "measure remaining") (auto dest: rd_u32_remaining)

declare params_loop.simps [simp del]

definition remaining_params :: "u32 list rd" where
  "remaining_params r =
    (if remaining r mod 4 \<noteq> 0
     then Inl (UnexpectedEof (position r) (4 - remaining r mod 4))
     else rd_bind params_loop (\<lambda>params. rd_bind finish (\<lambda>_. rd_return params)) r)"

definition icr_decode_body :: "InitCommandRequest rd" where
  "icr_decode_body =
    rd_bind rd_guid (\<lambda>g. rd_bind rd_ptp_string (\<lambda>name. rd_bind rd_u32 (\<lambda>v.
      rd_return \<lparr>icr_initiator_guid = g, icr_friendly_name = name, icr_protocol_version = v\<rparr>)))"

definition icr_encode_body :: "InitCommandRequest \<Rightarrow> wr" where
  "icr_encode_body p =
    wr_then (wr_bytes (icr_initiator_guid p))
     (wr_then (wr_ptp_string (icr_friendly_name p)) (wr_u32 (icr_protocol_version p)))"

definition ica_decode_body :: "InitCommandAck rd" where
  "ica_decode_body =
    rd_bind rd_u32 (\<lambda>n. rd_bind rd_guid (\<lambda>g. rd_bind rd_ptp_string (\<lambda>name. rd_bind rd_u32 (\<lambda>v.
      rd_return \<lparr>ica_connection_number = n, ica_responder_guid = g,
                 ica_friendly_name = name, ica_protocol_version = v\<rparr>))))"

definition ica_encode_body :: "InitCommandAck \<Rightarrow> wr" where
  "ica_encode_body p =
    wr_then (wr_u32 (ica_connection_number p))
     (wr_then (wr_bytes (ica_responder_guid p))
       (wr_then (wr_ptp_string (ica_friendly_name p)) (wr_u32 (ica_protocol_version p))))"

definition ier_decode_body :: "InitEventRequest rd" where
  "ier_decode_body =
    rd_bind rd_u32 (\<lambda>n. rd_bind finish (\<lambda>_. rd_return \<lparr>ier_connection_number = n\<rparr>))"

definition ier_encode_body :: "InitEventRequest \<Rightarrow> wr" where
  "ier_encode_body p = wr_u32 (ier_connection_number p)"

text \<open>The three payload-free structs share this pair.\<close>

definition empty_decode_body :: "unit rd" where
  "empty_decode_body = finish"

definition empty_encode_body :: wr where
  "empty_encode_body = wr_ok"

definition fail_decode_body :: "InitFail rd" where
  "fail_decode_body = rd_bind rd_u32 (\<lambda>v. rd_return \<lparr>fail_reason = v\<rparr>)"

definition fail_encode_body :: "InitFail \<Rightarrow> wr" where
  "fail_encode_body p = wr_u32 (fail_reason p)"

definition oreq_decode_body :: "OperationRequest rd" where
  "oreq_decode_body =
    rd_bind rd_u32 (\<lambda>d. rd_bind rd_u16 (\<lambda>c. rd_bind rd_u32 (\<lambda>t. rd_bind remaining_params (\<lambda>ps.
      rd_return \<lparr>oreq_data_phase_info = d, oreq_code = c, oreq_transaction_id = t,
                 oreq_params = ps\<rparr>))))"

definition oreq_encode_body :: "OperationRequest \<Rightarrow> wr" where
  "oreq_encode_body p =
    wr_then (wr_u32 (oreq_data_phase_info p))
     (wr_then (wr_u16 (oreq_code p))
       (wr_then (wr_u32 (oreq_transaction_id p)) (wr_each wr_u32 (oreq_params p))))"

definition oresp_decode_body :: "OperationResponse rd" where
  "oresp_decode_body =
    rd_bind rd_u16 (\<lambda>c. rd_bind rd_u32 (\<lambda>t. rd_bind remaining_params (\<lambda>ps.
      rd_return \<lparr>oresp_code = c, oresp_transaction_id = t, oresp_params = ps\<rparr>)))"

definition oresp_encode_body :: "OperationResponse \<Rightarrow> wr" where
  "oresp_encode_body p =
    wr_then (wr_u16 (oresp_code p))
     (wr_then (wr_u32 (oresp_transaction_id p)) (wr_each wr_u32 (oresp_params p)))"

definition ev_decode_body :: "EventPacket rd" where
  "ev_decode_body =
    rd_bind rd_u16 (\<lambda>c. rd_bind rd_u32 (\<lambda>t. rd_bind remaining_params (\<lambda>ps.
      rd_return \<lparr>ev_code = c, ev_transaction_id = t, ev_params = ps\<rparr>)))"

definition ev_encode_body :: "EventPacket \<Rightarrow> wr" where
  "ev_encode_body p =
    wr_then (wr_u16 (ev_code p))
     (wr_then (wr_u32 (ev_transaction_id p)) (wr_each wr_u32 (ev_params p)))"

definition sd_decode_body :: "StartData rd" where
  "sd_decode_body =
    rd_bind rd_u32 (\<lambda>t. rd_bind rd_u64 (\<lambda>n.
      rd_return \<lparr>sd_transaction_id = t, sd_total_length = n\<rparr>))"

definition sd_encode_body :: "StartData \<Rightarrow> wr" where
  "sd_encode_body p = wr_then (wr_u32 (sd_transaction_id p)) (wr_u64 (sd_total_length p))"

definition db_decode_body :: "DataBlock rd" where
  "db_decode_body =
    rd_bind rd_u32 (\<lambda>t. rd_bind rd_rest (\<lambda>bs.
      rd_return \<lparr>db_transaction_id = t, db_payload = bs\<rparr>))"

definition db_encode_body :: "DataBlock \<Rightarrow> wr" where
  "db_encode_body p = wr_then (wr_u32 (db_transaction_id p)) (wr_bytes (db_payload p))"

section \<open>Decoders that read to the end\<close>

definition ends :: "'a rd \<Rightarrow> bytes \<Rightarrow> 'a \<Rightarrow> bool" where
  "ends d bs x \<longleftrightarrow> (\<forall>r. unread r = bs \<longrightarrow> (\<exists>r'. d r = Inr (x, r') \<and> unread r' = []))"

lemma endsD: "ends d bs x \<Longrightarrow> unread r = bs \<Longrightarrow> \<exists>r'. d r = Inr (x, r') \<and> unread r' = []"
  by (simp add: ends_def)

lemma ends_parses: "parses d bs x \<Longrightarrow> ends d bs x"
  by (auto simp: ends_def dest: parsesD [where ys = "[]"])

lemma ends_bind:
  assumes "parses d bs x" "ends (f x) cs y"
  shows "ends (rd_bind d f) (bs @ cs) y"
  unfolding ends_def
proof (intro allI impI)
  fix r
  assume r: "unread r = bs @ cs"
  then have "d r = Inr (x, advance (length bs) r)"
    using assms(1) by (simp add: parsesD)
  moreover obtain r' where "f x (advance (length bs) r) = Inr (y, r')" "unread r' = []"
    using endsD [OF assms(2), of "advance (length bs) r"] r by auto
  ultimately show "\<exists>r'. rd_bind d f r = Inr (y, r') \<and> unread r' = []"
    by (simp add: rd_bind_def)
qed

lemma ends_then_return:
  "ends d bs x \<Longrightarrow> ends (rd_bind d (\<lambda>x. rd_return (f x))) bs (f x)"
  by (force simp: ends_def rd_bind_Inr_iff)

lemma ends_then_finish:
  "ends d bs x \<Longrightarrow> ends (rd_bind d (\<lambda>x. rd_bind finish (\<lambda>_. rd_return (f x)))) bs (f x)"
  by (force simp: ends_def rd_bind_Inr_iff)

lemma ends_finish: "ends finish [] ()"
  by (simp add: ends_def)

lemma ends_rest: "ends rd_rest bs bs"
  by (auto simp: ends_def rd_rest_def unread_def)

lemma parses_guid: "length g = 16 \<Longrightarrow> parses rd_guid g g"
  by (simp add: rd_guid_def parses_bytes)

lemma length_concat_u32 [simp]: "length (concat (map u32_le ps)) = 4 * length ps"
  by (induction ps) simp_all

lemma ends_params_loop: "ends params_loop (concat (map u32_le ps)) ps"
proof (induction ps)
  case Nil
  show ?case
    by (simp add: ends_def params_loop.simps remaining_unread)
next
  case (Cons p ps)
  show ?case
    unfolding ends_def
  proof (intro allI impI)
    fix r
    assume r: "unread r = concat (map u32_le (p # ps))"
    then have "rd_u32 r = Inr (p, advance 4 r)"
      using parsesD [OF parses_u32, of r p] by simp
    moreover obtain r' where "params_loop (advance 4 r) = Inr (ps, r')" "unread r' = []"
      using endsD [OF Cons, of "advance 4 r"] r by auto
    ultimately show "\<exists>r'. params_loop r = Inr (p # ps, r') \<and> unread r' = []"
      using r by (simp add: params_loop.simps [of r] remaining_unread)
  qed
qed

lemma ends_remaining_params: "ends remaining_params (concat (map u32_le ps)) ps"
  using ends_then_finish [OF ends_params_loop, of "\<lambda>ps. ps" ps]
  by (simp add: ends_def remaining_params_def remaining_unread)

lemma params_loop_InrD:
  "params_loop r = Inr (ps, r') \<Longrightarrow> unread r = concat (map u32_le ps) @ unread r'"
proof (induction r arbitrary: ps rule: params_loop.induct)
  case (1 r)
  show ?case
  proof (cases "remaining r \<ge> 4")
    case True
    then obtain p r1 qs where "rd_u32 r = Inr (p, r1)" "params_loop r1 = Inr (qs, r')" "ps = p # qs"
      using "1.prems" by (auto simp: params_loop.simps [of r] split: sum.splits)
    then show ?thesis
      using "1.IH" [OF True, of "(p, r1)" p r1 qs] rd_u32_InrD [of r p r1] by simp
  next
    case False
    then show ?thesis
      using "1.prems" by (simp add: params_loop.simps [of r])
  qed
qed

lemma remaining_params_InrD:
  "remaining_params r = Inr (ps, r') \<Longrightarrow> unread r = concat (map u32_le ps) \<and> unread r' = []"
  by (auto simp: remaining_params_def rd_bind_Inr_iff split: if_splits dest: params_loop_InrD)

section \<open>Matching bodies\<close>

text \<open>
  \<open>concludes a d x\<close>: what the encoder \<open>a\<close> writes is read back by \<open>d\<close> as \<open>x\<close>, using up
  the whole input. The pairs below are the payload codecs of the packets.
\<close>

definition concludes :: "wr \<Rightarrow> 'a rd \<Rightarrow> 'a \<Rightarrow> bool" where
  "concludes a d x \<longleftrightarrow> (\<exists>bs. writes a bs \<and> ends d bs x)"

lemma concludesI: "writes a bs \<Longrightarrow> ends d bs x \<Longrightarrow> concludes a d x"
  by (auto simp: concludes_def)

lemma concludes_writes: "concludes a d x \<Longrightarrow> writes a (output_of a)"
  using output_writes by (auto simp: concludes_def)

lemma concludes_ends: "concludes a d x \<Longrightarrow> ends d (output_of a) x"
  using output_writes by (auto simp: concludes_def)

lemma concludes_carries: "carries a d x \<Longrightarrow> concludes a d x"
  by (auto simp: concludes_def carries_def intro: ends_parses)

lemma concludes_then:
  "carries a d x \<Longrightarrow> concludes b (f x) y \<Longrightarrow> concludes (wr_then a b) (rd_bind d f) y"
  unfolding carries_def concludes_def [of b]
  by (elim exE conjE) (rule concludesI [OF writes_then ends_bind])

lemma concludes_last:
  "concludes a d x \<Longrightarrow> f x = y \<Longrightarrow> concludes a (rd_bind d (\<lambda>x. rd_return (f x))) y"
  by (auto simp: concludes_def intro!: ends_then_return)

lemma concludes_last_finish:
  "concludes a d x \<Longrightarrow> f x = y \<Longrightarrow>
    concludes a (rd_bind d (\<lambda>x. rd_bind finish (\<lambda>_. rd_return (f x)))) y"
  by (auto simp: concludes_def intro!: ends_then_finish)

lemma concludes_params: "concludes (wr_each wr_u32 ps) remaining_params ps"
  by (rule concludesI [OF writes_each [OF writes_ints(3)] ends_remaining_params])

lemma concludes_rest: "concludes (wr_bytes bs) rd_rest bs"
  by (rule concludesI [OF writes_bytes ends_rest])

lemma concludes_empty: "concludes wr_ok finish ()"
  by (rule concludesI [OF writes_ok ends_finish])

lemma carries_guid: "length g = 16 \<Longrightarrow> carries (wr_bytes g) rd_guid g"
  by (simp add: rd_guid_def carries_bytes)

lemma icr_body:
  assumes "length (icr_initiator_guid p) = 16" "valid_ptp_str (icr_friendly_name p)"
  shows "carries (icr_encode_body p) icr_decode_body p"
  unfolding icr_encode_body_def icr_decode_body_def
  using assms by (intro carries_then carries_last) (rule carries_guid carries_ptp_string carries_ints | simp)+

lemma ica_body:
  assumes "length (ica_responder_guid p) = 16" "valid_ptp_str (ica_friendly_name p)"
  shows "carries (ica_encode_body p) ica_decode_body p"
  unfolding ica_encode_body_def ica_decode_body_def
  using assms by (intro carries_then carries_last) (rule carries_guid carries_ptp_string carries_ints | simp)+

lemma ier_body: "concludes (ier_encode_body p) ier_decode_body p"
  unfolding ier_encode_body_def ier_decode_body_def
  by (rule concludes_last_finish [OF concludes_carries [OF carries_ints(3)]]) simp

lemma fail_body: "carries (fail_encode_body p) fail_decode_body p"
  unfolding fail_encode_body_def fail_decode_body_def
  by (rule carries_last [OF carries_ints(3)]) simp

lemma oreq_body: "concludes (oreq_encode_body p) oreq_decode_body p"
  unfolding oreq_encode_body_def oreq_decode_body_def
  by (intro concludes_then concludes_last) (rule concludes_params carries_ints | simp)+

lemma oresp_body: "concludes (oresp_encode_body p) oresp_decode_body p"
  unfolding oresp_encode_body_def oresp_decode_body_def
  by (intro concludes_then concludes_last) (rule concludes_params carries_ints | simp)+

lemma ev_body: "concludes (ev_encode_body p) ev_decode_body p"
  unfolding ev_encode_body_def ev_decode_body_def
  by (intro concludes_then concludes_last) (rule concludes_params carries_ints | simp)+

lemma sd_body: "carries (sd_encode_body p) sd_decode_body p"
  unfolding sd_encode_body_def sd_decode_body_def
  by (intro carries_then carries_last) (rule carries_ints | simp)+

lemma db_body: "concludes (db_encode_body p) db_decode_body p"
  unfolding db_encode_body_def db_decode_body_def
  by (intro concludes_then concludes_last) (rule concludes_rest carries_ints | simp)+

text \<open>Conversely, what a string-free body decoder accepts is the image of its result.\<close>

lemma body_outputs:
  "output_of (ier_encode_body e) = u32_le (ier_connection_number e)"
  "output_of (fail_encode_body f) = u32_le (fail_reason f)"
  "output_of (oreq_encode_body p) = u32_le (oreq_data_phase_info p) @ u16_le (oreq_code p) @
     u32_le (oreq_transaction_id p) @ concat (map u32_le (oreq_params p))"
  "output_of (oresp_encode_body q) = u16_le (oresp_code q) @ u32_le (oresp_transaction_id q) @
     concat (map u32_le (oresp_params q))"
  "output_of (ev_encode_body v) = u16_le (ev_code v) @ u32_le (ev_transaction_id v) @
     concat (map u32_le (ev_params v))"
  "output_of (sd_encode_body s) = u32_le (sd_transaction_id s) @ u64_le (sd_total_length s)"
  "output_of (db_encode_body d) = u32_le (db_transaction_id d) @ db_payload d"
  "output_of empty_encode_body = []"
  unfolding ier_encode_body_def fail_encode_body_def oreq_encode_body_def oresp_encode_body_def
    ev_encode_body_def sd_encode_body_def db_encode_body_def empty_encode_body_def
  by (intro output_writes writes_then writes_each write_rule)+

lemma ier_exact: "ier_decode_body r = Inr (p, r') \<Longrightarrow> unread r = output_of (ier_encode_body p)"
  by (auto simp: ier_decode_body_def rd_bind_Inr_iff body_outputs dest!: rd_InrD)

lemma fail_exact:
  "fail_decode_body r = Inr (p, r') \<Longrightarrow> unread r = output_of (fail_encode_body p) @ unread r'"
  by (auto simp: fail_decode_body_def rd_bind_Inr_iff body_outputs dest!: rd_InrD)

lemma oreq_exact: "oreq_decode_body r = Inr (p, r') \<Longrightarrow> unread r = output_of (oreq_encode_body p)"
  by (auto simp: oreq_decode_body_def rd_bind_Inr_iff body_outputs
      dest!: rd_InrD remaining_params_InrD)

lemma oresp_exact: "oresp_decode_body r = Inr (p, r') \<Longrightarrow> unread r = output_of (oresp_encode_body p)"
  by (auto simp: oresp_decode_body_def rd_bind_Inr_iff body_outputs
      dest!: rd_InrD remaining_params_InrD)

lemma ev_exact: "ev_decode_body r = Inr (p, r') \<Longrightarrow> unread r = output_of (ev_encode_body p)"
  by (auto simp: ev_decode_body_def rd_bind_Inr_iff body_outputs
      dest!: rd_InrD remaining_params_InrD)

lemma sd_exact: "sd_decode_body r = Inr (p, r') \<Longrightarrow> unread r = output_of (sd_encode_body p) @ unread r'"
  by (auto simp: sd_decode_body_def rd_bind_Inr_iff body_outputs dest!: rd_InrD)

lemma db_exact: "db_decode_body r = Inr (p, r') \<Longrightarrow> unread r = output_of (db_encode_body p)"
  by (auto simp: db_decode_body_def rd_bind_Inr_iff body_outputs dest!: rd_InrD)

lemma empty_exact:
  "empty_decode_body r = Inr (u, r') \<Longrightarrow> unread r = output_of empty_encode_body"
  by (simp add: empty_decode_body_def body_outputs)

lemmas body_exact =
  ier_exact fail_exact oreq_exact oresp_exact ev_exact sd_exact db_exact empty_exact

lemma body_always_writes:
  "writes (ier_encode_body e) (output_of (ier_encode_body e))"
  "writes (fail_encode_body f) (output_of (fail_encode_body f))"
  "writes (oreq_encode_body p) (output_of (oreq_encode_body p))"
  "writes (oresp_encode_body q) (output_of (oresp_encode_body q))"
  "writes (ev_encode_body v) (output_of (ev_encode_body v))"
  "writes (sd_encode_body s) (output_of (sd_encode_body s))"
  "writes (db_encode_body d) (output_of (db_encode_body d))"
  using concludes_writes [OF ier_body] carries_writes [OF fail_body] concludes_writes [OF oreq_body]
    concludes_writes [OF oresp_body] concludes_writes [OF ev_body] carries_writes [OF sd_body]
    concludes_writes [OF db_body]
  by simp_all

end
