(* ===== verification/Ptp_Framing.thy ===== *)
theory Ptp_Framing
  imports Ptp_Container
begin

text \<open>
  The packet-type registry of \<^verbatim>\<open>crates/ptp-core/src/codes.rs\<close> and the standard TCP
  framing of \<^verbatim>\<open>crates/ptp-core/src/framing.rs\<close>: a length word, a type word and the
  payload. The locale \<open>frame_codec\<close> is the contract of a codec over whole buffers; the
  framings and datasets of the program interpret it.
\<close>

section \<open>Packet types\<close>

datatype PacketType =
    Pt_InitCommandRequest | Pt_InitCommandAck | Pt_InitEventRequest | Pt_InitEventAck
  | Pt_InitFail | Pt_OperationRequest | Pt_OperationResponse | Pt_Event | Pt_StartData
  | Pt_Data | Pt_Cancel | Pt_EndData | Pt_ProbeRequest | Pt_ProbeResponse

fun type_tag :: "PacketType \<Rightarrow> u32" where
  "type_tag Pt_InitCommandRequest = 1"
| "type_tag Pt_InitCommandAck = 2"
| "type_tag Pt_InitEventRequest = 3"
| "type_tag Pt_InitEventAck = 4"
| "type_tag Pt_InitFail = 5"
| "type_tag Pt_OperationRequest = 6"
| "type_tag Pt_OperationResponse = 7"
| "type_tag Pt_Event = 8"
| "type_tag Pt_StartData = 9"
| "type_tag Pt_Data = 10"
| "type_tag Pt_Cancel = 11"
| "type_tag Pt_EndData = 12"
| "type_tag Pt_ProbeRequest = 13"
| "type_tag Pt_ProbeResponse = 14"

definition PacketType_from_u32 :: "u32 \<Rightarrow> PacketType option" where
  "PacketType_from_u32 v =
    (if v = 1 then Some Pt_InitCommandRequest
     else if v = 2 then Some Pt_InitCommandAck
     else if v = 3 then Some Pt_InitEventRequest
     else if v = 4 then Some Pt_InitEventAck
     else if v = 5 then Some Pt_InitFail
     else if v = 6 then Some Pt_OperationRequest
     else if v = 7 then Some Pt_OperationResponse
     else if v = 8 then Some Pt_Event
     else if v = 9 then Some Pt_StartData
     else if v = 10 then Some Pt_Data
     else if v = 11 then Some Pt_Cancel
     else if v = 12 then Some Pt_EndData
     else if v = 13 then Some Pt_ProbeRequest
     else if v = 14 then Some Pt_ProbeResponse
     else None)"

section \<open>Packets\<close>

datatype PtpIpPacket =
    P_InitCommandRequest InitCommandRequest
  | P_InitCommandAck InitCommandAck
  | P_InitEventRequest InitEventRequest
  | P_InitEventAck
  | P_InitFail InitFail
  | P_OperationRequest OperationRequest
  | P_OperationResponse OperationResponse
  | P_Event EventPacket
  | P_StartData StartData
  | P_Data DataBlock
  | P_EndData DataBlock
  | P_ProbeRequest
  | P_ProbeResponse

fun packet_type :: "PtpIpPacket \<Rightarrow> PacketType" where
  "packet_type (P_InitCommandRequest p) = Pt_InitCommandRequest"
| "packet_type (P_InitCommandAck p) = Pt_InitCommandAck"
| "packet_type (P_InitEventRequest p) = Pt_InitEventRequest"
| "packet_type P_InitEventAck = Pt_InitEventAck"
| "packet_type (P_InitFail p) = Pt_InitFail"
| "packet_type (P_OperationRequest p) = Pt_OperationRequest"
| "packet_type (P_OperationResponse p) = Pt_OperationResponse"
| "packet_type (P_Event p) = Pt_Event"
| "packet_type (P_StartData p) = Pt_StartData"
| "packet_type (P_Data p) = Pt_Data"
| "packet_type (P_EndData p) = Pt_EndData"
| "packet_type P_ProbeRequest = Pt_ProbeRequest"
| "packet_type P_ProbeResponse = Pt_ProbeResponse"

fun packet_encode_body :: "PtpIpPacket \<Rightarrow> wr" where
  "packet_encode_body (P_InitCommandRequest p) = icr_encode_body p"
| "packet_encode_body (P_InitCommandAck p) = ica_encode_body p"
| "packet_encode_body (P_InitEventRequest p) = ier_encode_body p"
| "packet_encode_body P_InitEventAck = empty_encode_body"
| "packet_encode_body (P_InitFail p) = fail_encode_body p"
| "packet_encode_body (P_OperationRequest p) = oreq_encode_body p"
| "packet_encode_body (P_OperationResponse p) = oresp_encode_body p"
| "packet_encode_body (P_Event p) = ev_encode_body p"
| "packet_encode_body (P_StartData p) = sd_encode_body p"
| "packet_encode_body (P_Data p) = db_encode_body p"
| "packet_encode_body (P_EndData p) = db_encode_body p"
| "packet_encode_body P_ProbeRequest = empty_encode_body"
| "packet_encode_body P_ProbeResponse = empty_encode_body"

fun packet_decode_body :: "PacketType \<Rightarrow> PtpIpPacket rd" where
  "packet_decode_body Pt_InitCommandRequest =
    rd_bind icr_decode_body (\<lambda>p. rd_return (P_InitCommandRequest p))"
| "packet_decode_body Pt_InitCommandAck =
    rd_bind ica_decode_body (\<lambda>p. rd_return (P_InitCommandAck p))"
| "packet_decode_body Pt_InitEventRequest =
    rd_bind ier_decode_body (\<lambda>p. rd_return (P_InitEventRequest p))"
| "packet_decode_body Pt_InitEventAck =
    rd_bind empty_decode_body (\<lambda>_. rd_return P_InitEventAck)"
| "packet_decode_body Pt_InitFail =
    rd_bind fail_decode_body (\<lambda>p. rd_return (P_InitFail p))"
| "packet_decode_body Pt_OperationRequest =
    rd_bind oreq_decode_body (\<lambda>p. rd_return (P_OperationRequest p))"
| "packet_decode_body Pt_OperationResponse =
    rd_bind oresp_decode_body (\<lambda>p. rd_return (P_OperationResponse p))"
| "packet_decode_body Pt_Event = rd_bind ev_decode_body (\<lambda>p. rd_return (P_Event p))"
| "packet_decode_body Pt_StartData = rd_bind sd_decode_body (\<lambda>p. rd_return (P_StartData p))"
| "packet_decode_body Pt_Data = rd_bind db_decode_body (\<lambda>p. rd_return (P_Data p))"
| "packet_decode_body Pt_EndData = rd_bind db_decode_body (\<lambda>p. rd_return (P_EndData p))"
| "packet_decode_body Pt_ProbeRequest =
    rd_bind empty_decode_body (\<lambda>_. rd_return P_ProbeRequest)"
| "packet_decode_body Pt_ProbeResponse =
    rd_bind empty_decode_body (\<lambda>_. rd_return P_ProbeResponse)"
| "packet_decode_body Pt_Cancel = rd_fail (UnknownPacketType (type_tag Pt_Cancel))"

definition run_rd :: "'a rd \<Rightarrow> bytes \<Rightarrow> DecodeError + 'a" where
  "run_rd d bs = (case d (Reader_new bs) of Inl e \<Rightarrow> Inl e | Inr (x, _) \<Rightarrow> Inr x)"

definition packet_rd :: "nat \<Rightarrow> PtpIpPacket rd" where
  "packet_rd actual =
    rd_bind rd_u32 (\<lambda>len. rd_bind rd_u32 (\<lambda>type_raw.
      if unat len \<noteq> actual then rd_fail (LengthMismatch (unat len) actual)
      else case PacketType_from_u32 type_raw of
             None \<Rightarrow> rd_fail (UnknownPacketType type_raw)
           | Some ptype \<Rightarrow>
               rd_bind (packet_decode_body ptype) (\<lambda>packet.
                 rd_bind finish (\<lambda>_. rd_return packet))))"

definition packet_decode :: "bytes \<Rightarrow> DecodeError + PtpIpPacket" where
  "packet_decode bs = run_rd (packet_rd (length bs)) bs"

definition packet_encode :: "PtpIpPacket \<Rightarrow> wr" where
  "packet_encode p out =
    (case wr_then (wr_u32 0) (wr_then (wr_u32 (type_tag (packet_type p))) (packet_encode_body p)) [] of
       (Inl e, w) \<Rightarrow> (Inl e, out)
     | (Inr _, w) \<Rightarrow> (Inr (), out @ patch_u32 0 (word_of_nat (length w)) w))"

definition encode :: "PtpIpPacket \<Rightarrow> EncodeError + bytes" where
  "encode pkt = (case packet_encode pkt [] of (Inl e, v) \<Rightarrow> Inl e | (Inr _, v) \<Rightarrow> Inr v)"

text \<open>
  \<open>valid_packet\<close> collects what the Rust types guarantee (16-byte GUIDs, well-formed
  strings) and the two size limits of the format: the PTP string limit and a total
  length that fits the length word. \<open>one_image\<close> marks the packets without a string,
  whose wire image is unique.
\<close>

fun valid_payload :: "PtpIpPacket \<Rightarrow> bool" where
  "valid_payload (P_InitCommandRequest p) \<longleftrightarrow>
    length (icr_initiator_guid p) = 16 \<and> valid_ptp_str (icr_friendly_name p)"
| "valid_payload (P_InitCommandAck p) \<longleftrightarrow>
    length (ica_responder_guid p) = 16 \<and> valid_ptp_str (ica_friendly_name p)"
| "valid_payload p \<longleftrightarrow> True"

definition valid_packet :: "PtpIpPacket \<Rightarrow> bool" where
  "valid_packet p \<longleftrightarrow>
    valid_payload p \<and> 8 + length (output_of (packet_encode_body p)) < 2 ^ 32"

fun one_image :: "PtpIpPacket \<Rightarrow> bool" where
  "one_image (P_InitCommandRequest p) = False"
| "one_image (P_InitCommandAck p) = False"
| "one_image p = True"

section \<open>Contract of a whole-buffer codec\<close>

locale frame_codec =
  fixes enc :: "'a \<Rightarrow> 'e + bytes"
    and dec :: "bytes \<Rightarrow> 'd + 'a"
    and valid :: "'a \<Rightarrow> bool"
  assumes frame_law: "valid x \<Longrightarrow> \<exists>bs. enc x = Inr bs \<and> dec bs = Inr x"
begin

lemma enc_inj:
  assumes "valid x" "valid y" "enc x = enc y"
  shows "x = y"
  using frame_law [OF assms(1)] frame_law [OF assms(2)] assms(3) by auto

lemma enc_total: "valid x \<Longrightarrow> \<exists>bs. enc x = Inr bs"
  using frame_law by blast

end

locale canonical_codec = frame_codec +
  fixes canon :: "'a \<Rightarrow> bool"
  assumes canon_law: "dec bs = Inr x \<Longrightarrow> canon x \<Longrightarrow> enc x = Inr bs"
begin

lemma one_accepted_image:
  assumes "dec bs = Inr x" "dec cs = Inr x" "canon x"
  shows "bs = cs"
  using canon_law [OF assms(1,3)] canon_law [OF assms(2,3)] by simp

end

section \<open>Correctness\<close>

lemma PacketType_from_u32_tag [simp]: "PacketType_from_u32 (type_tag t) = Some t"
  by (cases t) (simp_all add: PacketType_from_u32_def)

lemma PacketType_from_u32_Some: "PacketType_from_u32 v = Some t \<Longrightarrow> type_tag t = v"
  by (auto simp: PacketType_from_u32_def split: if_splits)

lemma run_rd_ends:
  assumes "ends d bs x"
  shows "run_rd d bs = Inr x"
  using endsD [OF assms, of "Reader_new bs"] by (auto simp: run_rd_def)

lemma run_rd_Inr_iff: "run_rd d bs = Inr x \<longleftrightarrow> (\<exists>r'. d (Reader_new bs) = Inr (x, r'))"
  by (auto simp: run_rd_def split: sum.splits)

lemma packet_body:
  assumes "valid_payload p"
  shows "concludes (packet_encode_body p) (packet_decode_body (packet_type p)) p"
  using assms
  by (cases p)
    (auto simp: empty_encode_body_def empty_decode_body_def intro!: concludes_last
      intro: concludes_empty ier_body oreq_body oresp_body ev_body db_body
        concludes_carries [OF icr_body] concludes_carries [OF ica_body]
        concludes_carries [OF fail_body] concludes_carries [OF sd_body])

definition packet_image :: "PtpIpPacket \<Rightarrow> bytes" where
  "packet_image p =
    (let body = output_of (packet_encode_body p) in
      u32_le (word_of_nat (8 + length body)) @ u32_le (type_tag (packet_type p)) @ body)"

lemma writes_packet:
  assumes "writes (packet_encode_body p) bs"
  shows "writes (packet_encode p) (packet_image p)"
proof -
  have "output_of (packet_encode_body p) = bs"
    by (rule output_writes [OF assms])
  moreover have "wr_then (wr_u32 0) (wr_then (wr_u32 (type_tag (packet_type p))) (packet_encode_body p)) []
    = (Inr (), [] @ u32_le 0 @ u32_le (type_tag (packet_type p)) @ bs)"
    by (intro writesD writes_then writes_ints assms)
  ultimately show ?thesis
    by (simp add: writes_def packet_encode_def packet_image_def patch_u32_def Let_def)
qed

lemma encode_eq_Inr:
  "writes (packet_encode_body p) bs \<Longrightarrow> encode p = Inr (packet_image p)"
  using writesD [OF writes_packet, of p bs "[]"] by (simp add: encode_def)

lemma packet_decode_image:
  assumes "valid_packet p"
  shows "packet_decode (packet_image p) = Inr p"
proof -
  let ?body = "output_of (packet_encode_body p)"
  have "unat (word_of_nat (8 + length ?body) :: u32) = 8 + length ?body"
    using assms by (intro unat_of_nat_fits) (simp add: valid_packet_def)
  then have fits: "unat (word_of_nat (8 + length ?body) :: u32) = length (packet_image p)"
    by (simp only: packet_image_def Let_def length_append length_le_words)
  have "ends (packet_decode_body (packet_type p)) ?body p"
    using assms by (intro concludes_ends packet_body) (simp add: valid_packet_def)
  then have "ends (packet_rd (length (packet_image p)))
      (u32_le (word_of_nat (8 + length ?body)) @ u32_le (type_tag (packet_type p)) @ ?body) p"
    unfolding packet_rd_def
    by (intro ends_bind [OF parses_u32])
      (simp add: fits ends_then_finish [where f = "\<lambda>p. p"] del: of_nat_add of_nat_numeral)
  then show ?thesis
    unfolding packet_decode_def by (intro run_rd_ends) (simp add: packet_image_def Let_def)
qed

interpretation ptpip: frame_codec encode packet_decode valid_packet
proof
  fix p
  assume valid: "valid_packet p"
  then have "writes (packet_encode_body p) (output_of (packet_encode_body p))"
    using concludes_writes [OF packet_body] by (simp add: valid_packet_def)
  then show "\<exists>bs. encode p = Inr bs \<and> packet_decode bs = Inr p"
    using encode_eq_Inr packet_decode_image [OF valid] by blast
qed

lemma packet_decode_body_type:
  "packet_decode_body t r = Inr (p, r') \<Longrightarrow> packet_type p = t"
  by (cases t) (auto simp: rd_bind_Inr_iff)

lemma packet_decode_body_exact:
  assumes "packet_decode_body (packet_type p) r = Inr (p, r')" "one_image p" "unread r' = []"
  shows "unread r = output_of (packet_encode_body p)"
  using assms by (cases p) (auto simp: rd_bind_Inr_iff dest: body_exact)

lemma packet_decode_InrE:
  assumes "packet_decode bs = Inr p"
  obtains len r r' where
    "bs = u32_le len @ u32_le (type_tag (packet_type p)) @ unread r"
    "unat len = length bs" "packet_decode_body (packet_type p) r = Inr (p, r')" "unread r' = []"
proof -
  obtain len r1 t r2 q r3 where
    1: "rd_u32 (Reader_new bs) = Inr (len, r1)" and 2: "rd_u32 r1 = Inr (t, r2)"
    and len: "unat len = length bs" and t: "PacketType_from_u32 t = Some q"
    and body: "packet_decode_body q r2 = Inr (p, r3)" and fin: "unread r3 = []"
    using assms
    by (auto simp: packet_decode_def packet_rd_def run_rd_Inr_iff rd_bind_Inr_iff split: if_splits option.splits)
  have q: "q = packet_type p"
    using packet_decode_body_type [OF body] by simp
  show ?thesis
  proof (rule that [OF _ len body [unfolded q] fin])
    show "bs = u32_le len @ u32_le (type_tag (packet_type p)) @ unread r2"
      using rd_u32_InrD [OF 1] rd_u32_InrD [OF 2] PacketType_from_u32_Some [OF t] q by simp
  qed
qed

lemma one_image_writes:
  "one_image p \<Longrightarrow> writes (packet_encode_body p) (output_of (packet_encode_body p))"
  by (cases p) (auto simp: body_always_writes empty_encode_body_def intro: concludes_writes [OF concludes_empty])

lemma packet_image_decoded:
  assumes "packet_decode bs = Inr p" "one_image p"
  shows "packet_image p = bs"
proof -
  obtain len r r' where bs: "bs = u32_le len @ u32_le (type_tag (packet_type p)) @ unread r"
    and len: "unat len = length bs"
    and body: "packet_decode_body (packet_type p) r = Inr (p, r')" "unread r' = []"
    by (rule packet_decode_InrE [OF assms(1)])
  have out: "output_of (packet_encode_body p) = unread r"
    using packet_decode_body_exact [OF body(1) assms(2) body(2)] by simp
  have "8 + length (unread r) = unat len"
    using bs len by (metis length_append length_le_words(2) add.assoc numeral_Bit0)
  then have "word_of_nat (8 + length (unread r)) = len"
    by simp
  then show ?thesis
    by (simp add: packet_image_def out bs Let_def del: of_nat_add of_nat_numeral)
qed

interpretation ptpip: canonical_codec encode packet_decode valid_packet one_image
  by unfold_locales (simp add: encode_eq_Inr [OF one_image_writes] packet_image_decoded)

section \<open>Properties\<close>

definition sample_response :: PtpIpPacket where
  "sample_response =
    P_OperationResponse \<lparr>oresp_code = 0x2001, oresp_transaction_id = 5, oresp_params = [1, 2]\<rparr>"

text \<open>C17: every PTP/IP packet whose strings and total size fit the format is encoded without error
  and decodes back to the same packet.\<close>
theorem packet_round_trip:
  assumes "valid_packet p"
  shows "\<exists>bs. encode p = Inr bs \<and> packet_decode bs = Inr p"
  using assms by (rule ptpip.frame_law)

theorem packet_round_trip_witness:
  "valid_packet sample_response \<and>
   (\<exists>bs. encode sample_response = Inr bs \<and> packet_decode bs = Inr sample_response)"
proof -
  have "valid_packet sample_response"
    by (simp add: sample_response_def valid_packet_def body_outputs)
  then show ?thesis
    using packet_round_trip [of sample_response] by simp
qed

text \<open>C18: a packet without a string has exactly one accepted image: whatever buffer decodes to it is
  byte for byte what the encoder produces, so no length, padding or parameter bytes are
  accepted silently.\<close>
theorem packet_decode_canonical:
  assumes "packet_decode bs = Inr p" "one_image p"
  shows "encode p = Inr bs"
  using assms by (rule ptpip.canon_law)

theorem packet_decode_canonical_witness:
  "packet_decode [14,0,0,0,7,0,0,0,1,0x20,5,0,0,0] =
     Inr (P_OperationResponse \<lparr>oresp_code = 0x2001, oresp_transaction_id = 5, oresp_params = []\<rparr>) \<and>
   encode (P_OperationResponse \<lparr>oresp_code = 0x2001, oresp_transaction_id = 5, oresp_params = []\<rparr>) =
     Inr [14,0,0,0,7,0,0,0,1,0x20,5,0,0,0]"
proof -
  have d: "packet_decode [14,0,0,0,7,0,0,0,1,0x20,5,0,0,0] =
     Inr (P_OperationResponse \<lparr>oresp_code = 0x2001, oresp_transaction_id = 5, oresp_params = []\<rparr>)"
    by code_simp
  then show ?thesis
    using packet_decode_canonical [OF d] by simp
qed

end
