(* ===== verification/Vendor_Framing.thy ===== *)
theory Vendor_Framing
  imports Ptp_Framing
begin

text \<open>
  The two PIMA-shaped container framings of \<^verbatim>\<open>crates/protocol-primitives\<close>
  (\<^verbatim>\<open>fuji_framing.rs\<close> for the compressed command channel, \<^verbatim>\<open>usb_ptp.rs\<close> for USB), the
  property value encoder (\<^verbatim>\<open>value_codec.rs\<close>) and the live-view frame header
  (\<^verbatim>\<open>liveview.rs\<close>).

  A Rust panic (\<^verbatim>\<open>expect\<close>) is the value \<^const>\<open>None\<close> of the function that can panic. Formatted
  error messages are kept as the format template with its numeric arguments.
\<close>

section \<open>Errors\<close>

type_synonym message = "string \<times> nat list"

datatype FramingError =
    NotOnCompressedChannel
  | UnsupportedPacket
  | Encode EncodeError
  | GuidLength nat
  | ValueTooWide int nat bool    \<comment> \<open>value, width, signed\<close>
  | InitAckError message
  | InitRequestError message

section \<open>Containers\<close>

text \<open>The header and parameter block every control arm of both encoders writes.\<close>

definition wr_control :: "u16 \<Rightarrow> u16 \<Rightarrow> u32 \<Rightarrow> u32 list \<Rightarrow> wr" where
  "wr_control ty code tid params =
    wr_then (wr_u16 ty) (wr_then (wr_u16 code) (wr_then (wr_u32 tid) (wr_each wr_u32 params)))"

definition close_frame :: "wr \<Rightarrow> bytes" where
  "close_frame body =
    (let w = snd (wr_then (wr_u32 0) body []) in patch_u32 0 (word_of_nat (length w)) w)"

fun fuji_encode :: "PtpIpPacket \<Rightarrow> FramingError + bytes" where
  "fuji_encode (P_OperationRequest p) =
    Inr (close_frame (wr_control 1 (oreq_code p) (oreq_transaction_id p) (oreq_params p)))"
| "fuji_encode (P_OperationResponse p) =
    Inr (close_frame (wr_control 3 (oresp_code p) (oresp_transaction_id p) (oresp_params p)))"
| "fuji_encode p = Inl NotOnCompressedChannel"

definition data_frame_header :: "u16 \<Rightarrow> u32 \<Rightarrow> u32 \<Rightarrow> bytes option" where
  "data_frame_header op txn payload_len =
    (if unat payload_len + 12 < 2 ^ 32
     then Some (u32_le (payload_len + 12) @ u16_le 2 @ u16_le op @ u32_le txn)
     else None)"

definition fuji_encode_data :: "u16 \<Rightarrow> u32 \<Rightarrow> bytes \<Rightarrow> bytes option" where
  "fuji_encode_data op txn payload =
    map_option (\<lambda>h. h @ payload) (data_frame_header op txn (word_of_nat (length payload)))"

definition fuji_rd :: "nat \<Rightarrow> PtpIpPacket rd" where
  "fuji_rd actual =
    rd_bind rd_u32 (\<lambda>len.
      if unat len \<noteq> actual then rd_fail (LengthMismatch (unat len) actual)
      else rd_bind rd_u16 (\<lambda>ptype. rd_bind rd_u16 (\<lambda>code. rd_bind rd_u32 (\<lambda>tid.
        rd_bind
          (if ptype = 1 then
             rd_bind remaining_params (\<lambda>params. rd_return (P_OperationRequest
               \<lparr>oreq_data_phase_info = 1, oreq_code = code, oreq_transaction_id = tid,
                oreq_params = params\<rparr>))
           else if ptype = 3 then
             rd_bind remaining_params (\<lambda>params. rd_return (P_OperationResponse
               \<lparr>oresp_code = code, oresp_transaction_id = tid, oresp_params = params\<rparr>))
           else if ptype = 2 then
             rd_bind rd_rest (\<lambda>payload. rd_return (P_Data
               \<lparr>db_transaction_id = tid, db_payload = payload\<rparr>))
           else rd_fail (UnknownPacketType (ucast ptype)))
          (\<lambda>packet. rd_bind finish (\<lambda>_. rd_return packet))))))"

definition fuji_decode :: "bytes \<Rightarrow> DecodeError + PtpIpPacket" where
  "fuji_decode bs = run_rd (fuji_rd (length bs)) bs"

fun usb_encode :: "PtpIpPacket \<Rightarrow> FramingError + bytes" where
  "usb_encode (P_OperationRequest p) =
    Inr (close_frame (wr_control 1 (oreq_code p) (oreq_transaction_id p) (oreq_params p)))"
| "usb_encode (P_OperationResponse p) =
    Inr (close_frame (wr_control 3 (oresp_code p) (oresp_transaction_id p) (oresp_params p)))"
| "usb_encode (P_Event p) =
    Inr (close_frame (wr_control 4 (ev_code p) (ev_transaction_id p) (ev_params p)))"
| "usb_encode p = Inl UnsupportedPacket"

definition usb_encode_data :: "u16 \<Rightarrow> u32 \<Rightarrow> bytes \<Rightarrow> bytes" where
  "usb_encode_data code tid payload =
    u32_le (word_of_nat (12 + length payload)) @ u16_le 2 @ u16_le code @ u32_le tid @ payload"

definition usb_rd :: "nat \<Rightarrow> PtpIpPacket rd" where
  "usb_rd actual =
    rd_bind rd_u32 (\<lambda>len.
      if unat len \<noteq> actual then rd_fail (LengthMismatch (unat len) actual)
      else rd_bind rd_u16 (\<lambda>ctype. rd_bind rd_u16 (\<lambda>code. rd_bind rd_u32 (\<lambda>tid.
        rd_bind
          (if ctype = 1 then
             rd_bind remaining_params (\<lambda>params. rd_return (P_OperationRequest
               \<lparr>oreq_data_phase_info = 1, oreq_code = code, oreq_transaction_id = tid,
                oreq_params = params\<rparr>))
           else if ctype = 3 then
             rd_bind remaining_params (\<lambda>params. rd_return (P_OperationResponse
               \<lparr>oresp_code = code, oresp_transaction_id = tid, oresp_params = params\<rparr>))
           else if ctype = 4 then
             rd_bind remaining_params (\<lambda>params. rd_return (P_Event
               \<lparr>ev_code = code, ev_transaction_id = tid, ev_params = params\<rparr>))
           else if ctype = 2 then
             rd_bind rd_rest (\<lambda>payload. rd_return (P_Data
               \<lparr>db_transaction_id = tid, db_payload = payload\<rparr>))
           else rd_fail (UnknownPacketType (ucast ctype)))
          (\<lambda>packet. rd_bind finish (\<lambda>_. rd_return packet))))))"

definition usb_decode :: "bytes \<Rightarrow> DecodeError + PtpIpPacket" where
  "usb_decode bs = run_rd (usb_rd (length bs)) bs"

section \<open>Property values\<close>

datatype ValueWidth = VW_U8 | VW_U16 | VW_U32 | VW_I16 | VW_I32

fun ValueWidth_bytes :: "ValueWidth \<Rightarrow> nat" where
  "ValueWidth_bytes VW_U8 = 1"
| "ValueWidth_bytes VW_U16 = 2"
| "ValueWidth_bytes VW_I16 = 2"
| "ValueWidth_bytes VW_U32 = 4"
| "ValueWidth_bytes VW_I32 = 4"

fun ValueWidth_is_signed :: "ValueWidth \<Rightarrow> bool" where
  "ValueWidth_is_signed VW_I16 = True"
| "ValueWidth_is_signed VW_I32 = True"
| "ValueWidth_is_signed w = False"

definition try_from :: "int \<Rightarrow> int \<Rightarrow> int \<Rightarrow> 'e \<Rightarrow> (int \<Rightarrow> bytes) \<Rightarrow> 'e + bytes" where
  "try_from lo hi v e k = (if lo \<le> v \<and> v \<le> hi then Inr (k v) else Inl e)"

fun encode_value :: "int \<Rightarrow> ValueWidth \<Rightarrow> FramingError + bytes" where
  "encode_value v VW_U8 = try_from 0 255 v (ValueTooWide v 1 False) (\<lambda>v. [word_of_int v])"
| "encode_value v VW_U16 =
    try_from 0 65535 v (ValueTooWide v 2 False) (\<lambda>v. u16_le (word_of_int v))"
| "encode_value v VW_U32 =
    try_from 0 4294967295 v (ValueTooWide v 4 False) (\<lambda>v. u32_le (word_of_int v))"
| "encode_value v VW_I16 =
    try_from (- 32768) 32767 v (ValueTooWide v 2 True) (\<lambda>v. u16_le (word_of_int v))"
| "encode_value v VW_I32 =
    try_from (- 2147483648) 2147483647 v (ValueTooWide v 4 True) (\<lambda>v. u32_le (word_of_int v))"

text \<open>What a reader of the declared type sees in the encoded bytes.\<close>

fun value_read :: "ValueWidth \<Rightarrow> bytes \<Rightarrow> int" where
  "value_read VW_U8 bs = int (le_dec bs)"
| "value_read VW_U16 bs = int (le_dec bs)"
| "value_read VW_U32 bs = int (le_dec bs)"
| "value_read VW_I16 bs = sint (word_of_nat (le_dec bs) :: u16)"
| "value_read VW_I32 bs = sint (word_of_nat (le_dec bs) :: u32)"

section \<open>Live-view frames\<close>

definition HEADER_LEN :: nat where
  "HEADER_LEN = 18"

definition frame_packet :: "bytes \<Rightarrow> u32 \<Rightarrow> bytes option" where
  "frame_packet jpeg frame_counter =
    (if length jpeg + HEADER_LEN < 2 ^ 32
     then Some (u32_le (word_of_nat (length jpeg + HEADER_LEN)) @ u32_le 0 @ u32_le frame_counter @
                u32_le 0 @ u16_le 0 @ jpeg)
     else None)"

definition parse_frame :: "bytes \<Rightarrow> bytes option" where
  "parse_frame bs =
    (if length bs < HEADER_LEN then None
     else let total_len = le_dec (take 4 bs) in
       if total_len < HEADER_LEN \<or> length bs < total_len then None
       else let jpeg_start = HEADER_LEN + le_dec (subslice 12 16 bs) in
         if jpeg_start \<le> total_len then Some (subslice jpeg_start total_len bs) else None)"

section \<open>Container correctness\<close>

definition control_image :: "u16 \<Rightarrow> u16 \<Rightarrow> u32 \<Rightarrow> u32 list \<Rightarrow> bytes" where
  "control_image ty code tid params =
    u32_le (word_of_nat (12 + 4 * length params)) @ u16_le ty @ u16_le code @ u32_le tid @
    concat (map u32_le params)"

lemma close_control [simp]:
  "close_frame (wr_control ty code tid params) = control_image ty code tid params"
proof -
  have "wr_then (wr_u32 0) (wr_control ty code tid params) [] =
    (Inr (), [] @ u32_le 0 @ u16_le ty @ u16_le code @ u32_le tid @ concat (map u32_le params))"
    unfolding wr_control_def by (intro writesD writes_then writes_each write_rule)
  then show ?thesis
    by (simp add: close_frame_def control_image_def patch_u32_def Let_def add_ac)
qed

lemma length_control_image [simp]: "length (control_image ty code tid params) = 12 + 4 * length params"
  by (simp add: control_image_def)

fun fuji_valid :: "PtpIpPacket \<Rightarrow> bool" where
  "fuji_valid (P_OperationRequest p) \<longleftrightarrow>
    oreq_data_phase_info p = 1 \<and> 12 + 4 * length (oreq_params p) < 2 ^ 32"
| "fuji_valid (P_OperationResponse p) \<longleftrightarrow> 12 + 4 * length (oresp_params p) < 2 ^ 32"
| "fuji_valid p \<longleftrightarrow> False"

fun usb_valid :: "PtpIpPacket \<Rightarrow> bool" where
  "usb_valid (P_Event p) \<longleftrightarrow> 12 + 4 * length (ev_params p) < 2 ^ 32"
| "usb_valid p \<longleftrightarrow> fuji_valid p"

fun is_data :: "PtpIpPacket \<Rightarrow> bool" where
  "is_data (P_Data p) = True"
| "is_data p = False"

lemma unat_control_length:
  "12 + 4 * length params < 2 ^ 32 \<Longrightarrow>
    unat (word_of_nat (12 + 4 * length params) :: u32) = 12 + 4 * length params"
  by (rule unat_of_nat_fits) simp

lemma container_tail:
  assumes "ends d bs x"
  shows "ends (rd_bind d (\<lambda>packet. rd_bind finish (\<lambda>_. rd_return packet))) bs x"
  using ends_then_finish [OF assms, of "\<lambda>p. p"] .

lemma ends_params_as: "f ps = y \<Longrightarrow> ends (rd_bind remaining_params (\<lambda>ps. rd_return (f ps))) (concat (map u32_le ps)) y"
  using ends_then_return [OF ends_remaining_params, of f ps] by simp

lemma ends_rest_as: "f bs = y \<Longrightarrow> ends (rd_bind rd_rest (\<lambda>bs. rd_return (f bs))) bs y"
  using ends_then_return [OF ends_rest, of f bs] by simp

lemma fuji_ends_control:
  assumes "12 + 4 * length ps < 2 ^ 32"
    and "ty = 1 \<and> p = P_OperationRequest \<lparr>oreq_data_phase_info = 1, oreq_code = c,
           oreq_transaction_id = t, oreq_params = ps\<rparr>
       \<or> ty = 3 \<and> p = P_OperationResponse \<lparr>oresp_code = c, oresp_transaction_id = t,
           oresp_params = ps\<rparr>"
  shows "ends (fuji_rd (12 + 4 * length ps)) (control_image ty c t ps) p"
  unfolding fuji_rd_def control_image_def
  using assms
  by (intro ends_bind [OF parses_u32])
    (auto simp: unat_control_length simp del: of_nat_add of_nat_mult of_nat_numeral
      intro!: ends_bind [OF parses_u16] ends_bind [OF parses_u32] container_tail ends_params_as)

lemma usb_ends_control:
  assumes "12 + 4 * length ps < 2 ^ 32"
    and "ty = 1 \<and> p = P_OperationRequest \<lparr>oreq_data_phase_info = 1, oreq_code = c,
           oreq_transaction_id = t, oreq_params = ps\<rparr>
       \<or> ty = 3 \<and> p = P_OperationResponse \<lparr>oresp_code = c, oresp_transaction_id = t,
           oresp_params = ps\<rparr>
       \<or> ty = 4 \<and> p = P_Event \<lparr>ev_code = c, ev_transaction_id = t, ev_params = ps\<rparr>"
  shows "ends (usb_rd (12 + 4 * length ps)) (control_image ty c t ps) p"
  unfolding usb_rd_def control_image_def
  using assms
  by (intro ends_bind [OF parses_u32])
    (auto simp: unat_control_length simp del: of_nat_add of_nat_mult of_nat_numeral
      intro!: ends_bind [OF parses_u16] ends_bind [OF parses_u32] container_tail ends_params_as)

lemma fuji_decode_encode:
  assumes "fuji_valid p"
  shows "\<exists>bs. fuji_encode p = Inr bs \<and> fuji_decode bs = Inr p"
  using assms
  by (cases p rule: fuji_valid.cases)
    (auto simp: fuji_decode_def intro!: run_rd_ends fuji_ends_control)

lemma usb_decode_encode:
  assumes "usb_valid p"
  shows "\<exists>bs. usb_encode p = Inr bs \<and> usb_decode bs = Inr p"
  using assms
  by (cases p rule: usb_valid.cases)
    (auto simp: usb_decode_def intro!: run_rd_ends usb_ends_control)

text \<open>Everything a container decoder accepts has the container shape.\<close>

lemma container_words:
  assumes "rd_u32 (Reader_new bs) = Inr (len, r1)" "rd_u16 r1 = Inr (ty, r2)"
    "rd_u16 r2 = Inr (c, r3)" "rd_u32 r3 = Inr (t, r4)"
  shows "bs = u32_le len @ u16_le ty @ u16_le c @ u32_le t @ unread r4"
  using assms by (auto dest!: rd_InrD)

lemma container_params:
  assumes "bs = u32_le len @ u16_le ty @ u16_le c @ u32_le t @ concat (map u32_le ps)"
    "unat len = length bs"
  shows "control_image ty c t ps = bs"
proof -
  have "word_of_nat (12 + 4 * length ps) = len"
    using assms by (metis (no_types, lifting) append.assoc length_append length_control_image
        length_le_words(2) control_image_def word_unat_inverse)
  then show ?thesis
    using assms(1) by (simp add: control_image_def del: of_nat_add of_nat_mult of_nat_numeral)
qed

lemma fuji_canonical:
  assumes "fuji_decode bs = Inr p" "\<not> is_data p"
  shows "fuji_encode p = Inr bs"
proof -
  obtain len r1 ty r2 c r3 t r4 r5 ps where h: "rd_u32 (Reader_new bs) = Inr (len, r1)"
      "rd_u16 r1 = Inr (ty, r2)" "rd_u16 r2 = Inr (c, r3)" "rd_u32 r3 = Inr (t, r4)"
    and len: "unat len = length bs" and ps: "remaining_params r4 = Inr (ps, r5)"
    and p: "ty = 1 \<and> p = P_OperationRequest \<lparr>oreq_data_phase_info = 1, oreq_code = c,
           oreq_transaction_id = t, oreq_params = ps\<rparr>
       \<or> ty = 3 \<and> p = P_OperationResponse \<lparr>oresp_code = c, oresp_transaction_id = t,
           oresp_params = ps\<rparr>"
    using assms
    by (auto simp: fuji_decode_def fuji_rd_def run_rd_Inr_iff rd_bind_Inr_iff split: if_splits)
  have "control_image ty c t ps = bs"
    using container_words [OF h] remaining_params_InrD [OF ps] len by (intro container_params) auto
  then show ?thesis
    using p by auto
qed

lemma usb_canonical:
  assumes "usb_decode bs = Inr p" "\<not> is_data p"
  shows "usb_encode p = Inr bs"
proof -
  obtain len r1 ty r2 c r3 t r4 r5 ps where h: "rd_u32 (Reader_new bs) = Inr (len, r1)"
      "rd_u16 r1 = Inr (ty, r2)" "rd_u16 r2 = Inr (c, r3)" "rd_u32 r3 = Inr (t, r4)"
    and len: "unat len = length bs" and ps: "remaining_params r4 = Inr (ps, r5)"
    and p: "ty = 1 \<and> p = P_OperationRequest \<lparr>oreq_data_phase_info = 1, oreq_code = c,
           oreq_transaction_id = t, oreq_params = ps\<rparr>
       \<or> ty = 3 \<and> p = P_OperationResponse \<lparr>oresp_code = c, oresp_transaction_id = t,
           oresp_params = ps\<rparr>
       \<or> ty = 4 \<and> p = P_Event \<lparr>ev_code = c, ev_transaction_id = t, ev_params = ps\<rparr>"
    using assms
    by (auto simp: usb_decode_def usb_rd_def run_rd_Inr_iff rd_bind_Inr_iff split: if_splits)
  have "control_image ty c t ps = bs"
    using container_words [OF h] remaining_params_InrD [OF ps] len by (intro container_params) auto
  then show ?thesis
    using p by auto
qed

interpretation fuji: canonical_codec fuji_encode fuji_decode fuji_valid "\<lambda>p. \<not> is_data p"
  by unfold_locales (simp_all add: fuji_decode_encode fuji_canonical)

interpretation usbptp: canonical_codec usb_encode usb_decode usb_valid "\<lambda>p. \<not> is_data p"
  by unfold_locales (simp_all add: usb_decode_encode usb_canonical)

section \<open>Data containers\<close>

lemma fuji_data_round_trip:
  assumes "length payload + 12 < 2 ^ 32"
  shows "\<exists>bs. fuji_encode_data op txn payload = Some bs \<and>
    fuji_decode bs = Inr (P_Data \<lparr>db_transaction_id = txn, db_payload = payload\<rparr>)"
proof -
  let ?n = "word_of_nat (length payload) :: u32"
  let ?bs = "u32_le (?n + 12) @ u16_le 2 @ u16_le op @ u32_le txn @ payload"
  have n: "unat ?n = length payload"
    using assms by (intro unat_of_nat_fits) simp
  have len: "unat (?n + 12) = length ?bs"
    using assms n by (simp add: unat_word_ariths)
  have "ends (fuji_rd (length ?bs)) ?bs (P_Data \<lparr>db_transaction_id = txn, db_payload = payload\<rparr>)"
    unfolding fuji_rd_def
    by (intro ends_bind [OF parses_u32])
      (simp add: len, intro ends_bind [OF parses_u16] ends_bind [OF parses_u32] container_tail,
        auto intro!: ends_rest_as)
  moreover have "fuji_encode_data op txn payload = Some ?bs"
    using assms n by (simp add: fuji_encode_data_def data_frame_header_def)
  ultimately show ?thesis
    by (simp add: fuji_decode_def run_rd_ends)
qed

lemma usb_data_round_trip:
  assumes "length payload + 12 < 2 ^ 32"
  shows "usb_decode (usb_encode_data code tid payload) =
    Inr (P_Data \<lparr>db_transaction_id = tid, db_payload = payload\<rparr>)"
proof -
  have len: "unat (word_of_nat (12 + length payload) :: u32) = length (usb_encode_data code tid payload)"
    using assms unat_of_nat_fits [where 'a = 32, of "12 + length payload"] by (simp add: usb_encode_data_def)
  have "ends (usb_rd (length (usb_encode_data code tid payload))) (usb_encode_data code tid payload)
    (P_Data \<lparr>db_transaction_id = tid, db_payload = payload\<rparr>)"
    unfolding usb_rd_def
    by (subst (2) usb_encode_data_def, intro ends_bind [OF parses_u32])
      (simp add: len del: of_nat_add of_nat_numeral,
        intro ends_bind [OF parses_u16] ends_bind [OF parses_u32] container_tail,
        auto intro!: ends_rest_as)
  then show ?thesis
    by (simp add: usb_decode_def run_rd_ends)
qed

section \<open>Value encoding\<close>

definition width_min :: "ValueWidth \<Rightarrow> int" where
  "width_min w = (if ValueWidth_is_signed w then - (2 ^ (8 * ValueWidth_bytes w - 1)) else 0)"

definition width_max :: "ValueWidth \<Rightarrow> int" where
  "width_max w =
    (if ValueWidth_is_signed w then 2 ^ (8 * ValueWidth_bytes w - 1) else 2 ^ (8 * ValueWidth_bytes w)) - 1"

lemma int_unat_word_of_int:
  "0 \<le> v \<Longrightarrow> v < 2 ^ LENGTH('a) \<Longrightarrow> int (unat (word_of_int v :: 'a::len word)) = v"
  by (simp add: take_bit_int_eq_self unsigned_of_int)

lemma sint_word_of_int_fits:
  "- (2 ^ (LENGTH('a) - 1)) \<le> v \<Longrightarrow> v < 2 ^ (LENGTH('a) - 1) \<Longrightarrow>
    sint (word_of_int v :: 'a::len word) = v"
  by (simp add: signed_of_int signed_take_bit_int_eq_self)

lemma encode_value_reads_back:
  assumes "encode_value v w = Inr bs"
  shows "length bs = ValueWidth_bytes w \<and> value_read w bs = v"
  using assms int_unat_word_of_int [of v, where 'a = 8] int_unat_word_of_int [of v, where 'a = 16]
    int_unat_word_of_int [of v, where 'a = 32] sint_word_of_int_fits [of v, where 'a = 16]
    sint_word_of_int_fits [of v, where 'a = 32]
  by (cases w) (auto simp: try_from_def split: if_splits)

lemma encode_value_range:
  "encode_value v w =
    (if width_min w \<le> v \<and> v \<le> width_max w then encode_value v w
     else Inl (ValueTooWide v (ValueWidth_bytes w) (ValueWidth_is_signed w)))"
  by (cases w) (auto simp: try_from_def width_min_def width_max_def)

lemma encode_value_accepts:
  "(\<exists>bs. encode_value v w = Inr bs) \<longleftrightarrow> width_min w \<le> v \<and> v \<le> width_max w"
  by (cases w) (auto simp: try_from_def width_min_def width_max_def)

section \<open>Live-view framing\<close>

lemma parse_frame_packet:
  assumes "frame_packet jpeg n = Some pkt"
  shows "parse_frame (pkt @ extra) = Some jpeg"
proof -
  let ?len = "length jpeg + HEADER_LEN"
  have fits: "?len < 2 ^ 32"
    and pkt: "pkt = u32_le (word_of_nat ?len) @ u32_le 0 @ u32_le n @ u32_le 0 @ u16_le 0 @ jpeg"
    using assms by (auto simp: frame_packet_def split: if_splits)
  have total: "le_dec (take 4 (pkt @ extra)) = ?len"
    using unat_of_nat_fits [where 'a = 32, of ?len] fits
    by (simp add: pkt del: of_nat_add)
  have "subslice 12 16 (pkt @ extra) = u32_le 0"
    by (simp add: pkt subslice_def)
  then have adjust: "le_dec (subslice 12 16 (pkt @ extra)) = 0"
    by simp
  have "subslice HEADER_LEN ?len (pkt @ extra) = jpeg"
    by (simp add: pkt subslice_def HEADER_LEN_def)
  moreover have "length (pkt @ extra) = ?len + length extra"
    by (simp add: pkt HEADER_LEN_def)
  ultimately show ?thesis
    using total adjust by (simp add: parse_frame_def Let_def)
qed

lemma parse_frame_inside:
  assumes "parse_frame bs = Some jpeg"
  shows "\<exists>pre post. bs = pre @ jpeg @ post \<and> HEADER_LEN \<le> length pre"
proof -
  define s where "s = HEADER_LEN + le_dec (subslice 12 16 bs)"
  define t where "t = le_dec (take 4 bs)"
  have "HEADER_LEN \<le> s" "s \<le> t" "t \<le> length bs" "jpeg = subslice s t bs"
    using assms unfolding s_def t_def by (auto simp: parse_frame_def Let_def split: if_splits)
  moreover have "bs = take s bs @ take (t - s) (drop s bs) @ drop (t - s) (drop s bs)"
    by (simp only: append_take_drop_id)
  ultimately show ?thesis
    by (intro exI [of _ "take s bs"] exI [of _ "drop (t - s) (drop s bs)"]) (simp add: subslice_def)
qed

section \<open>Properties\<close>

definition sample_request :: PtpIpPacket where
  "sample_request = P_OperationRequest \<lparr>oreq_data_phase_info = 1, oreq_code = 0x1002,
     oreq_transaction_id = 7, oreq_params = [1]\<rparr>"



text \<open>The same for USB containers, whose control packets include events.\<close>
theorem usb_container_exact:
  assumes "usb_valid p"
  shows "\<exists>bs. usb_encode p = Inr bs \<and> usb_decode bs = Inr p \<and>
    (\<forall>cs. usb_decode cs = Inr p \<longrightarrow> cs = bs)"
proof -
  obtain bs where bs: "usb_encode p = Inr bs" "usb_decode bs = Inr p"
    using usbptp.frame_law [OF assms] by blast
  have "\<not> is_data p"
    using assms by (cases p) simp_all
  then show ?thesis
    using bs usbptp.one_accepted_image [OF _ bs(2)] by blast
qed

theorem usb_container_exact_witness:
  "usb_valid (P_Event \<lparr>ev_code = 0x4002, ev_transaction_id = 0, ev_params = [3]\<rparr>) \<and>
   (\<exists>bs. usb_encode (P_Event \<lparr>ev_code = 0x4002, ev_transaction_id = 0, ev_params = [3]\<rparr>) = Inr bs \<and>
     usb_decode bs = Inr (P_Event \<lparr>ev_code = 0x4002, ev_transaction_id = 0, ev_params = [3]\<rparr>) \<and>
     (\<forall>cs. usb_decode cs = Inr (P_Event \<lparr>ev_code = 0x4002, ev_transaction_id = 0, ev_params = [3]\<rparr>)
        \<longrightarrow> cs = bs))"
proof -
  have v: "usb_valid (P_Event \<lparr>ev_code = 0x4002, ev_transaction_id = 0, ev_params = [3]\<rparr>)"
    by simp
  then show ?thesis
    using usb_container_exact [OF v] by simp
qed

text \<open>C25: a data phase whose frame length fits 32 bits is delivered whole by both container framings:
  the decoder returns the transaction id and the payload of the encoder, and the compressed
  encoder does not panic.\<close>
theorem data_phase_delivered:
  assumes "length payload + 12 < 2 ^ 32"
  shows "(\<exists>bs. fuji_encode_data op txn payload = Some bs \<and>
      fuji_decode bs = Inr (P_Data \<lparr>db_transaction_id = txn, db_payload = payload\<rparr>)) \<and>
    usb_decode (usb_encode_data op txn payload) =
      Inr (P_Data \<lparr>db_transaction_id = txn, db_payload = payload\<rparr>)"
  using fuji_data_round_trip [OF assms] usb_data_round_trip [OF assms] by blast

theorem data_phase_delivered_witness:
  "length [1, 2, 3 :: u8] + 12 < 2 ^ 32 \<and>
   (\<exists>bs. fuji_encode_data 0x1009 4 [1, 2, 3] = Some bs \<and>
      fuji_decode bs = Inr (P_Data \<lparr>db_transaction_id = 4, db_payload = [1, 2, 3]\<rparr>)) \<and>
    usb_decode (usb_encode_data 0x1009 4 [1, 2, 3]) =
      Inr (P_Data \<lparr>db_transaction_id = 4, db_payload = [1, 2, 3]\<rparr>)"
proof -
  have l: "length [1, 2, 3 :: u8] + 12 < 2 ^ 32"
    by simp
  show ?thesis
    by (intro conjI l data_phase_delivered [OF l, of "0x1009" 4, THEN conjunct1]
        data_phase_delivered [OF l, of "0x1009" 4, THEN conjunct2])
qed

text \<open>C26: the property value encoder accepts exactly the range of the declared width and signedness,
  writes exactly that many bytes, and a reader of the declared type gets the value back;
  outside the range it reports the value, the width and the signedness.\<close>
theorem encode_value_exact:
  "(if width_min w \<le> v \<and> v \<le> width_max w
    then \<exists>bs. encode_value v w = Inr bs \<and> length bs = ValueWidth_bytes w \<and> value_read w bs = v
    else encode_value v w = Inl (ValueTooWide v (ValueWidth_bytes w) (ValueWidth_is_signed w)))"
  using encode_value_accepts [of v w] encode_value_range [of v w] encode_value_reads_back [of v w] by auto

text \<open>A live-view frame is recovered from the stream even when further bytes follow it, and the
  parser never returns bytes outside its input or inside the 18-byte header.\<close>
theorem liveview_frame_recovered:
  assumes "frame_packet jpeg n = Some pkt" "parse_frame bs = Some body"
  shows "parse_frame (pkt @ extra) = Some jpeg \<and>
    (\<exists>pre post. bs = pre @ body @ post \<and> HEADER_LEN \<le> length pre)"
  using parse_frame_packet [OF assms(1)] parse_frame_inside [OF assms(2)] by blast

theorem liveview_frame_recovered_witness:
  "frame_packet [0xFF, 0xD8] 3 =
     Some [20,0,0,0, 0,0,0,0, 3,0,0,0, 0,0,0,0, 0,0, 0xFF,0xD8] \<and>
   parse_frame [20,0,0,0, 0,0,0,0, 3,0,0,0, 1,0,0,0, 0,0, 0xFF,0xD8] = Some [0xD8] \<and>
   parse_frame ([20,0,0,0, 0,0,0,0, 3,0,0,0, 0,0,0,0, 0,0, 0xFF,0xD8] @ [9]) = Some [0xFF, 0xD8] \<and>
   (\<exists>pre post. [20,0,0,0, 0,0,0,0, 3,0,0,0, 1,0,0,0, 0,0, 0xFF,0xD8] = pre @ [0xD8] @ post \<and>
      HEADER_LEN \<le> length (pre :: bytes))"
proof -
  have f: "frame_packet [0xFF, 0xD8] 3 =
     Some [20,0,0,0, 0,0,0,0, 3,0,0,0, 0,0,0,0, 0,0, 0xFF,0xD8]"
    and p: "parse_frame [20,0,0,0, 0,0,0,0, 3,0,0,0, 1,0,0,0, 0,0, 0xFF,0xD8] = Some [0xD8]"
    by code_simp+
  show ?thesis
    using f p liveview_frame_recovered [OF f p, of "[9]"] by blast
qed

end
