(* ===== verification/Init_Packets.thy ===== *)
theory Init_Packets
  imports Vendor_Framing
begin

text \<open>
  The fixed-layout initialisation packets of \<^verbatim>\<open>crates/protocol-primitives\<close>:
  \<^verbatim>\<open>fuji_init.rs\<close> (82 bytes), \<^verbatim>\<open>legacy_app_init.rs\<close> (82 bytes) and the init and
  init-ack packets of \<^verbatim>\<open>pcss.rs\<close> (82 and 68 bytes), and the client-name normaliser of
  \<^verbatim>\<open>client_identity.rs\<close>.

  The source fills a zeroed buffer with \<^verbatim>\<open>copy_from_slice\<close> at fixed offsets;
  \<open>blit\<close> is that operation. An IPv4 address is its 32-bit value (\<^verbatim>\<open>u32::from\<close>).
\<close>

section \<open>Fixed-width name fields\<close>

definition blit :: "nat \<Rightarrow> bytes \<Rightarrow> bytes \<Rightarrow> bytes" where
  "blit offset bs w = take offset w @ bs @ drop (offset + length bs) w"

primrec blit_units :: "nat \<Rightarrow> u16 list \<Rightarrow> bytes \<Rightarrow> bytes" where
  "blit_units offset [] w = w"
| "blit_units offset (u # us) w = blit_units (offset + 2) us (blit offset (u16_le u) w)"

fun le_units :: "bytes \<Rightarrow> u16 list" where
  "le_units (a # b # bs) = word_of_nat (le_dec [a, b]) # le_units bs"
| "le_units bs = []"

definition until_nul :: "u16 list \<Rightarrow> u16 list" where
  "until_nul us = takeWhile (\<lambda>u. u \<noteq> 0) us"

section \<open>Reference-app init (fuji\_init.rs)\<close>

record AppInit =
  ai_initiator_guid :: bytes
  ai_friendly_name :: ustring

definition NAME_FIELD_BYTES :: nat where
  "NAME_FIELD_BYTES = 54"

definition MAX_NAME_UNITS :: nat where
  "MAX_NAME_UNITS = NAME_FIELD_BYTES div 2 - 1"

definition APP_INIT_BYTES :: nat where
  "APP_INIT_BYTES = 82"

definition fixed_name_field :: "ustring \<Rightarrow> FramingError + bytes" where
  "fixed_name_field name =
    (let units = encode_utf16 name in
     if 0 \<in> set name \<or> length units > MAX_NAME_UNITS
     then Inl (InitRequestError (''reference app friendly name exceeds {} UTF-16 units or contains NUL'',
                 [MAX_NAME_UNITS]))
     else Inr (blit_units 0 units (replicate NAME_FIELD_BYTES 0)))"

definition build_app_init :: "bytes \<Rightarrow> ustring \<Rightarrow> FramingError + bytes" where
  "build_app_init guid friendly_name =
    (if length guid \<noteq> 16 then Inl (GuidLength (length guid))
     else res_bind (fixed_name_field friendly_name) (\<lambda>field.
       let payload = guid @ u32_le 0 @ field in
       Inr (u32_le (word_of_nat (length payload + 8)) @ u32_le 1 @ payload)))"

definition parse_app_init :: "bytes \<Rightarrow> FramingError + AppInit" where
  "parse_app_init packet =
    (if length packet \<noteq> APP_INIT_BYTES
     then Inl (InitRequestError (''length {} != {}'', [length packet, APP_INIT_BYTES]))
     else let declared = le_dec (take 4 packet); typ = le_dec (subslice 4 8 packet) in
       if declared \<noteq> length packet
       then Inl (InitRequestError (''declared length {} != actual {}'', [declared, length packet]))
       else if typ \<noteq> 1
       then Inl (InitRequestError (''type {} is not Init_Command_Request ({})'', [typ, 1]))
       else if subslice 24 28 packet \<noteq> [0, 0, 0, 0]
       then Inl (InitRequestError (''reserved identity word is non-zero'', []))
       else case from_utf16 (until_nul (le_units (drop 28 packet))) of
              None \<Rightarrow> Inl (InitRequestError (''friendly name is not UTF-16LE'', []))
            | Some name \<Rightarrow>
                Inr \<lparr>ai_initiator_guid = subslice 8 24 packet, ai_friendly_name = name\<rparr>)"

definition validate_init_ack :: "bytes \<Rightarrow> FramingError + unit" where
  "validate_init_ack packet =
    (if length packet < 8 then Inl (InitAckError (''too short: {} bytes'', [length packet]))
     else let declared = le_dec (take 4 packet); typ = le_dec (subslice 4 8 packet) in
       if declared \<noteq> length packet
       then Inl (InitAckError (''declared length {} != actual {}'', [declared, length packet]))
       else if typ \<noteq> 2
       then Inl (InitAckError (''type {} is not Init_Command_Ack ({})'', [typ, 2]))
       else Inr ())"

section \<open>Legacy-app init (legacy\_app\_init.rs)\<close>

record LegacyAppInit =
  la_initiator_guid :: bytes
  la_client_ip :: u32
  la_friendly_name :: ustring

definition build_legacy_app_init :: "bytes \<Rightarrow> u32 \<Rightarrow> ustring \<Rightarrow> FramingError + bytes" where
  "build_legacy_app_init guid client_ip friendly_name =
    (if length guid \<noteq> 16 then Inl (GuidLength (length guid))
     else let units = encode_utf16 friendly_name in
       if 0 \<in> set friendly_name \<or> length units > 26
       then Inl (InitRequestError
             (''legacy manufacturer app friendly name exceeds 26 UTF-16 units or contains NUL'', []))
       else Inr (blit_units 28 units (blit 24 (u32_le client_ip) (blit 8 guid
             (blit 4 (u32_le 1) (blit 0 (u32_le 82) (replicate 82 0)))))))"

definition parse_legacy_app_init :: "bytes \<Rightarrow> FramingError + LegacyAppInit" where
  "parse_legacy_app_init packet =
    (if length packet \<noteq> 82
     then Inl (InitRequestError (''legacy manufacturer app length {} != {}'', [length packet, 82]))
     else let declared = le_dec (take 4 packet); packet_type = le_dec (subslice 4 8 packet) in
       if declared \<noteq> 82 then Inl (InitRequestError (''declared length {} != {}'', [declared, 82]))
       else if packet_type \<noteq> 1
       then Inl (InitRequestError (''type {} is not Init_Command_Request ({})'', [packet_type, 1]))
       else
         let name_bytes = drop 28 packet; units = le_units name_bytes;
             terminator = length (until_nul units) in
         if terminator = length units
         then Inl (InitRequestError (''friendly name is not NUL-terminated'', []))
         else if \<not> list_all (\<lambda>b. b = 0) (drop ((terminator + 1) * 2) name_bytes)
         then Inl (InitRequestError (''friendly-name tail contains nonzero bytes'', []))
         else case from_utf16 (le_units (take (terminator * 2) name_bytes)) of
                None \<Rightarrow> Inl (InitRequestError (''friendly name is not UTF-16LE'', []))
              | Some name \<Rightarrow>
                  Inr \<lparr>la_initiator_guid = subslice 8 24 packet,
                       la_client_ip = word_of_nat (le_dec (subslice 24 28 packet)),
                       la_friendly_name = name\<rparr>)"

definition validate_legacy_app_init_ack :: "bytes \<Rightarrow> bytes \<Rightarrow> FramingError + unit" where
  "validate_legacy_app_init_ack packet expected =
    (if length expected \<noteq> 16 then Inl (GuidLength (length expected))
     else if length packet \<noteq> 68
     then Inl (InitAckError (''legacy manufacturer app ack length {} != 68'', [length packet]))
     else let declared = le_dec (take 4 packet); packet_type = le_dec (subslice 4 8 packet) in
       if declared \<noteq> 68 \<or> packet_type \<noteq> 2
       then Inl (InitAckError (''legacy manufacturer app ack header length={} type={}'',
                   [declared, packet_type]))
       else if subslice 12 28 packet \<noteq> expected
       then Inl (InitAckError (''unexpected responder GUID {}'', map unat (subslice 12 28 packet)))
       else Inr ())"

section \<open>PCSS init and ack (pcss.rs)\<close>

record PcssInit =
  pi_initiator_guid :: bytes
  pi_client_ip :: u32
  pi_hostname :: ustring

datatype PcssInitError =
    PI_WrongLength nat | PI_WrongPacketType nat | PI_MissingHostnameTerminator
  | PI_InvalidHostname | PI_HostnameTooLong | PI_NonZeroTail

record PcssInitAck =
  pa_connection_number :: u32
  pa_responder_guid :: bytes
  pa_friendly_name :: ustring

datatype PcssInitAckError =
    PA_WrongLength nat | PA_WrongPacketType nat | PA_MissingFriendlyNameTerminator
  | PA_InvalidFriendlyName | PA_FriendlyNameTooLong | PA_NonZeroNameTail

definition pcss_init_message :: "bytes \<Rightarrow> u32 \<Rightarrow> ustring \<Rightarrow> PcssInitError + bytes" where
  "pcss_init_message guid client_ip hostname =
    (let units = encode_utf16 hostname; max_units = (54 - 28) div 2 - 1 in
     if 0 \<in> set units then Inl PI_InvalidHostname
     else if length units > max_units then Inl PI_HostnameTooLong
     else Inr (blit_units 28 units (blit 24 (u32_le client_ip) (blit 8 guid
            (blit 4 (u32_le 1) (blit 0 (u32_le 82) (replicate 82 0)))))))"

definition decode_fixed_utf16_name :: "bytes \<Rightarrow> PcssInitError + ustring" where
  "decode_fixed_utf16_name bs =
    (let units = le_units bs in
     if 0 \<in> set units
     then (case from_utf16 (until_nul units) of None \<Rightarrow> Inl PI_InvalidHostname | Some s \<Rightarrow> Inr s)
     else Inl PI_MissingHostnameTerminator)"

definition parse_pcss_init :: "bytes \<Rightarrow> PcssInitError + PcssInit" where
  "parse_pcss_init bs =
    (if length bs \<noteq> 82 then Inl (PI_WrongLength (length bs))
     else let declared = le_dec (take 4 bs); packet_type = le_dec (subslice 4 8 bs) in
       if declared \<noteq> 82 then Inl (PI_WrongLength declared)
       else if packet_type \<noteq> 1 then Inl (PI_WrongPacketType packet_type)
       else if \<not> list_all (\<lambda>b. b = 0) (drop 54 bs) then Inl PI_NonZeroTail
       else res_bind (decode_fixed_utf16_name (subslice 28 54 bs)) (\<lambda>hostname.
         Inr \<lparr>pi_initiator_guid = subslice 8 24 bs,
              pi_client_ip = word_of_nat (le_dec (subslice 24 28 bs)),
              pi_hostname = hostname\<rparr>))"

definition pcss_init_ack_message :: "u32 \<Rightarrow> bytes \<Rightarrow> ustring \<Rightarrow> PcssInitAckError + bytes" where
  "pcss_init_ack_message connection_number guid friendly_name =
    (let units = encode_utf16 friendly_name; max_units = (68 - 28) div 2 - 1 in
     if 0 \<in> set units then Inl PA_InvalidFriendlyName
     else if length units > max_units then Inl PA_FriendlyNameTooLong
     else Inr (blit_units 28 units (blit 12 guid (blit 8 (u32_le connection_number)
            (blit 4 (u32_le 2) (blit 0 (u32_le 68) (replicate 68 0)))))))"

definition parse_pcss_init_ack :: "bytes \<Rightarrow> PcssInitAckError + PcssInitAck" where
  "parse_pcss_init_ack bs =
    (if length bs \<noteq> 68 then Inl (PA_WrongLength (length bs))
     else let declared = le_dec (take 4 bs); packet_type = le_dec (subslice 4 8 bs) in
       if declared \<noteq> 68 then Inl (PA_WrongLength declared)
       else if packet_type \<noteq> 2 then Inl (PA_WrongPacketType packet_type)
       else
         let name_bytes = drop 28 bs; units = le_units name_bytes;
             terminator = length (until_nul units) in
         if terminator = length units then Inl PA_MissingFriendlyNameTerminator
         else if \<not> list_all (\<lambda>b. b = 0) (drop ((terminator + 1) * 2) name_bytes)
         then Inl PA_NonZeroNameTail
         else case from_utf16 (le_units (take (terminator * 2) name_bytes)) of
                None \<Rightarrow> Inl PA_InvalidFriendlyName
              | Some name \<Rightarrow>
                  Inr \<lparr>pa_connection_number = word_of_nat (le_dec (subslice 8 12 bs)),
                       pa_responder_guid = subslice 12 28 bs, pa_friendly_name = name\<rparr>)"

section \<open>Client names (client\_identity.rs)\<close>

definition is_ascii_alphanumeric :: "nat \<Rightarrow> bool" where
  "is_ascii_alphanumeric c \<longleftrightarrow> 48 \<le> c \<and> c \<le> 57 \<or> 65 \<le> c \<and> c \<le> 90 \<or> 97 \<le> c \<and> c \<le> 122"

definition to_ascii_lowercase :: "nat \<Rightarrow> nat" where
  "to_ascii_lowercase c = (if 65 \<le> c \<and> c \<le> 90 then c + 32 else c)"

text \<open>The loop over the characters: the name built so far and the pending separator.\<close>

fun join_runs :: "ustring \<Rightarrow> ustring \<Rightarrow> bool \<Rightarrow> ustring" where
  "join_runs [] joined pending_dash = joined"
| "join_runs (c # cs) joined pending_dash =
    (if is_ascii_alphanumeric c
     then join_runs cs ((if pending_dash \<and> joined \<noteq> [] then joined @ [45] else joined)
                          @ [to_ascii_lowercase c]) False
     else join_runs cs joined True)"

definition trim_dashes :: "ustring \<Rightarrow> ustring" where
  "trim_dashes s = rev (dropWhile (\<lambda>c. c = 45) (rev (dropWhile (\<lambda>c. c = 45) s)))"

definition client_fallback :: ustring where
  "client_fallback = map of_char ''client application''"

definition normalize_client_name :: "ustring \<Rightarrow> ustring" where
  "normalize_client_name raw =
    (let trimmed = trim_dashes (take 18 (join_runs raw [] False)) in
     if trimmed = [] then client_fallback else trimmed)"

section \<open>Filling a zeroed buffer\<close>

text \<open>
  Every builder writes at the boundary between what it has written and the zeroes
  that remain, so its result is a concatenation of the fields.
\<close>

lemma blit_frontier:
  "length a = offset \<Longrightarrow>
    blit offset bs (a @ replicate n 0) = (a @ bs) @ replicate (n - length bs) 0"
  by (simp add: blit_def)

lemma blit_units_frontier:
  "length a = offset \<Longrightarrow>
    blit_units offset us (a @ replicate n 0) =
      a @ concat (map u16_le us) @ replicate (n - 2 * length us) 0"
proof (induction us arbitrary: a offset n)
  case (Cons u us)
  have "blit_units offset (u # us) (a @ replicate n 0) =
    blit_units (offset + 2) us ((a @ u16_le u) @ replicate (n - 2) 0)"
    by (simp add: blit_frontier [OF Cons.prems])
  also have "\<dots> = (a @ u16_le u) @ concat (map u16_le us) @ replicate (n - 2 - 2 * length us) 0"
    using Cons.prems by (intro Cons.IH) simp
  finally show ?case
    by (simp add: diff_diff_eq)
qed simp

lemma length_units [simp]: "length (concat (map u16_le us)) = 2 * length us"
  by (induction us) simp_all

lemma u16_le_bytes: "u16_le u = [word_of_nat (unat u), word_of_nat (unat u div 256)]"
  by (simp add: u16_le_def numeral_2_eq_2)

lemma le_units_append: "le_units (concat (map u16_le us) @ bs) = us @ le_units bs"
proof (induction us)
  case (Cons u us)
  have "word_of_nat (le_dec [word_of_nat (unat u), word_of_nat (unat u div 256)]) = u"
    using le_dec_words(1) [of u] by (simp only: u16_le_bytes)
  then show ?case
    using Cons by (simp add: u16_le_bytes [of u] del: le_dec.simps)
qed simp

lemma le_units_zero: "le_units (replicate (2 * k) 0) = replicate k 0"
  by (induction k) simp_all

lemma le_units_inverse: "even (length bs) \<Longrightarrow> concat (map u16_le (le_units bs)) = bs"
  by (induction bs rule: le_units.induct) (simp_all del: le_dec.simps)

lemma length_le_units: "length (le_units bs) = length bs div 2"
  by (induction bs rule: le_units.induct) simp_all

lemma until_nul_append: "0 \<notin> set us \<Longrightarrow> until_nul (us @ 0 # vs) = us"
  by (induction us) (simp_all add: until_nul_def)

lemma until_nul_zeroes: "0 \<notin> set us \<Longrightarrow> until_nul (us @ replicate k 0) = us"
  by (cases k) (auto simp: until_nul_append, auto simp: until_nul_def takeWhile_eq_all_conv)

lemma until_nul_split:
  assumes "length (until_nul us) \<noteq> length us"
  shows "us = until_nul us @ 0 # drop (Suc (length (until_nul us))) us \<and> 0 \<notin> set (until_nul us)"
  using assms by (induction us) (auto simp: until_nul_def split: if_splits dest: set_takeWhileD)

lemma encode_utf16_nul:
  assumes "valid_str s"
  shows "0 \<in> set (encode_utf16 s) \<longleftrightarrow> 0 \<in> set s"
proof -
  have "0 \<in> set (encode_char_utf16 c) \<longleftrightarrow> c = 0" if "scalar_value c" for c
  proof (cases "c < 65536")
    case True
    then show ?thesis
      by (auto simp: encode_char_utf16_def word_unat_eq_iff unat_word_of_nat_u16)
  next
    case False
    then have "(c - 65536) div 1024 < 1024" "(c - 65536) mod 1024 < 1024"
      using that by (auto simp: scalar_value_def)
    then show ?thesis
      using False
      by (simp add: encode_char_utf16_def word_unat_eq_iff unat_word_of_nat_u16
          del: of_nat_add of_nat_numeral)
  qed
  then show ?thesis
    using assms by (auto simp: encode_utf16_def valid_str_def list_all_iff)
qed

section \<open>Round trips of the fixed packets\<close>

definition fixed_name :: "nat \<Rightarrow> ustring \<Rightarrow> bool" where
  "fixed_name n s \<longleftrightarrow> valid_str s \<and> 0 \<notin> set s \<and> length (encode_utf16 s) \<le> n"

definition init_layout :: "bytes \<Rightarrow> nat \<Rightarrow> u16 list \<Rightarrow> bytes" where
  "init_layout header n us = header @ concat (map u16_le us) @ replicate (2 * (n - length us)) 0"

lemma init_layout_name:
  assumes "0 \<notin> set us"
  shows "until_nul (le_units (drop (length h) (init_layout h n us))) = us"
    and "le_units (drop (length h) (init_layout h n us)) = us @ replicate (n - length us) 0"
  using assms by (simp_all add: init_layout_def le_units_append le_units_zero until_nul_zeroes)

lemma init_layout_length: "length us \<le> n \<Longrightarrow> length (init_layout h n us) = length h + 2 * n"
  by (simp add: init_layout_def)

lemma build_app_init_layout:
  assumes "length guid = 16" "fixed_name 26 name"
  shows "build_app_init guid name =
    Inr (init_layout (u32_le 82 @ u32_le 1 @ guid @ u32_le 0) 27 (encode_utf16 name))"
  using assms blit_units_frontier [of "[]" 0 "encode_utf16 name" 54]
  by (simp add: build_app_init_def fixed_name_field_def fixed_name_def MAX_NAME_UNITS_def
      NAME_FIELD_BYTES_def Let_def init_layout_def diff_mult_distrib2)

lemma build_legacy_layout:
  assumes "length guid = 16" "fixed_name 26 name"
  shows "build_legacy_app_init guid ip name =
    Inr (init_layout (u32_le 82 @ u32_le 1 @ guid @ u32_le ip) 27 (encode_utf16 name))"
  using assms blit_frontier [of "[]" 0 "u32_le 82" 82]
  by (simp add: build_legacy_app_init_def fixed_name_def Let_def init_layout_def diff_mult_distrib2
      blit_frontier blit_units_frontier del: append_assoc)

lemma pcss_init_layout:
  assumes "length guid = 16" "fixed_name 12 name"
  shows "pcss_init_message guid ip name =
    Inr (init_layout (u32_le 82 @ u32_le 1 @ guid @ u32_le ip) 27 (encode_utf16 name))"
  using assms blit_frontier [of "[]" 0 "u32_le 82" 82] encode_utf16_nul [of name]
  by (simp add: pcss_init_message_def fixed_name_def Let_def init_layout_def diff_mult_distrib2
      blit_frontier blit_units_frontier del: append_assoc)

lemma pcss_ack_layout:
  assumes "length guid = 16" "fixed_name 19 name"
  shows "pcss_init_ack_message n guid name =
    Inr (init_layout (u32_le 68 @ u32_le 2 @ u32_le n @ guid) 20 (encode_utf16 name))"
  using assms blit_frontier [of "[]" 0 "u32_le 68" 68] encode_utf16_nul [of name]
  by (simp add: pcss_init_ack_message_def fixed_name_def Let_def init_layout_def diff_mult_distrib2
      blit_frontier blit_units_frontier del: append_assoc)

lemma init_layout_head:
  "k \<le> length h \<Longrightarrow> take k (init_layout h n us) = take k h"
  "j \<le> length h \<Longrightarrow> subslice i j (init_layout h n us) = subslice i j h"
  by (auto simp: init_layout_def subslice_def min_def drop_append)

lemma init_layout_tail_zero:
  "length us < n \<Longrightarrow>
    list_all (\<lambda>b. b = 0) (drop ((length us + 1) * 2) (drop (length h) (init_layout h n us)))"
  by (simp add: init_layout_def list_all_iff)

lemma init_layout_prefix:
  "take (length us * 2) (drop (length h) (init_layout h n us)) = concat (map u16_le us)"
  by (simp add: init_layout_def)

text \<open>The 28-byte headers of the four packets and what their parsers read there.\<close>

definition init_header :: "u32 \<Rightarrow> bytes \<Rightarrow> u32 \<Rightarrow> bytes" where
  "init_header len guid word = u32_le len @ u32_le 1 @ guid @ u32_le word"

definition ack_header :: "u32 \<Rightarrow> bytes \<Rightarrow> bytes" where
  "ack_header n guid = u32_le 68 @ u32_le 2 @ u32_le n @ guid"

lemma init_header_fields:
  assumes "length guid = 16"
  shows "length (init_header len guid word) = 28"
    "le_dec (take 4 (init_header len guid word)) = unat len"
    "le_dec (subslice 4 8 (init_header len guid word)) = 1"
    "subslice 8 24 (init_header len guid word) = guid"
    "subslice 24 28 (init_header len guid word) = u32_le word"
  using assms by (simp_all add: init_header_def subslice_def)

lemma ack_header_fields:
  assumes "length guid = 16"
  shows "length (ack_header n guid) = 28"
    "le_dec (take 4 (ack_header n guid)) = 68"
    "le_dec (subslice 4 8 (ack_header n guid)) = 2"
    "subslice 8 12 (ack_header n guid) = u32_le n"
    "subslice 12 28 (ack_header n guid) = guid"
  using assms by (simp_all add: ack_header_def subslice_def)

lemma le_enc_zero: "le_enc n 0 = replicate n 0"
  by (induction n) simp_all

lemma u32_le_zero: "u32_le 0 = [0, 0, 0, 0]"
  by (simp add: u32_le_def le_enc_zero numeral_eq_Suc)

lemma fixed_nameD:
  assumes "fixed_name n s"
  shows "0 \<notin> set (encode_utf16 s)" "from_utf16 (encode_utf16 s) = Some s"
    "length (encode_utf16 s) \<le> n"
  using assms encode_utf16_nul from_utf16_encode_utf16 by (auto simp: fixed_name_def)

lemma app_init_law:
  assumes "length (ai_initiator_guid p) = 16" "fixed_name 26 (ai_friendly_name p)"
  shows "\<exists>bs. build_app_init (ai_initiator_guid p) (ai_friendly_name p) = Inr bs \<and>
    parse_app_init bs = Inr p"
proof -
  let ?h = "init_header 82 (ai_initiator_guid p) 0" and ?us = "encode_utf16 (ai_friendly_name p)"
  note h = init_header_fields [OF assms(1), of 82 0]
  note us = fixed_nameD [OF assms(2)]
  have "until_nul (le_units (drop 28 (init_layout ?h 27 ?us))) = ?us"
    using init_layout_name(1) [OF us(1), of ?h 27] h(1) by simp
  then have "parse_app_init (init_layout ?h 27 ?us) = Inr p"
    using us init_layout_length [of ?us 27 ?h] h
    by (simp add: parse_app_init_def APP_INIT_BYTES_def init_layout_head u32_le_zero Let_def)
  then show ?thesis
    using build_app_init_layout [OF assms] by (simp add: init_header_def)
qed

lemma legacy_init_law:
  assumes "length (la_initiator_guid p) = 16" "fixed_name 26 (la_friendly_name p)"
  shows "\<exists>bs. build_legacy_app_init (la_initiator_guid p) (la_client_ip p) (la_friendly_name p) = Inr bs \<and>
    parse_legacy_app_init bs = Inr p"
proof -
  let ?h = "init_header 82 (la_initiator_guid p) (la_client_ip p)"
    and ?us = "encode_utf16 (la_friendly_name p)"
  note h = init_header_fields [OF assms(1), of 82 "la_client_ip p"]
  note us = fixed_nameD [OF assms(2)]
  have "le_units (drop 28 (init_layout ?h 27 ?us)) = ?us @ replicate (27 - length ?us) 0"
    "take (length ?us * 2) (drop 28 (init_layout ?h 27 ?us)) = concat (map u16_le ?us)"
    "list_all (\<lambda>b. b = 0) (drop ((length ?us + 1) * 2) (drop 28 (init_layout ?h 27 ?us)))"
    using init_layout_name(2) [OF us(1), of ?h 27] init_layout_prefix [of ?us ?h 27]
      init_layout_tail_zero [of ?us 27 ?h] h(1) us(3) by auto
  then have "parse_legacy_app_init (init_layout ?h 27 ?us) = Inr p"
    using us init_layout_length [of ?us 27 ?h] h le_units_append [of ?us "[]"]
    by (simp add: parse_legacy_app_init_def init_layout_head until_nul_zeroes Let_def)
  then show ?thesis
    using build_legacy_layout [OF assms] by (simp add: init_header_def)
qed

lemma pcss_init_law:
  assumes "length (pi_initiator_guid p) = 16" "fixed_name 12 (pi_hostname p)"
  shows "\<exists>bs. pcss_init_message (pi_initiator_guid p) (pi_client_ip p) (pi_hostname p) = Inr bs \<and>
    parse_pcss_init bs = Inr p"
proof -
  let ?h = "init_header 82 (pi_initiator_guid p) (pi_client_ip p)"
    and ?us = "encode_utf16 (pi_hostname p)"
  note h = init_header_fields [OF assms(1), of 82 "pi_client_ip p"]
  note us = fixed_nameD [OF assms(2)]
  have field: "subslice 28 54 (init_layout ?h 27 ?us) =
      concat (map u16_le ?us) @ replicate (2 * (13 - length ?us)) 0"
    and tail: "list_all (\<lambda>b. b = 0) (drop 54 (init_layout ?h 27 ?us))"
    using h(1) us(3) by (simp_all add: init_layout_def subslice_def list_all_iff)
  have "decode_fixed_utf16_name (subslice 28 54 (init_layout ?h 27 ?us)) = Inr (pi_hostname p)"
    using us unfolding field decode_fixed_utf16_name_def le_units_append le_units_zero
    by (simp add: until_nul_zeroes)
  then have "parse_pcss_init (init_layout ?h 27 ?us) = Inr p"
    using tail us init_layout_length [of ?us 27 ?h] h
    by (simp add: parse_pcss_init_def init_layout_head Let_def)
  then show ?thesis
    using pcss_init_layout [OF assms] by (simp add: init_header_def)
qed

lemma pcss_ack_law:
  assumes "length (pa_responder_guid p) = 16" "fixed_name 19 (pa_friendly_name p)"
  shows "\<exists>bs. pcss_init_ack_message (pa_connection_number p) (pa_responder_guid p)
      (pa_friendly_name p) = Inr bs \<and> parse_pcss_init_ack bs = Inr p"
proof -
  let ?h = "ack_header (pa_connection_number p) (pa_responder_guid p)"
    and ?us = "encode_utf16 (pa_friendly_name p)"
  note h = ack_header_fields [OF assms(1), of "pa_connection_number p"]
  note us = fixed_nameD [OF assms(2)]
  have "le_units (drop 28 (init_layout ?h 20 ?us)) = ?us @ replicate (20 - length ?us) 0"
    "take (length ?us * 2) (drop 28 (init_layout ?h 20 ?us)) = concat (map u16_le ?us)"
    "list_all (\<lambda>b. b = 0) (drop ((length ?us + 1) * 2) (drop 28 (init_layout ?h 20 ?us)))"
    using init_layout_name(2) [OF us(1), of ?h 20] init_layout_prefix [of ?us ?h 20]
      init_layout_tail_zero [of ?us 20 ?h] h(1) us(3) by auto
  then have "parse_pcss_init_ack (init_layout ?h 20 ?us) = Inr p"
    using us init_layout_length [of ?us 20 ?h] h le_units_append [of ?us "[]"]
    by (simp add: parse_pcss_init_ack_def init_layout_head until_nul_zeroes Let_def)
  then show ?thesis
    using pcss_ack_layout [OF assms] by (simp add: ack_header_def)
qed

section \<open>Packets with a single accepted image\<close>

text \<open>
  The legacy request and the PCSS acknowledgement check every byte: the parser accepts
  only what the builder produces for the parsed value.
\<close>

lemma replicate_zero_iff: "list_all (\<lambda>b. b = (0 :: u8)) bs \<longleftrightarrow> bs = replicate (length bs) 0"
  by (induction bs) auto

lemma layout_of_name:
  fixes bs :: bytes
  defines "us \<equiv> until_nul (le_units (drop 28 bs))"
  assumes len: "length bs = 28 + 2 * n"
    and nul: "length us \<noteq> length (le_units (drop 28 bs))"
    and zero: "list_all (\<lambda>b. b = 0) (drop ((length us + 1) * 2) (drop 28 bs))"
  shows "bs = init_layout (take 28 bs) n us" "0 \<notin> set us" "length us < n"
    "take (length us * 2) (drop 28 bs) = concat (map u16_le us)"
proof -
  let ?nb = "drop 28 bs"
  obtain rest where split: "le_units ?nb = us @ 0 # rest" and nz: "0 \<notin> set us"
    using until_nul_split [OF nul [unfolded us_def]] us_def by blast
  have n: "length (le_units ?nb) = n"
    using len by (simp add: length_le_units)
  then show lt: "length us < n"
    using split by (metis add_Suc_right length_Cons length_append less_add_Suc1)
  show "0 \<notin> set us" by (rule nz)
  have "concat (map u16_le (us @ 0 # rest)) = ?nb"
    using le_units_inverse [of ?nb] len split by simp
  then have nb: "concat (map u16_le us) @ u16_le 0 @ concat (map u16_le rest) = ?nb"
    by simp
  then show prefix: "take (length us * 2) ?nb = concat (map u16_le us)"
    by (metis append_eq_conv_conj length_units mult.commute)
  have "drop ((length us + 1) * 2) ?nb = concat (map u16_le rest)"
    unfolding nb [symmetric] by (simp del: drop_drop)
  then have "list_all (\<lambda>b. b = 0) (concat (map u16_le rest))"
    using zero by simp
  then have "concat (map u16_le rest) = replicate (2 * length rest) 0"
    unfolding replicate_zero_iff length_units .
  moreover have "u16_le 0 = [0, 0]"
    by (simp add: u16_le_def le_enc_zero numeral_2_eq_2)
  moreover have "n - length us = Suc (length rest)"
    using n split by simp
  ultimately have "?nb = concat (map u16_le us) @ replicate (2 * (n - length us)) 0"
    using nb by simp
  then show "bs = init_layout (take 28 bs) n us"
    by (metis append_take_drop_id init_layout_def)
qed

lemma header_split:
  "28 \<le> length bs \<Longrightarrow>
    take 28 bs = take 4 bs @ subslice 4 8 bs @ subslice 8 24 bs @ subslice 24 28 bs"
  "28 \<le> length bs \<Longrightarrow>
    take 28 bs = take 4 bs @ subslice 4 8 bs @ subslice 8 12 bs @ subslice 12 28 bs"
  using take_add [of 4 24 bs] take_add [of 4 20 "drop 4 bs"] take_add [of 16 4 "drop 8 bs"]
    take_add [of 4 16 "drop 8 bs"]
  by (simp_all add: subslice_def)

lemma le_field: "length bs = 4 \<Longrightarrow> le_dec bs = unat w \<Longrightarrow> bs = u32_le w"
  using u32_le_dec [of bs] by (metis word_unat_inverse)

lemma fixed_name_decoded:
  assumes "from_utf16 us = Some s" "0 \<notin> set us" "length us \<le> n"
  shows "fixed_name n s" "encode_utf16 s = us"
  using from_utf16_SomeD [OF assms(1)] encode_utf16_nul [of s] assms by (auto simp: fixed_name_def)

lemma legacy_init_canonical:
  assumes "parse_legacy_app_init bs = Inr p"
  shows "build_legacy_app_init (la_initiator_guid p) (la_client_ip p) (la_friendly_name p) = Inr bs"
proof -
  let ?us = "until_nul (le_units (drop 28 bs))"
  have len: "length bs = 28 + 2 * 27" and d: "le_dec (take 4 bs) = 82" "le_dec (subslice 4 8 bs) = 1"
    and nul: "length ?us \<noteq> length (le_units (drop 28 bs))"
    and zero: "list_all (\<lambda>b. b = 0) (drop ((length ?us + 1) * 2) (drop 28 bs))"
    and name: "from_utf16 (le_units (take (length ?us * 2) (drop 28 bs))) = Some (la_friendly_name p)"
    and p: "la_initiator_guid p = subslice 8 24 bs"
      "la_client_ip p = word_of_nat (le_dec (subslice 24 28 bs))"
    using assms by (auto simp: parse_legacy_app_init_def Let_def split: if_splits option.splits)
  note lay = layout_of_name [OF len nul zero]
  have "le_units (take (length ?us * 2) (drop 28 bs)) = ?us"
    using lay(4) le_units_append [of ?us "[]"] by simp
  then have fn: "fixed_name 26 (la_friendly_name p)" "encode_utf16 (la_friendly_name p) = ?us"
    using fixed_name_decoded [of ?us "la_friendly_name p" 26] name lay(2,3) by simp_all
  have "take 28 bs = u32_le 82 @ u32_le 1 @ la_initiator_guid p @ u32_le (la_client_ip p)"
    using header_split(1) [of bs] len le_field [of "take 4 bs" 82] le_field [of "subslice 4 8 bs" 1]
      d p by simp
  moreover have "length (la_initiator_guid p) = 16"
    using p len by simp
  ultimately show ?thesis
    using build_legacy_layout [OF _ fn(1)] fn(2) lay(1) by simp
qed

lemma pcss_ack_canonical:
  assumes "parse_pcss_init_ack bs = Inr p"
  shows "pcss_init_ack_message (pa_connection_number p) (pa_responder_guid p) (pa_friendly_name p) =
    Inr bs"
proof -
  let ?us = "until_nul (le_units (drop 28 bs))"
  have len: "length bs = 28 + 2 * 20" and d: "le_dec (take 4 bs) = 68" "le_dec (subslice 4 8 bs) = 2"
    and nul: "length ?us \<noteq> length (le_units (drop 28 bs))"
    and zero: "list_all (\<lambda>b. b = 0) (drop ((length ?us + 1) * 2) (drop 28 bs))"
    and name: "from_utf16 (le_units (take (length ?us * 2) (drop 28 bs))) = Some (pa_friendly_name p)"
    and p: "pa_responder_guid p = subslice 12 28 bs"
      "pa_connection_number p = word_of_nat (le_dec (subslice 8 12 bs))"
    using assms by (auto simp: parse_pcss_init_ack_def Let_def split: if_splits option.splits)
  note lay = layout_of_name [OF len nul zero]
  have "le_units (take (length ?us * 2) (drop 28 bs)) = ?us"
    using lay(4) le_units_append [of ?us "[]"] by simp
  then have fn: "fixed_name 19 (pa_friendly_name p)" "encode_utf16 (pa_friendly_name p) = ?us"
    using fixed_name_decoded [of ?us "pa_friendly_name p" 19] name lay(2,3) by simp_all
  have "take 28 bs = u32_le 68 @ u32_le 2 @ u32_le (pa_connection_number p) @ pa_responder_guid p"
    using header_split(2) [of bs] len le_field [of "take 4 bs" 68] le_field [of "subslice 4 8 bs" 2]
      d p by simp
  moreover have "length (pa_responder_guid p) = 16"
    using p len by simp
  ultimately show ?thesis
    using pcss_ack_layout [OF _ fn(1)] fn(2) lay(1) by simp
qed

definition valid_legacy :: "LegacyAppInit \<Rightarrow> bool" where
  "valid_legacy p \<longleftrightarrow> length (la_initiator_guid p) = 16 \<and> fixed_name 26 (la_friendly_name p)"

definition valid_pcss_ack :: "PcssInitAck \<Rightarrow> bool" where
  "valid_pcss_ack p \<longleftrightarrow> length (pa_responder_guid p) = 16 \<and> fixed_name 19 (pa_friendly_name p)"

interpretation appinit: frame_codec
  "\<lambda>p. build_app_init (ai_initiator_guid p) (ai_friendly_name p)" parse_app_init
  "\<lambda>p. length (ai_initiator_guid p) = 16 \<and> fixed_name 26 (ai_friendly_name p)"
  by unfold_locales (simp add: app_init_law)

interpretation pcssinit: frame_codec
  "\<lambda>p. pcss_init_message (pi_initiator_guid p) (pi_client_ip p) (pi_hostname p)" parse_pcss_init
  "\<lambda>p. length (pi_initiator_guid p) = 16 \<and> fixed_name 12 (pi_hostname p)"
  by unfold_locales (simp add: pcss_init_law)

interpretation legacyinit: canonical_codec
  "\<lambda>p. build_legacy_app_init (la_initiator_guid p) (la_client_ip p) (la_friendly_name p)"
  parse_legacy_app_init valid_legacy "\<lambda>_. True"
  by unfold_locales (simp_all add: valid_legacy_def legacy_init_law legacy_init_canonical)

interpretation pcssack: canonical_codec
  "\<lambda>p. pcss_init_ack_message (pa_connection_number p) (pa_responder_guid p) (pa_friendly_name p)"
  parse_pcss_init_ack valid_pcss_ack "\<lambda>_. True"
  by unfold_locales (simp_all add: valid_pcss_ack_def pcss_ack_law pcss_ack_canonical)

section \<open>Normalised client names\<close>

text \<open>
  \<open>dash_joined s\<close>: lower-case alphanumeric runs joined by single dashes, possibly with
  a dash at the end; \<open>camera_name s\<close> also excludes that.
\<close>

definition name_char :: "nat \<Rightarrow> bool" where
  "name_char c \<longleftrightarrow> 48 \<le> c \<and> c \<le> 57 \<or> 97 \<le> c \<and> c \<le> 122"

definition dash_joined :: "ustring \<Rightarrow> bool" where
  "dash_joined s \<longleftrightarrow>
    (\<forall>c\<in>set s. name_char c \<or> c = 45) \<and> (s \<noteq> [] \<longrightarrow> hd s \<noteq> 45) \<and>
    successively (\<lambda>a b. \<not> (a = 45 \<and> b = 45)) s"

definition camera_name :: "ustring \<Rightarrow> bool" where
  "camera_name s \<longleftrightarrow> dash_joined s \<and> s \<noteq> [] \<and> last s \<noteq> 45 \<and> length s \<le> 18"

lemma lowercase_name_char: "is_ascii_alphanumeric c \<Longrightarrow> name_char (to_ascii_lowercase c)"
  by (auto simp: is_ascii_alphanumeric_def to_ascii_lowercase_def name_char_def)

lemma name_char_facts:
  "name_char c \<Longrightarrow> is_ascii_alphanumeric c" "name_char c \<Longrightarrow> to_ascii_lowercase c = c"
  "\<not> name_char 45" "\<not> is_ascii_alphanumeric 45"
  by (auto simp: is_ascii_alphanumeric_def to_ascii_lowercase_def name_char_def)

lemma dash_joined_snoc:
  assumes "dash_joined s" "s \<noteq> [] \<longrightarrow> last s \<noteq> 45" "name_char c"
  shows "dash_joined (s @ [c])" "s \<noteq> [] \<Longrightarrow> dash_joined (s @ [45, c])"
  using assms name_char_facts(3)
  by (auto simp: dash_joined_def successively_append_iff hd_append)

lemma join_runs_dash_joined:
  "dash_joined joined \<Longrightarrow> (joined \<noteq> [] \<longrightarrow> last joined \<noteq> 45) \<Longrightarrow>
    dash_joined (join_runs cs joined p) \<and> (join_runs cs joined p \<noteq> [] \<longrightarrow> last (join_runs cs joined p) \<noteq> 45)"
proof (induction cs joined p rule: join_runs.induct)
  case (2 c cs joined p)
  show ?case
  proof (cases "is_ascii_alphanumeric c")
    case True
    let ?c = "to_ascii_lowercase c"
    have "name_char ?c" "?c \<noteq> 45"
      using lowercase_name_char [OF True] name_char_facts(3) by auto
    then show ?thesis
      using "2.IH"(1) [OF True] "2.prems" dash_joined_snoc [OF "2.prems", of ?c] True by auto
  next
    case False
    then show ?thesis
      using "2.IH"(2) "2.prems" by simp
  qed
qed simp

lemma dash_joined_take: "dash_joined s \<Longrightarrow> dash_joined (take n s)"
proof -
  assume s: "dash_joined s"
  have "successively (\<lambda>a b. \<not> (a = 45 \<and> b = 45)) (take n s @ drop n s)"
    using s by (simp add: dash_joined_def)
  then have "successively (\<lambda>a b. \<not> (a = 45 \<and> b = 45)) (take n s)"
    unfolding successively_append_iff by blast
  then show ?thesis
    using s by (cases n) (auto simp: dash_joined_def dest: in_set_takeD)
qed

lemma trim_dashes_prefix:
  assumes "dash_joined s"
  shows "\<exists>n. trim_dashes s = take n s" "trim_dashes s \<noteq> [] \<Longrightarrow> last (trim_dashes s) \<noteq> 45"
proof -
  have "dropWhile (\<lambda>c. c = 45) s = s"
    using assms by (cases s) (auto simp: dash_joined_def)
  then have t: "trim_dashes s = rev (dropWhile (\<lambda>c. c = 45) (rev s))"
    by (simp add: trim_dashes_def)
  show "\<exists>n. trim_dashes s = take n s"
    unfolding t dropWhile_eq_drop by (simp add: rev_drop) blast
  assume "trim_dashes s \<noteq> []"
  then show "last (trim_dashes s) \<noteq> 45"
    using hd_dropWhile [of "\<lambda>c. c = 45" "rev s"] by (simp add: t last_rev)
qed

lemma normalize_camera_name:
  "normalize_client_name raw = client_fallback \<or> camera_name (normalize_client_name raw)"
proof -
  let ?s = "take 18 (join_runs raw [] False)"
  have s: "dash_joined ?s"
    using join_runs_dash_joined [of "[]" raw False] by (intro dash_joined_take) (simp add: dash_joined_def)
  obtain n where n: "trim_dashes ?s = take n ?s"
    using trim_dashes_prefix(1) [OF s] by blast
  have "dash_joined (trim_dashes ?s)" "length (trim_dashes ?s) \<le> 18"
    unfolding n using dash_joined_take [OF s] by (simp_all add: min_def)
  then show ?thesis
    using trim_dashes_prefix(2) [OF s] by (auto simp: normalize_client_name_def camera_name_def Let_def)
qed

lemma join_runs_fixed:
  assumes "\<forall>c\<in>set s. name_char c \<or> c = 45" "successively (\<lambda>a b. \<not> (a = 45 \<and> b = 45)) s"
    "s \<noteq> [] \<Longrightarrow> last s \<noteq> 45" "s \<noteq> [] \<Longrightarrow> hd s \<noteq> 45 \<or> joined \<noteq> []"
    "p \<Longrightarrow> s \<noteq> [] \<and> hd s \<noteq> 45 \<and> joined \<noteq> []"
  shows "join_runs s joined p = joined @ (if p then [45] else []) @ s"
  using assms
proof (induction s arbitrary: joined p)
  case (Cons c cs)
  show ?case
  proof (cases "c = 45")
    case True
    then have "cs \<noteq> []" "hd cs \<noteq> 45" "\<not> p" "joined \<noteq> []"
      using Cons.prems by (auto simp: successively_Cons)
    then show ?thesis
      using Cons.prems True by (simp add: name_char_facts successively_Cons Cons.IH)
  next
    case False
    then have "name_char c"
      using Cons.prems(1) by simp
    moreover have "join_runs cs J False = J @ cs" if "J \<noteq> []" for J
      using Cons.IH [of J False] Cons.prems(1-3) that
      by (cases "cs = []") (auto simp: successively_Cons)
    ultimately show ?thesis
      using Cons.prems(5) by (auto simp: name_char_facts)
  qed
qed auto

lemma dropWhile_hd: "xs \<noteq> [] \<Longrightarrow> \<not> P (hd xs) \<Longrightarrow> dropWhile P xs = xs"
  by (cases xs) simp_all

lemma normalize_fixed:
  assumes "camera_name s"
  shows "normalize_client_name s = s"
proof -
  have "join_runs s [] False = s"
    using join_runs_fixed [of s "[]" False] assms by (auto simp: camera_name_def dash_joined_def)
  moreover have "trim_dashes s = s"
    using assms dropWhile_hd [of s "\<lambda>c. c = 45"] dropWhile_hd [of "rev s" "\<lambda>c. c = 45"]
    by (simp add: trim_dashes_def camera_name_def dash_joined_def hd_rev)
  ultimately show ?thesis
    using assms by (simp add: normalize_client_name_def camera_name_def)
qed

section \<open>Properties\<close>

text \<open>C27: the legacy request and the PCSS acknowledgement are in bijection with their values: a valid
  value is built and parsed back, and a parser accepts no packet other than the one the
  builder makes for the value it returns.\<close>
theorem fixed_init_exact:
  assumes "valid_legacy p" "valid_pcss_ack q"
  shows "(\<exists>bs. build_legacy_app_init (la_initiator_guid p) (la_client_ip p) (la_friendly_name p) = Inr bs \<and>
      parse_legacy_app_init bs = Inr p \<and> (\<forall>cs. parse_legacy_app_init cs = Inr p \<longrightarrow> cs = bs)) \<and>
    (\<exists>bs. pcss_init_ack_message (pa_connection_number q) (pa_responder_guid q) (pa_friendly_name q) = Inr bs \<and>
      parse_pcss_init_ack bs = Inr q \<and> (\<forall>cs. parse_pcss_init_ack cs = Inr q \<longrightarrow> cs = bs))"
  using legacyinit.frame_law [OF assms(1)] pcssack.frame_law [OF assms(2)]
    legacyinit.one_accepted_image pcssack.one_accepted_image by blast

theorem fixed_init_exact_witness:
  "\<exists>p q. p = \<lparr>la_initiator_guid = replicate 16 1, la_client_ip = 0xC0A80001, la_friendly_name = [72, 105]\<rparr> \<and>
    q = \<lparr>pa_connection_number = 1, pa_responder_guid = replicate 16 2, pa_friendly_name = [71]\<rparr> \<and>
    valid_legacy p \<and> valid_pcss_ack q \<and>
    (\<exists>bs. build_legacy_app_init (la_initiator_guid p) (la_client_ip p) (la_friendly_name p) = Inr bs \<and>
      parse_legacy_app_init bs = Inr p) \<and>
    (\<exists>bs. pcss_init_ack_message (pa_connection_number q) (pa_responder_guid q) (pa_friendly_name q) = Inr bs \<and>
      parse_pcss_init_ack bs = Inr q)"
proof -
  let ?p = "\<lparr>la_initiator_guid = replicate 16 1, la_client_ip = 0xC0A80001, la_friendly_name = [72, 105]\<rparr>"
  let ?q = "\<lparr>pa_connection_number = 1, pa_responder_guid = replicate 16 2, pa_friendly_name = [71]\<rparr>"
  have p: "valid_legacy ?p" and q: "valid_pcss_ack ?q"
    by (simp_all add: valid_legacy_def valid_pcss_ack_def fixed_name_def valid_str_def scalar_value_def
        encode_utf16_def encode_char_utf16_def)
  show ?thesis
    using p q fixed_init_exact [OF p q] by blast
qed

text \<open>A normalised client name is never empty and at most 18 characters long; it is either the
  fallback or lower-case alphanumeric runs joined by single dashes without a dash at either
  end, and in the second case normalising it again changes nothing.\<close>
theorem client_name_normal_form:
  "normalize_client_name raw \<noteq> [] \<and> length (normalize_client_name raw) \<le> 18 \<and>
   (normalize_client_name raw = client_fallback \<or>
     camera_name (normalize_client_name raw) \<and>
     normalize_client_name (normalize_client_name raw) = normalize_client_name raw)"
proof -
  have "client_fallback \<noteq> []" "length client_fallback \<le> 18"
    by (simp_all add: client_fallback_def)
  then show ?thesis
    using normalize_camera_name [of raw] normalize_fixed [of "normalize_client_name raw"]
    by (auto simp: camera_name_def)
qed

end
