(* ===== verification/Chunk_Frame.thy ===== *)
theory Chunk_Frame
  imports Prelude
begin

text \<open>
  Chunked transfers with a source-wide checksum, \<^verbatim>\<open>crates/protocol-primitives/src/chunk_frame.rs\<close>:
  the window encoder \<open>encode_window\<close> and the incremental validator \<open>SourceSum16Decoder\<close>.

  The header encoder is a closure argument in the source and an argument here. The
  validator grows a vector with \<^verbatim>\<open>try_reserve_exact\<close>; whether the allocator can
  provide room for \<open>n\<close> bytes is the argument \<open>reserve\<close>. Indices and lengths are
  naturals: \<^verbatim>\<open>u64\<close> and \<^verbatim>\<open>usize\<close> have the same range on the supported targets, and no sum
  in this code exceeds the length of a buffer plus eight.
\<close>

definition MAX_CHUNK_WINDOWS :: nat where
  "MAX_CHUNK_WINDOWS = 4096"

definition SENTINEL :: nat where
  "SENTINEL = 65535"

datatype ChunkChecksum = SourceSum16Le

datatype Direction = Backup | Restore

datatype ChunkError =
    EmptySource | Layout | Index | Limit | HeaderEncoding | ShortFrame | ShortBody
  | TruncatedBody | WindowLength | Sequence | Checksum | Trailer | AfterSentinel
  | MissingSentinel | Size

definition source_sum16 :: "bytes \<Rightarrow> u16" where
  "source_sum16 source = foldl (\<lambda>sum byte. sum + ucast byte) 0 source"

definition window_in_layout :: "nat \<Rightarrow> bool" where
  "window_in_layout sz \<longleftrightarrow> 2 \<le> sz \<and> sz \<le> u32_max - 2"

definition encode_window ::
  "bytes \<Rightarrow> nat \<Rightarrow> nat \<Rightarrow> nat \<Rightarrow> ChunkChecksum option \<Rightarrow> (nat \<Rightarrow> nat \<Rightarrow> bytes option) \<Rightarrow>
    ChunkError + bytes" where
  "encode_window source sz0 index sentinel checksum header =
    (if checksum \<noteq> None \<and> (\<not> window_in_layout sz0 \<or> sentinel \<noteq> SENTINEL) then Inl Layout
     else if source = [] \<and> checksum \<noteq> None then Inl EmptySource
     else
       let sz = max sz0 1; full = (length source - 1) div sz in
       if full \<ge> MAX_CHUNK_WINDOWS then Inl Limit
       else
         let final_window = (index = sentinel); ordinal = (if final_window then full else index) in
         if \<not> final_window \<and> ordinal \<ge> full then Inl Index
         else
           let offset = ordinal * sz;
               fin = min (offset + sz) (length source);
               payload = subslice offset fin source;
               sum = (if checksum \<noteq> None \<and> final_window then source_sum16 source else 0);
               declared = length payload + (if checksum \<noteq> None \<and> final_window then 2 else 0)
           in case header index declared of
                None \<Rightarrow> Inl HeaderEncoding
              | Some frame \<Rightarrow>
                  if checksum = None then Inr (frame @ payload)
                  else if index > 65535 \<or> declared > u32_max
                          \<or> frame \<noteq> u16_le (word_of_nat index) @ u32_le (word_of_nat declared)
                       then Inl Layout
                  else Inr (frame @ payload @ (if final_window then u16_le sum else []) @ u16_le sum))"

record SourceSum16Decoder =
  dec_direction :: Direction
  dec_window :: nat
  dec_max_source_size :: nat
  dec_expected_size :: "nat option"
  dec_source :: bytes
  dec_sum :: u16
  dec_windows :: nat
  dec_final_seen :: bool

definition decoder_new :: "Direction \<Rightarrow> nat \<Rightarrow> nat \<Rightarrow> nat option \<Rightarrow> ChunkError + SourceSum16Decoder" where
  "decoder_new direction window max_source_size expected_size =
    (if \<not> window_in_layout window then Inl Layout
     else if (case expected_size of None \<Rightarrow> False | Some sz \<Rightarrow> sz > max_source_size) then Inl Limit
     else Inr \<lparr>dec_direction = direction, dec_window = window, dec_max_source_size = max_source_size,
               dec_expected_size = expected_size, dec_source = [], dec_sum = 0, dec_windows = 0,
               dec_final_seen = False\<rparr>)"

definition push ::
  "(nat \<Rightarrow> bool) \<Rightarrow> bytes \<Rightarrow> SourceSum16Decoder \<Rightarrow> (ChunkError + unit) \<times> SourceSum16Decoder" where
  "push reserve raw d =
    (if dec_final_seen d then (Inl AfterSentinel, d)
     else if dec_windows d \<ge> MAX_CHUNK_WINDOWS then (Inl Limit, d)
     else if length raw < 8 then (Inl ShortFrame, d)
     else
       let index = le_dec (take 2 raw); declared = le_dec (subslice 2 6 raw) in
       if declared < 2 then (Inl ShortBody, d)
       else if length raw < declared + 6 then (Inl TruncatedBody, d)
       else
         let fin = declared + 6; body = subslice 6 fin raw; final_window = (index = SENTINEL) in
         if \<not> final_window \<and> index \<noteq> dec_windows d then (Inl Sequence, d)
         else
           let payload = (if final_window then take (length body - 2) body else body);
               observed = (if final_window then word_of_nat (le_dec (drop (length body - 2) body)) else 0)
           in
           if length payload > dec_window d \<or> \<not> final_window \<and> length payload \<noteq> dec_window d
           then (Inl WindowLength, d)
           else
             let sz = length (dec_source d) + length payload;
                 sum = dec_sum d + source_sum16 payload in
             if sz > dec_max_source_size d then (Inl Limit, d)
             else if final_window \<and> sum \<noteq> observed then (Inl Checksum, d)
             else if dec_direction d = Restore \<and> drop fin raw \<noteq> u16_le observed then (Inl Trailer, d)
             else if payload = [] then (Inl EmptySource, d)
             else if (case dec_expected_size d of None \<Rightarrow> False
                      | Some expected \<Rightarrow> sz > expected \<or> final_window \<and> sz \<noteq> expected)
                  then (Inl Size, d)
             else if \<not> reserve sz then (Inl Limit, d)
             else (Inr (), d\<lparr>dec_source := dec_source d @ payload, dec_sum := sum,
                             dec_windows := dec_windows d + 1, dec_final_seen := final_window\<rparr>))"

definition decoder_finish :: "SourceSum16Decoder \<Rightarrow> ChunkError + bytes" where
  "decoder_finish d = (if \<not> dec_final_seen d then Inl MissingSentinel else Inr (dec_source d))"

text \<open>A run of the validator over a list of frames that stops at the first error.\<close>

fun push_all :: "(nat \<Rightarrow> bool) \<Rightarrow> bytes list \<Rightarrow> SourceSum16Decoder \<Rightarrow> ChunkError + SourceSum16Decoder" where
  "push_all reserve [] d = Inr d"
| "push_all reserve (raw # raws) d =
    (case push reserve raw d of (Inl e, d') \<Rightarrow> Inl e | (Inr _, d') \<Rightarrow> push_all reserve raws d')"

section \<open>The validator's invariant\<close>

text \<open>
  What the accepted part of a transfer looks like: the running sum is the sum of the
  accepted bytes, every accepted window but a final one is full, and the size limits hold.
\<close>

definition decoder_inv :: "SourceSum16Decoder \<Rightarrow> bool" where
  "decoder_inv d \<longleftrightarrow>
    window_in_layout (dec_window d) \<and>
    dec_sum d = source_sum16 (dec_source d) \<and>
    length (dec_source d) \<le> dec_max_source_size d \<and>
    dec_windows d \<le> MAX_CHUNK_WINDOWS \<and>
    (\<not> dec_final_seen d \<longrightarrow> length (dec_source d) = dec_windows d * dec_window d) \<and>
    (dec_final_seen d \<longrightarrow>
       (dec_windows d - 1) * dec_window d < length (dec_source d) \<and>
       length (dec_source d) \<le> dec_windows d * dec_window d) \<and>
    (case dec_expected_size d of None \<Rightarrow> True
     | Some n \<Rightarrow> length (dec_source d) \<le> n \<and> (dec_final_seen d \<longrightarrow> length (dec_source d) = n))"

lemma foldl_sum16: "foldl (\<lambda>sum (byte::u8). sum + ucast byte) (s::u16) xs =
    s + foldl (\<lambda>sum byte. sum + ucast byte) 0 xs"
  by (induction xs rule: rev_induct) (simp_all add: add.assoc)

lemma source_sum16_append: "source_sum16 (xs @ ys) = source_sum16 xs + source_sum16 ys"
  unfolding source_sum16_def by (simp add: foldl_sum16 [of "foldl _ 0 xs"])

lemma source_sum16_Nil [simp]: "source_sum16 [] = 0"
  by (simp add: source_sum16_def)

lemma push_error_unchanged: "push reserve raw d = (Inl e, d') \<Longrightarrow> d' = d"
  by (simp add: push_def Let_def split: if_splits)

lemma decoder_new_inv: "decoder_new dir w m ex = Inr d \<Longrightarrow> decoder_inv d"
  by (auto simp: decoder_new_def decoder_inv_def split: if_splits option.splits)

text \<open>The facts an accepted push establishes, as an elimination rule.\<close>

lemma push_okE:
  assumes "push reserve raw d = (Inr (), d')"
  obtains payload final_window where
    "\<not> dec_final_seen d" "dec_windows d < MAX_CHUNK_WINDOWS" "payload \<noteq> []"
    "length payload \<le> dec_window d" "\<not> final_window \<Longrightarrow> length payload = dec_window d"
    "length (dec_source d @ payload) \<le> dec_max_source_size d"
    "case dec_expected_size d of None \<Rightarrow> True
     | Some n \<Rightarrow> length (dec_source d @ payload) \<le> n \<and>
         (final_window \<longrightarrow> length (dec_source d @ payload) = n)"
    "d' = d\<lparr>dec_source := dec_source d @ payload, dec_sum := dec_sum d + source_sum16 payload,
            dec_windows := dec_windows d + 1, dec_final_seen := final_window\<rparr>"
proof -
  define fw where "fw = (le_dec (take 2 raw) = SENTINEL)"
  define body where "body = subslice 6 (le_dec (subslice 2 6 raw) + 6) raw"
  define payload where "payload = (if fw then take (length body - 2) body else body)"
  have 1: "\<not> dec_final_seen d" "dec_windows d < MAX_CHUNK_WINDOWS" "payload \<noteq> []"
    "length payload \<le> dec_window d" "\<not> fw \<Longrightarrow> length payload = dec_window d"
    "length (dec_source d @ payload) \<le> dec_max_source_size d"
    and 2: "case dec_expected_size d of None \<Rightarrow> True
     | Some n \<Rightarrow> length (dec_source d @ payload) \<le> n \<and>
         (fw \<longrightarrow> length (dec_source d @ payload) = n)"
    and 3: "d' = d\<lparr>dec_source := dec_source d @ payload, dec_sum := dec_sum d + source_sum16 payload,
            dec_windows := dec_windows d + 1, dec_final_seen := fw\<rparr>"
    using assms unfolding push_def Let_def body_def [symmetric] fw_def [symmetric]
      payload_def [symmetric]
    by (auto simp: not_le not_less split: if_splits option.splits)
  show thesis
    by (rule that [OF 1 2 3])
qed

lemma push_preserves_inv:
  assumes "push reserve raw d = (r, d')" "decoder_inv d"
  shows "decoder_inv d'"
proof (cases r)
  case (Inl e)
  then show ?thesis
    using push_error_unchanged [of reserve raw d e d'] assms by simp
next
  case (Inr u)
  then have ok: "push reserve raw d = (Inr (), d')"
    using assms(1) by simp
  show ?thesis
    by (rule push_okE [OF ok])
      (use assms(2) in \<open>auto simp: decoder_inv_def source_sum16_append split: option.splits\<close>)
qed

lemma push_all_preserves_inv:
  "push_all reserve raws d = Inr d' \<Longrightarrow> decoder_inv d \<Longrightarrow> decoder_inv d'"
  by (induction raws arbitrary: d) (auto split: prod.splits sum.splits dest: push_preserves_inv)

section \<open>Encoder and validator agree\<close>

text \<open>
  The fixed header layout of checksummed transfers, the number of full windows before
  the final one, and the frames of a whole transfer in the order they are sent.
\<close>

definition std_header :: "nat \<Rightarrow> nat \<Rightarrow> bytes option" where
  "std_header index declared = Some (u16_le (word_of_nat index) @ u32_le (word_of_nat declared))"

definition full_windows :: "bytes \<Rightarrow> nat \<Rightarrow> nat" where
  "full_windows source w = (length source - 1) div w"

definition transfer_frames :: "bytes \<Rightarrow> nat \<Rightarrow> (ChunkError + bytes) list" where
  "transfer_frames source w =
    map (\<lambda>i. encode_window source w i SENTINEL (Some SourceSum16Le) std_header)
      ([0..<full_windows source w] @ [SENTINEL])"

definition transferable :: "bytes \<Rightarrow> nat \<Rightarrow> bool" where
  "transferable source w \<longleftrightarrow>
    source \<noteq> [] \<and> window_in_layout w \<and> full_windows source w < MAX_CHUNK_WINDOWS"

definition ordinary_frame :: "bytes \<Rightarrow> nat \<Rightarrow> nat \<Rightarrow> bytes" where
  "ordinary_frame source w i =
    u16_le (word_of_nat i) @ u32_le (word_of_nat w) @ take w (drop (i * w) source) @ u16_le 0"

definition final_frame :: "bytes \<Rightarrow> nat \<Rightarrow> bytes" where
  "final_frame source w =
    (let tail = drop (full_windows source w * w) source in
     u16_le (word_of_nat SENTINEL) @ u32_le (word_of_nat (length tail + 2)) @ tail @
     u16_le (source_sum16 source) @ u16_le (source_sum16 source))"

lemma full_windows_eq: "(length source - Suc 0) div w = full_windows source w"
  by (simp add: full_windows_def)

lemma full_windows_bounds:
  assumes "transferable source w"
  shows "full_windows source w * w < length source"
    "length source \<le> full_windows source w * w + w"
    "i < full_windows source w \<Longrightarrow> i * w + w < length source"
proof -
  have w: "0 < w" and len: "0 < length source"
    using assms by (auto simp: transferable_def window_in_layout_def)
  have "full_windows source w * w \<le> length source - 1"
    by (simp add: full_windows_def)
  then show less: "full_windows source w * w < length source"
    using len by linarith
  have "length source - 1 < full_windows source w * w + w"
    using w dividend_less_div_times [of w "length source - 1"] by (simp add: full_windows_def add.commute)
  then show "length source \<le> full_windows source w * w + w"
    by linarith
  assume "i < full_windows source w"
  then have "Suc i * w \<le> full_windows source w * w"
    by (intro mult_le_mono1) simp
  then show "i * w + w < length source"
    using less by simp
qed

lemma encode_ordinary:
  assumes "transferable source w" "i < full_windows source w"
  shows "encode_window source w i SENTINEL (Some SourceSum16Le) std_header =
    Inr (ordinary_frame source w i)"
proof -
  have "i < 4096" "window_in_layout w" "source \<noteq> []"
    using assms by (auto simp: transferable_def MAX_CHUNK_WINDOWS_def)
  moreover from this have "max w 1 = w" "w \<le> 4294967293"
    by (auto simp: window_in_layout_def)
  moreover note full_windows_bounds(3) [OF assms]
  ultimately show ?thesis
    using assms
    by (simp add: encode_window_def Let_def std_header_def ordinary_frame_def SENTINEL_def
        transferable_def full_windows_eq subslice_def
        del: of_nat_add of_nat_mult of_nat_diff of_nat_numeral)
qed

lemma encode_final:
  assumes "transferable source w"
  shows "encode_window source w SENTINEL SENTINEL (Some SourceSum16Le) std_header =
    Inr (final_frame source w)"
proof -
  have "window_in_layout w" "source \<noteq> []"
    using assms by (auto simp: transferable_def)
  moreover from this have "max w 1 = w" "w \<le> 4294967293"
    by (auto simp: window_in_layout_def)
  moreover note full_windows_bounds(1,2) [OF assms]
  ultimately show ?thesis
    using assms
    by (simp add: encode_window_def Let_def std_header_def final_frame_def SENTINEL_def
        transferable_def full_windows_eq subslice_def
        del: of_nat_add of_nat_mult of_nat_diff of_nat_numeral)
qed

lemma transfer_frames_ok:
  assumes "transferable source w"
  shows "transfer_frames source w =
    map Inr (map (ordinary_frame source w) [0..<full_windows source w] @ [final_frame source w])"
  using assms by (simp add: transfer_frames_def encode_ordinary encode_final)

lemma frame_fields:
  assumes "length body = unat n"
  shows "le_dec (take 2 (u16_le i @ u32_le n @ body @ tail)) = unat i"
    "le_dec (subslice 2 6 (u16_le i @ u32_le n @ body @ tail)) = unat n"
    "subslice 6 (unat n + 6) (u16_le i @ u32_le n @ body @ tail) = body"
    "drop (unat n + 6) (u16_le i @ u32_le n @ body @ tail) = tail"
    "length (u16_le i @ u32_le n @ body @ tail) = 6 + unat n + length tail"
  using assms by (simp_all add: subslice_def)

definition decoder_at :: "SourceSum16Decoder \<Rightarrow> bytes \<Rightarrow> nat \<Rightarrow> SourceSum16Decoder" where
  "decoder_at d source i =
    d\<lparr>dec_source := take (i * dec_window d) source,
      dec_sum := source_sum16 (take (i * dec_window d) source),
      dec_windows := i, dec_final_seen := False\<rparr>"

definition accepts_size :: "SourceSum16Decoder \<Rightarrow> nat \<Rightarrow> bool" where
  "accepts_size d n \<longleftrightarrow> n \<le> dec_max_source_size d \<and>
    (case dec_expected_size d of None \<Rightarrow> True | Some m \<Rightarrow> m = n)"

lemma push_ordinary:
  assumes "transferable source (dec_window d)" "i < full_windows source (dec_window d)"
    "accepts_size d (length source)" "\<And>n. n \<le> length source \<Longrightarrow> reserve n"
  shows "push reserve (ordinary_frame source (dec_window d) i) (decoder_at d source i) =
    (Inr (), decoder_at d source (Suc i))"
proof -
  let ?w = "dec_window d"
  let ?body = "take ?w (drop (i * ?w) source)"
  have i: "i < 4096" and w: "2 \<le> ?w" "?w \<le> 4294967293"
    using assms(1,2) by (auto simp: transferable_def MAX_CHUNK_WINDOWS_def window_in_layout_def)
  note b = full_windows_bounds(3) [OF assms(1,2)]
  have un: "unat (word_of_nat i :: u16) = i" "unat (word_of_nat ?w :: u32) = ?w"
    using i w by (simp_all add: unat_of_nat)
  have lb: "length ?body = unat (word_of_nat ?w :: u32)"
    using b un by simp
  have "take (i * ?w) source @ ?body = take (Suc i * ?w) source"
    by (simp only: mult_Suc add.commute [of ?w] take_add)
  then show ?thesis
    using frame_fields [OF lb, of "word_of_nat i" "u16_le 0"] un i w b assms(3) assms(4)
    by (simp add: push_def Let_def ordinary_frame_def decoder_at_def SENTINEL_def
        MAX_CHUNK_WINDOWS_def accepts_size_def source_sum16_append [symmetric] split: option.splits)
qed

lemma push_final:
  assumes "transferable source (dec_window d)" "accepts_size d (length source)"
    "\<And>n. n \<le> length source \<Longrightarrow> reserve n"
  shows "push reserve (final_frame source (dec_window d))
      (decoder_at d source (full_windows source (dec_window d))) =
    (Inr (), (decoder_at d source (Suc (full_windows source (dec_window d))))
       \<lparr>dec_source := source, dec_sum := source_sum16 source, dec_final_seen := True\<rparr>)"
proof -
  let ?w = "dec_window d" and ?k = "full_windows source (dec_window d)"
  define tail where "tail = drop (?k * ?w) source"
  define n where "n = (word_of_nat (length tail + 2) :: u32)"
  let ?sum = "u16_le (source_sum16 source)"
  have k: "?k < 4096" and w: "2 \<le> ?w" "?w \<le> 4294967293"
    using assms(1) by (auto simp: transferable_def MAX_CHUNK_WINDOWS_def window_in_layout_def)
  note b = full_windows_bounds(1,2) [OF assms(1)]
  have tail: "0 < length tail" "length tail \<le> ?w" "?k * ?w + length tail = length source"
    using b by (auto simp: tail_def)
  have un: "unat n = length tail + 2"
    unfolding n_def by (rule unat_of_nat_fits) (use tail(2) w(2) in simp)
  have lb: "length (tail @ ?sum) = unat n"
    by (simp add: un)
  have raw: "final_frame source ?w = u16_le 65535 @ u32_le n @ (tail @ ?sum) @ ?sum"
    by (simp add: final_frame_def Let_def tail_def n_def SENTINEL_def)
  have app: "take (?k * ?w) source @ tail = source"
    by (simp add: tail_def)
  then have sum: "source_sum16 (take (?k * ?w) source) + source_sum16 tail = source_sum16 source"
    by (metis source_sum16_append)
  show ?thesis
    unfolding raw
    using frame_fields [OF lb, of 65535 ?sum] un k w tail b app sum assms(2,3)
    by (simp add: push_def Let_def decoder_at_def SENTINEL_def MAX_CHUNK_WINDOWS_def
        accepts_size_def split: option.splits)
qed

lemma push_all_append:
  "push_all reserve (xs @ ys) d = res_bind (push_all reserve xs d) (push_all reserve ys)"
  by (induction xs arbitrary: d) (simp_all split: prod.splits sum.splits)

lemma push_all_ordinary:
  assumes "transferable source (dec_window d)" "accepts_size d (length source)"
    "\<And>n. n \<le> length source \<Longrightarrow> reserve n" "k \<le> full_windows source (dec_window d)"
  shows "push_all reserve (map (ordinary_frame source (dec_window d)) [0..<k]) (decoder_at d source 0) =
    Inr (decoder_at d source k)"
  using assms(4)
proof (induction k)
  case (Suc k)
  then show ?case
    using push_ordinary [OF assms(1) _ assms(2,3), of k] by (simp add: push_all_append)
qed simp

lemma decoder_new_at:
  "decoder_new dir w m ex = Inr d \<Longrightarrow> decoder_at d source 0 = d \<and> dec_window d = w"
  by (auto simp: decoder_new_def decoder_at_def split: if_splits)

lemma transfer_accepted:
  assumes "transferable source w" "decoder_new dir w m ex = Inr d"
    "accepts_size d (length source)" "\<And>n. n \<le> length source \<Longrightarrow> reserve n"
  shows "\<exists>frames. transfer_frames source w = map Inr frames \<and>
    res_bind (push_all reserve frames d) decoder_finish = Inr source"
proof (intro exI conjI)
  have d: "decoder_at d source 0 = d" "dec_window d = w"
    using decoder_new_at [OF assms(2)] by simp_all
  let ?k = "full_windows source w"
  have "push_all reserve (map (ordinary_frame source w) [0..<?k]) d = Inr (decoder_at d source ?k)"
    using push_all_ordinary [of source d reserve ?k] assms d by simp
  then show "res_bind (push_all reserve
      (map (ordinary_frame source w) [0..<?k] @ [final_frame source w]) d) decoder_finish = Inr source"
    using push_final [of source d reserve] assms d
    by (simp add: push_all_append decoder_finish_def)
qed (rule transfer_frames_ok [OF assms(1)])

section \<open>Properties\<close>

text \<open>C19: a chunked transfer is lossless. For a non-empty source of at most 4096 windows, every window
  encodes, and a validator whose limits admit the source accepts the frames in order and
  returns the source.\<close>
theorem chunk_transfer_lossless:
  assumes "transferable source w" "decoder_new dir w m ex = Inr d"
    and "accepts_size d (length source)" "\<forall>n\<le>length source. reserve n"
  shows "\<exists>frames. transfer_frames source w = map Inr frames \<and>
    res_bind (push_all reserve frames d) decoder_finish = Inr source"
  using transfer_accepted [OF assms(1-3), of reserve] assms(4) by blast

theorem chunk_transfer_lossless_witness:
  "\<exists>d. transferable [1, 2, 3, 4, 5] 2 \<and> decoder_new Restore 2 100 (Some 5) = Inr d \<and>
     accepts_size d (length [1, 2, 3, 4, 5 :: u8]) \<and>
     (\<exists>frames. transfer_frames [1, 2, 3, 4, 5] 2 = map Inr frames \<and>
        res_bind (push_all (\<lambda>n. n \<le> 100) frames d) decoder_finish = Inr [1, 2, 3, 4, 5])"
proof -
  obtain d where d: "decoder_new Restore 2 100 (Some 5) = Inr d"
    and sz: "accepts_size d (length [1, 2, 3, 4, 5 :: u8])"
    by (simp add: decoder_new_def window_in_layout_def accepts_size_def)
  have t: "transferable [1, 2, 3, 4, 5] 2"
    by code_simp
  have r: "\<forall>n\<le>length [1, 2, 3, 4, 5 :: u8]. (\<lambda>n. n \<le> 100) n"
    by simp
  show ?thesis
    by (rule exI [of _ d]) (intro conjI t d sz chunk_transfer_lossless [OF t d sz r])
qed



text \<open>A rejected frame leaves the validator exactly as it was, whatever the reason.\<close>
theorem chunk_reject_keeps_state:
  assumes "push reserve raw d = (Inl e, d')"
  shows "d' = d"
  using assms by (rule push_error_unchanged)

theorem chunk_reject_keeps_state_witness:
  "\<exists>d. d = \<lparr>dec_direction = Backup, dec_window = 2, dec_max_source_size = 100, dec_expected_size = None,
      dec_source = [9], dec_sum = 9, dec_windows = 1, dec_final_seen = True\<rparr> \<and>
    push (\<lambda>_. True) [1, 2] d = (Inl AfterSentinel, d)"
proof -
  let ?d = "\<lparr>dec_direction = Backup, dec_window = 2, dec_max_source_size = 100, dec_expected_size = None,
      dec_source = [9], dec_sum = 9, dec_windows = 1, dec_final_seen = True\<rparr>"
  have p: "push (\<lambda>_. True) [1, 2] ?d = (Inl AfterSentinel, ?d)"
    by (simp add: push_def)
  show ?thesis
    using chunk_reject_keeps_state [OF p] p by simp
qed

end
