(* ===== verification/Rust_Text.thy ===== *)
theory Rust_Text
  imports Ptp_Datatype
begin

text \<open>
  The string operations of Rust's standard library that the simulator's control
  surface uses: the UTF-8 image of a string, \<^verbatim>\<open>std::str::from_utf8\<close>, \<^verbatim>\<open>strip_prefix\<close>,
  \<^verbatim>\<open>trim\<close>, hexadecimal formatting and \<^verbatim>\<open>from_str_radix\<close>; and on top of them the
  hexadecimal codes of manifests (\<^verbatim>\<open>crates/camera-config/src/model.rs\<close>) and of fault
  specifications (\<^verbatim>\<open>crates/camera-sim/src/fault.rs\<close>). A string is its list of Unicode
  scalar values, as in the wire theories.
\<close>

section \<open>Standard library text\<close>

definition lit :: "string \<Rightarrow> ustring" where
  "lit = map of_char"

text \<open>UTF-8 as \<^verbatim>\<open>str::as_bytes\<close> shows it, and its strict decoder.\<close>

definition utf8_char :: "nat \<Rightarrow> bytes" where
  "utf8_char c =
     (if c < 0x80 then [word_of_nat c]
      else if c < 0x800 then [word_of_nat (0xC0 + c div 64), word_of_nat (0x80 + c mod 64)]
      else if c < 0x10000 then
        [word_of_nat (0xE0 + c div 4096), word_of_nat (0x80 + c div 64 mod 64),
         word_of_nat (0x80 + c mod 64)]
      else
        [word_of_nat (0xF0 + c div 262144), word_of_nat (0x80 + c div 4096 mod 64),
         word_of_nat (0x80 + c div 64 mod 64), word_of_nat (0x80 + c mod 64)])"

definition utf8_bytes :: "ustring \<Rightarrow> bytes" where
  "utf8_bytes s = concat (map utf8_char s)"

definition continuation :: "u8 \<Rightarrow> bool" where
  "continuation b \<longleftrightarrow> 0x80 \<le> unat b \<and> unat b < 0xC0"

fun utf8_next :: "bytes \<Rightarrow> (nat \<times> bytes) option" where
  "utf8_next [] = None"
| "utf8_next (a # bs) =
     (if unat a < 0x80 then Some (unat a, bs)
      else if unat a < 0xC0 then None
      else if unat a < 0xE0 then
        (case bs of
           b # r \<Rightarrow>
             (let c = (unat a - 0xC0) * 64 + (unat b - 0x80)
              in if continuation b \<and> 0x80 \<le> c then Some (c, r) else None)
         | _ \<Rightarrow> None)
      else if unat a < 0xF0 then
        (case bs of
           b # d # r \<Rightarrow>
             (let c = (unat a - 0xE0) * 4096 + (unat b - 0x80) * 64 + (unat d - 0x80)
              in if continuation b \<and> continuation d \<and> 0x800 \<le> c \<and> scalar_value c
                 then Some (c, r) else None)
         | _ \<Rightarrow> None)
      else if unat a < 0xF8 then
        (case bs of
           b # d # e # r \<Rightarrow>
             (let c = (unat a - 0xF0) * 262144 + (unat b - 0x80) * 4096 + (unat d - 0x80) * 64
                        + (unat e - 0x80)
              in if continuation b \<and> continuation d \<and> continuation e \<and> 0x10000 \<le> c
                    \<and> scalar_value c
                 then Some (c, r) else None)
         | _ \<Rightarrow> None)
      else None)"

lemma utf8_next_shorter: "utf8_next bs = Some (c, r) \<Longrightarrow> length r < length bs"
  by (cases bs) (auto simp: Let_def split: if_splits list.splits)

function from_utf8 :: "bytes \<Rightarrow> ustring option" where
  "from_utf8 bs =
     (if bs = [] then Some []
      else case utf8_next bs of
             None \<Rightarrow> None
           | Some (c, r) \<Rightarrow> map_option (Cons c) (from_utf8 r))"
  by auto
termination
  by (relation "measure length") (auto simp: utf8_next_shorter)

declare from_utf8.simps [simp del]

definition strip_prefix :: "ustring \<Rightarrow> ustring \<Rightarrow> ustring option" where
  "strip_prefix p s = (if take (length p) s = p then Some (drop (length p) s) else None)"

definition white_space :: "nat \<Rightarrow> bool" where
  "white_space c \<longleftrightarrow> (9 \<le> c \<and> c \<le> 13) \<or> c \<in> {32, 0x85, 0xA0, 0x1680}
     \<or> (0x2000 \<le> c \<and> c \<le> 0x200A) \<or> c \<in> {0x2028, 0x2029, 0x202F, 0x205F, 0x3000}"

definition trim :: "ustring \<Rightarrow> ustring" where
  "trim s = rev (dropWhile white_space (rev (dropWhile white_space s)))"

subsection \<open>Digits and numbers\<close>

definition to_digit :: "nat \<Rightarrow> nat \<Rightarrow> nat option" where
  "to_digit radix c =
     (let d = (if 48 \<le> c \<and> c \<le> 57 then Some (c - 48)
               else if 97 \<le> c \<and> c \<le> 122 then Some (c - 87)
               else if 65 \<le> c \<and> c \<le> 90 then Some (c - 55)
               else None)
      in case d of None \<Rightarrow> None | Some v \<Rightarrow> if v < radix then Some v else None)"

datatype IntErrorKind = IE_Empty | IE_InvalidDigit | IE_PosOverflow

text \<open>
  The digit loop of \<^verbatim>\<open>from_str_radix\<close> at an unsigned type whose largest value is
  \<open>hi\<close>: the digit is checked first, then the multiplication and the addition.
\<close>

fun radix_digits :: "nat \<Rightarrow> nat \<Rightarrow> nat \<Rightarrow> ustring \<Rightarrow> IntErrorKind + nat" where
  "radix_digits radix hi acc [] = Inr acc"
| "radix_digits radix hi acc (c # cs) =
     (case to_digit radix c of
        None \<Rightarrow> Inl IE_InvalidDigit
      | Some d \<Rightarrow>
          if hi < acc * radix + d then Inl IE_PosOverflow
          else radix_digits radix hi (acc * radix + d) cs)"

definition from_str_radix :: "nat \<Rightarrow> nat \<Rightarrow> ustring \<Rightarrow> IntErrorKind + nat" where
  "from_str_radix radix hi s =
     (if s = [] then Inl IE_Empty
      else if s = lit ''+'' \<or> s = lit ''-'' then Inl IE_InvalidDigit
      else if hd s = 43 then radix_digits radix hi 0 (tl s)
      else radix_digits radix hi 0 s)"

definition hex_char :: "nat \<Rightarrow> nat" where
  "hex_char d = (if d < 10 then 48 + d else 87 + d)"

text \<open>\<^verbatim>\<open>{:0nx}\<close> for a value of at most \<open>n\<close> hexadecimal digits.\<close>

primrec fmt_hex :: "nat \<Rightarrow> nat \<Rightarrow> ustring" where
  "fmt_hex 0 v = []"
| "fmt_hex (Suc n) v = fmt_hex n (v div 16) @ [hex_char (v mod 16)]"

text \<open>\<^verbatim>\<open>{:x}\<close> and the decimal \<^verbatim>\<open>Display\<close> of integers.\<close>

fun lower_hex :: "nat \<Rightarrow> ustring" where
  "lower_hex n = (if n < 16 then [hex_char n] else lower_hex (n div 16) @ [hex_char (n mod 16)])"

fun decimal :: "nat \<Rightarrow> ustring" where
  "decimal n = (if n < 10 then [48 + n] else decimal (n div 10) @ [48 + n mod 10])"

declare lower_hex.simps [simp del] decimal.simps [simp del]

definition int_decimal :: "int \<Rightarrow> ustring" where
  "int_decimal x = (if x < 0 then lit ''-'' @ decimal (nat (- x)) else decimal (nat x))"

section \<open>Hexadecimal codes of the program\<close>

definition hex_body :: "ustring \<Rightarrow> ustring" where
  "hex_body s =
     (case strip_prefix (lit ''0x'') s of
        Some h \<Rightarrow> h
      | None \<Rightarrow> (case strip_prefix (lit ''0X'') s of Some h \<Rightarrow> h | None \<Rightarrow> s))"

definition parse_hex_code :: "ustring \<Rightarrow> u16 option" where
  "parse_hex_code s =
     (case from_str_radix 16 0xFFFF (hex_body (trim s)) of
        Inl e \<Rightarrow> None | Inr v \<Rightarrow> Some (word_of_nat v))"

definition parse_hex_u32 :: "ustring \<Rightarrow> u32 option" where
  "parse_hex_u32 s =
     (case from_str_radix 16 u32_max (hex_body (trim s)) of
        Inl e \<Rightarrow> None | Inr v \<Rightarrow> Some (word_of_nat v))"

definition is_ascii_hexdigit :: "u8 \<Rightarrow> bool" where
  "is_ascii_hexdigit b \<longleftrightarrow> to_digit 16 (unat b) \<noteq> None"

fun parse_hex_pairs :: "ustring \<Rightarrow> bytes option" where
  "parse_hex_pairs (a # b # s) =
     (case from_str_radix 16 0xFF [a, b] of
        Inl e \<Rightarrow> None
      | Inr v \<Rightarrow> map_option (Cons (word_of_nat v)) (parse_hex_pairs s))"
| "parse_hex_pairs s = Some []"

definition parse_hex_bytes :: "ustring \<Rightarrow> bytes option" where
  "parse_hex_bytes s =
     (let p = hex_body s; raw = utf8_bytes p
      in if p = [] \<or> length raw mod 2 \<noteq> 0 \<or> \<not> list_all is_ascii_hexdigit raw then None
         else parse_hex_pairs p)"

datatype HexTextError =
    HT_NotHexString
  | HT_OddLength
  | HT_NotUtf8
  | HT_Int IntErrorKind

definition hex_u16_serialize :: "u16 \<Rightarrow> ustring" where
  "hex_u16_serialize v = lit ''0x'' @ fmt_hex 4 (unat v)"

definition hex_u16_deserialize :: "ustring \<Rightarrow> HexTextError + u16" where
  "hex_u16_deserialize s =
     (case (case strip_prefix (lit ''0x'') s of
              Some h \<Rightarrow> Some h | None \<Rightarrow> strip_prefix (lit ''0X'') s) of
        None \<Rightarrow> Inl HT_NotHexString
      | Some digits \<Rightarrow>
          if digits = [] \<or> 4 < length (utf8_bytes digits) then Inl HT_NotHexString
          else (case from_str_radix 16 0xFFFF digits of
                  Inl e \<Rightarrow> Inl (HT_Int e) | Inr v \<Rightarrow> Inr (word_of_nat v)))"

definition bytes_hex_serialize :: "bytes \<Rightarrow> ustring" where
  "bytes_hex_serialize bs = concat (map (\<lambda>b. fmt_hex 2 (unat b)) bs)"

fun bytes_hex_chunks :: "bytes \<Rightarrow> HexTextError + bytes" where
  "bytes_hex_chunks (a # b # raw) =
     (case from_utf8 [a, b] of
        None \<Rightarrow> Inl HT_NotUtf8
      | Some digits \<Rightarrow>
          (case from_str_radix 16 0xFF digits of
             Inl e \<Rightarrow> Inl (HT_Int e)
           | Inr v \<Rightarrow> res_bind (bytes_hex_chunks raw) (\<lambda>vs. Inr (word_of_nat v # vs))))"
| "bytes_hex_chunks raw = Inr []"

definition bytes_hex_deserialize :: "ustring \<Rightarrow> HexTextError + bytes" where
  "bytes_hex_deserialize s =
     (if length (utf8_bytes s) mod 2 \<noteq> 0 then Inl HT_OddLength
      else bytes_hex_chunks (utf8_bytes s))"

section \<open>Formatting and parsing\<close>

lemma to_digit_hex_char [simp]: "d < 16 \<Longrightarrow> to_digit 16 (hex_char d) = Some d"
  by (auto simp: to_digit_def hex_char_def)

lemma hex_char_ascii: "d < 16 \<Longrightarrow> hex_char d < 0x80"
  by (simp add: hex_char_def)

lemma length_fmt_hex [simp]: "length (fmt_hex n v) = n"
  by (induction n arbitrary: v) simp_all

lemma set_fmt_hex: "set (fmt_hex n v) \<subseteq> hex_char ` {..<16}"
  by (induction n arbitrary: v) auto

lemma fmt_hex_not_Nil [simp]: "0 < n \<Longrightarrow> fmt_hex n v \<noteq> []"
  by (cases n) simp_all

lemma radix_digits_append:
  "radix_digits radix hi acc (xs @ ys) = res_bind (radix_digits radix hi acc xs) (\<lambda>a. radix_digits radix hi a ys)"
  by (induction xs arbitrary: acc) (simp_all split: option.split)

lemma radix_digits_fmt_hex:
  "v < 16 ^ n \<Longrightarrow> v \<le> hi \<Longrightarrow> radix_digits 16 hi 0 (fmt_hex n v) = Inr v"
proof (induction n arbitrary: v)
  case (Suc n)
  have "v div 16 < 16 ^ n" "v div 16 \<le> hi"
    using Suc.prems by (auto simp: less_mult_imp_div_less mult.commute)
  then show ?case
    using Suc by (simp add: radix_digits_append)
qed simp

lemma fmt_hex_no_sign: "0 < n \<Longrightarrow> hd (fmt_hex n v) \<notin> {43, 45}"
proof -
  assume "0 < n"
  then obtain d where "d < 16" "hd (fmt_hex n v) = hex_char d"
    using subsetD [OF set_fmt_hex hd_in_set [OF fmt_hex_not_Nil]] by blast
  then show ?thesis
    by (simp add: hex_char_def)
qed

lemma from_str_radix_fmt_hex:
  assumes "0 < n" "v < 16 ^ n" "v \<le> hi"
  shows "from_str_radix 16 hi (fmt_hex n v) = Inr v"
proof -
  have "fmt_hex n v \<noteq> lit ''+''" "fmt_hex n v \<noteq> lit ''-''"
    using fmt_hex_no_sign [OF assms(1), of v] by (auto simp: lit_def)
  then show ?thesis
    using fmt_hex_no_sign [OF assms(1), of v] assms
    by (simp add: from_str_radix_def radix_digits_fmt_hex)
qed

lemma utf8_ascii: "\<forall>c \<in> set s. c < 0x80 \<Longrightarrow> utf8_bytes s = map word_of_nat s"
  by (induction s) (simp_all add: utf8_bytes_def utf8_char_def)

lemma fmt_hex_ascii: "\<forall>c \<in> set (fmt_hex n v). c < 0x80"
  using set_fmt_hex [of n v] hex_char_ascii by auto

lemma from_utf8_ascii: "\<forall>c \<in> set s. c < 0x80 \<Longrightarrow> from_utf8 (map word_of_nat s) = Some s"
  by (induction s) (simp_all add: from_utf8.simps unat_of_nat)

lemma bytes_hex_chunks_serialize:
  "bytes_hex_chunks (utf8_bytes (bytes_hex_serialize bs)) = Inr bs"
proof (induction bs)
  case (Cons b bs)
  have ascii: "\<forall>c \<in> set (fmt_hex 2 (unat b)). c < 0x80"
    by (rule fmt_hex_ascii)
  obtain x y where xy: "fmt_hex 2 (unat b) = [x, y]"
    by (simp add: numeral_2_eq_2)
  have "utf8_bytes (fmt_hex 2 (unat b)) = [word_of_nat x, word_of_nat y]"
    using utf8_ascii [OF ascii] xy by simp
  moreover have "from_utf8 [word_of_nat x, word_of_nat y] = Some (fmt_hex 2 (unat b))"
    using from_utf8_ascii [OF ascii] xy by simp
  moreover have "from_str_radix 16 255 (fmt_hex 2 (unat b)) = Inr (unat b)"
    using from_str_radix_fmt_hex [of 2 "unat b" 255] unat_byte_less [of b] by simp
  ultimately show ?case
    using Cons by (simp add: bytes_hex_serialize_def utf8_bytes_def)
qed (simp add: bytes_hex_serialize_def utf8_bytes_def)

lemma length_bytes_hex_serialize: "length (utf8_bytes (bytes_hex_serialize bs)) = 2 * length bs"
proof -
  have "\<forall>c \<in> set (bytes_hex_serialize bs). c < 0x80"
    using fmt_hex_ascii by (auto simp: bytes_hex_serialize_def)
  then have "length (utf8_bytes (bytes_hex_serialize bs)) = length (bytes_hex_serialize bs)"
    by (simp add: utf8_ascii)
  also have "\<dots> = 2 * length bs"
    by (induction bs) (simp_all add: bytes_hex_serialize_def)
  finally show ?thesis .
qed

lemma to_digit_decimal [simp]: "d < 10 \<Longrightarrow> to_digit 10 (48 + d) = Some d"
  by (simp add: to_digit_def)

lemma radix_digits_decimal: "n \<le> hi \<Longrightarrow> radix_digits 10 hi 0 (decimal n) = Inr n"
proof (induction n rule: decimal.induct)
  case (1 n)
  show ?case
  proof (cases "n < 10")
    case True
    then show ?thesis
      using 1 by (simp add: decimal.simps [of n])
  next
    case False
    then have "radix_digits 10 hi 0 (decimal (n div 10)) = Inr (n div 10)"
      using 1 by simp
    moreover have "to_digit 10 (48 + n mod 10) = Some (n mod 10)"
      by simp
    ultimately show ?thesis
      using False 1(2) by (simp add: decimal.simps [of n] radix_digits_append)
  qed
qed

lemma decimal_chars: "set (decimal n) \<subseteq> {48..57}"
proof (induction n rule: decimal.induct)
  case (1 n)
  have "48 + n mod 10 \<le> 57"
    by simp
  then show ?case
    using 1 by (auto simp: decimal.simps [of n])
qed

lemma decimal_not_Nil [simp]: "decimal n \<noteq> []"
  by (simp add: decimal.simps [of n])

lemma decimal_hd: "48 \<le> hd (decimal n) \<and> hd (decimal n) \<le> 57"
  using subsetD [OF decimal_chars hd_in_set [OF decimal_not_Nil], of n] by simp

lemma from_str_radix_decimal: "n \<le> hi \<Longrightarrow> from_str_radix 10 hi (decimal n) = Inr n"
proof -
  assume "n \<le> hi"
  moreover have "decimal n \<noteq> lit ''+''" "decimal n \<noteq> lit ''-''" "hd (decimal n) \<noteq> 43"
    using decimal_hd [of n] by (auto simp: lit_def)
  ultimately show ?thesis
    by (simp add: from_str_radix_def radix_digits_decimal)
qed

lemma trim_solid:
  "s \<noteq> [] \<Longrightarrow> \<not> white_space (hd s) \<Longrightarrow> \<not> white_space (last s) \<Longrightarrow> trim s = s"
  by (simp add: trim_def dropWhile_eq_self_iff [THEN iffD2] hd_rev)

lemma hex_char_solid: "d < 16 \<Longrightarrow> \<not> white_space (hex_char d)"
  by (auto simp: white_space_def hex_char_def)

lemma trim_serialized: "trim (hex_u16_serialize v) = hex_u16_serialize v"
proof (rule trim_solid)
  have "last (hex_u16_serialize v) = last (fmt_hex 4 (unat v))"
    by (simp add: hex_u16_serialize_def)
  also have "\<dots> \<in> hex_char ` {..<16}"
    by (rule subsetD [OF set_fmt_hex last_in_set]) simp
  finally show "\<not> white_space (last (hex_u16_serialize v))"
    using hex_char_solid by auto
qed (simp_all add: hex_u16_serialize_def lit_def white_space_def)

lemma strip_serialized: "strip_prefix (lit ''0x'') (lit ''0x'' @ s) = Some s"
  by (simp add: strip_prefix_def lit_def)

lemma utf8_hex_digits:
  "list_all is_ascii_hexdigit (utf8_bytes (bytes_hex_serialize bs))"
proof -
  have digit: "is_ascii_hexdigit (word_of_nat c)" if "c \<in> hex_char ` {..<16}" for c
  proof -
    from that obtain d where d: "d < 16" "c = hex_char d" by auto
    then have "unat (word_of_nat c :: u8) = c"
      using hex_char_ascii [of d] by (simp add: unat_of_nat)
    then show ?thesis
      using d by (simp add: is_ascii_hexdigit_def)
  qed
  have digits: "set (bytes_hex_serialize bs) \<subseteq> hex_char ` {..<16}"
    using set_fmt_hex by (auto simp: bytes_hex_serialize_def)
  then have "\<forall>c \<in> set (bytes_hex_serialize bs). c < 0x80"
    using hex_char_ascii by auto
  then show ?thesis
    using digits digit by (auto simp: utf8_ascii list_all_iff)
qed

lemma parse_hex_pairs_serialize: "parse_hex_pairs (bytes_hex_serialize bs) = Some bs"
proof (induction bs)
  case (Cons b bs)
  have "fmt_hex 2 (unat b) = [hex_char (unat b div 16 mod 16), hex_char (unat b mod 16)]"
    by (simp add: numeral_2_eq_2)
  moreover have "from_str_radix 16 255 (fmt_hex 2 (unat b)) = Inr (unat b)"
    using from_str_radix_fmt_hex [of 2 "unat b" 255] unat_byte_less [of b] by simp
  ultimately show ?case
    using Cons by (simp add: bytes_hex_serialize_def)
qed (simp add: bytes_hex_serialize_def)

lemma from_str_radix_code: "from_str_radix 16 65535 (fmt_hex 4 (unat (v :: u16))) = Inr (unat v)"
  using from_str_radix_fmt_hex [of 4 "unat v" 65535] unat_less_pow [of v] by simp

lemma hex_codes_round_trip:
  "hex_u16_deserialize (hex_u16_serialize v) = Inr v" "parse_hex_code (hex_u16_serialize v) = Some v"
proof -
  have "length (utf8_bytes (fmt_hex 4 (unat v))) = 4"
    by (simp add: utf8_ascii [OF fmt_hex_ascii])
  then show "hex_u16_deserialize (hex_u16_serialize v) = Inr v"
    by (simp add: hex_u16_deserialize_def hex_u16_serialize_def strip_serialized from_str_radix_code)
  have "hex_body (hex_u16_serialize v) = fmt_hex 4 (unat v)"
    by (simp add: hex_body_def hex_u16_serialize_def strip_serialized)
  then show "parse_hex_code (hex_u16_serialize v) = Some v"
    by (simp add: parse_hex_code_def trim_serialized from_str_radix_code)
qed

lemma hex_bytes_round_trip:
  "bytes_hex_deserialize (bytes_hex_serialize bs) = Inr bs"
  "parse_hex_bytes (lit ''0x'' @ bytes_hex_serialize (b # bs)) = Some (b # bs)"
proof -
  show "bytes_hex_deserialize (bytes_hex_serialize bs) = Inr bs"
    by (simp add: bytes_hex_deserialize_def length_bytes_hex_serialize bytes_hex_chunks_serialize)
  have "bytes_hex_serialize (b # bs) \<noteq> []"
    by (simp add: bytes_hex_serialize_def)
  then show "parse_hex_bytes (lit ''0x'' @ bytes_hex_serialize (b # bs)) = Some (b # bs)"
    by (simp add: parse_hex_bytes_def hex_body_def strip_serialized Let_def length_bytes_hex_serialize
        utf8_hex_digits parse_hex_pairs_serialize del: length_Cons)
qed

text \<open>The hexadecimal fields of the control surface read back what they print. A
  16-bit code printed as \<^verbatim>\<open>0x%04x\<close> and a byte string printed as digit pairs deserialise to
  themselves, and the manifest's own parsers agree on the same text.\<close>
theorem hex_text_round_trips:
  "hex_u16_deserialize (hex_u16_serialize v) = Inr v
   \<and> parse_hex_code (hex_u16_serialize v) = Some v
   \<and> bytes_hex_deserialize (bytes_hex_serialize bs) = Inr bs
   \<and> parse_hex_bytes (lit ''0x'' @ bytes_hex_serialize (b # bs)) = Some (b # bs)"
  by (intro conjI hex_codes_round_trip hex_bytes_round_trip)

text \<open>A fault's replacement payload may contain characters that are not hexadecimal
  digits. The pair \<^verbatim>\<open>+a\<close> is read as the byte 0x0a and the operation code \<^verbatim>\<open>0x+1f\<close> as
  0x001f, because the integer parser accepts a sign; the manifest's parser, which tests
  every byte first, refuses the same text.\<close>
theorem hex_text_accepts_sign:
  "bytes_hex_deserialize (lit ''+a'') = Inr [0x0a]
   \<and> hex_u16_deserialize (lit ''0x+1f'') = Inr 0x1f
   \<and> parse_hex_bytes (lit ''+a'') = None"
  by code_simp

end
