(* ===== verification/Prop_Predicate.thy ===== *)
theory Prop_Predicate
  imports Rust_Text
begin

unbundle bit_operations_syntax

text \<open>
  The predicate language of manifests (\<^verbatim>\<open>crates/camera-config/src/predicate.rs\<close>) and the
  explaining evaluator of \<^verbatim>\<open>crates/camera-config/src/trace.rs\<close>. An \<^verbatim>\<open>i64\<close> is an integer
  here; the language only compares and masks such values, and the conjunction of two
  integers is that of their 64-bit images.
\<close>

section \<open>Evaluation\<close>

type_synonym PropView = "u16 \<Rightarrow> int option"

definition view_of :: "(u16 \<times> int) list \<Rightarrow> PropView" where
  "view_of kvs = fold (\<lambda>(k, v) m. m(k := Some v)) kvs Map.empty"

record Leaf =
  leaf_prop :: ustring
  leaf_mask :: "int option"
  leaf_eq :: "int option"
  leaf_ne :: "int option"
  leaf_lt :: "int option"
  leaf_gt :: "int option"

datatype Predicate =
    P_All "Predicate list"
  | P_Any "Predicate list"
  | P_Not Predicate
  | P_Leaf Leaf

definition masked :: "int option \<Rightarrow> int \<Rightarrow> int" where
  "masked m v = (case m of None \<Rightarrow> v | Some k \<Rightarrow> v AND k)"

definition leaf_eval :: "Leaf \<Rightarrow> PropView \<Rightarrow> bool" where
  "leaf_eval l view =
     (case parse_hex_code (leaf_prop l) of
        None \<Rightarrow> False
      | Some code \<Rightarrow>
          (case view code of
             None \<Rightarrow> False
           | Some v0 \<Rightarrow>
               (let v = masked (leaf_mask l) v0
                in if (case leaf_eq l of None \<Rightarrow> False | Some x \<Rightarrow> v \<noteq> x) then False
                   else if (case leaf_ne l of None \<Rightarrow> False | Some x \<Rightarrow> v = x) then False
                   else if (case leaf_lt l of None \<Rightarrow> False | Some x \<Rightarrow> v \<ge> x) then False
                   else if (case leaf_gt l of None \<Rightarrow> False | Some x \<Rightarrow> v \<le> x) then False
                   else True)))"

fun pred_eval :: "Predicate \<Rightarrow> PropView \<Rightarrow> bool" where
  "pred_eval (P_All ps) view = list_all (\<lambda>p. pred_eval p view) ps"
| "pred_eval (P_Any ps) view = list_ex (\<lambda>p. pred_eval p view) ps"
| "pred_eval (P_Not p) view = (\<not> pred_eval p view)"
| "pred_eval (P_Leaf l) view = leaf_eval l view"

section \<open>Explanation\<close>

record LeafEval =
  le_prop :: ustring
  le_observed :: "int option"
  le_effective :: "int option"
  le_test :: ustring
  le_passed :: bool

record PredicateOutcome =
  po_passed :: bool
  po_leaves :: "LeafEval list"
  po_summary :: ustring

definition i64_hex :: "int \<Rightarrow> ustring" where
  "i64_hex x = lower_hex (nat (x mod 2 ^ 64))"

definition leaf_tests :: "Leaf \<Rightarrow> ustring list" where
  "leaf_tests l =
     (let t = (\<lambda>name x. case x of None \<Rightarrow> [] | Some v \<Rightarrow> [lit name @ lit '' 0x'' @ i64_hex v])
      in t ''mask'' (leaf_mask l) @ t ''eq'' (leaf_eq l) @ t ''ne'' (leaf_ne l)
         @ t ''lt'' (leaf_lt l) @ t ''gt'' (leaf_gt l))"

fun join :: "ustring \<Rightarrow> ustring list \<Rightarrow> ustring" where
  "join sep [] = []"
| "join sep [x] = x"
| "join sep (x # y # xs) = x @ sep @ join sep (y # xs)"

definition none_or :: "('a \<Rightarrow> bool) \<Rightarrow> 'a option \<Rightarrow> bool" where
  "none_or P x = (case x of None \<Rightarrow> True | Some y \<Rightarrow> P y)"

definition collect_leaf :: "Leaf \<Rightarrow> PropView \<Rightarrow> LeafEval" where
  "collect_leaf l view =
     (let observed = (case parse_hex_code (leaf_prop l) of None \<Rightarrow> None | Some c \<Rightarrow> view c);
          effective = map_option (masked (leaf_mask l)) observed;
          passed = (case effective of
                      None \<Rightarrow> False
                    | Some v \<Rightarrow> none_or (\<lambda>x. v = x) (leaf_eq l) \<and> none_or (\<lambda>x. v \<noteq> x) (leaf_ne l)
                        \<and> none_or (\<lambda>x. v < x) (leaf_lt l) \<and> none_or (\<lambda>x. v > x) (leaf_gt l))
      in \<lparr>le_prop = leaf_prop l, le_observed = observed, le_effective = effective,
          le_test = join (lit '', '') (leaf_tests l), le_passed = passed\<rparr>)"

text \<open>\<open>collect\<close> threads the growing list of leaves through every child, without
  short-circuiting.\<close>

fun collect :: "Predicate \<Rightarrow> PropView \<Rightarrow> LeafEval list \<Rightarrow> bool \<times> LeafEval list"
  and collect_all :: "Predicate list \<Rightarrow> PropView \<Rightarrow> bool \<Rightarrow> LeafEval list \<Rightarrow> bool \<times> LeafEval list"
  and collect_any :: "Predicate list \<Rightarrow> PropView \<Rightarrow> bool \<Rightarrow> LeafEval list \<Rightarrow> bool \<times> LeafEval list" where
  "collect (P_All ps) view out = collect_all ps view True out"
| "collect (P_Any ps) view out = collect_any ps view False out"
| "collect (P_Not p) view out = (let (r, out') = collect p view out in (\<not> r, out'))"
| "collect (P_Leaf l) view out = (let e = collect_leaf l view in (le_passed e, out @ [e]))"
| "collect_all [] view r out = (r, out)"
| "collect_all (p # ps) view r out =
     (let (c, out') = collect p view out in collect_all ps view (c \<and> r) out')"
| "collect_any [] view r out = (r, out)"
| "collect_any (p # ps) view r out =
     (let (c, out') = collect p view out in collect_any ps view (c \<or> r) out')"

fun summary :: "Predicate \<Rightarrow> ustring" where
  "summary (P_All ps) = lit ''all of '' @ decimal (length ps)"
| "summary (P_Any ps) = lit ''any of '' @ decimal (length ps)"
| "summary (P_Not p) = lit ''not(...)''"
| "summary (P_Leaf l) = lit ''leaf''"

definition explain :: "Predicate \<Rightarrow> PropView \<Rightarrow> PredicateOutcome" where
  "explain p view =
     (let (passed, leaves) = collect p view []
      in \<lparr>po_passed = passed, po_leaves = leaves, po_summary = summary p\<rparr>)"

section \<open>The two evaluators agree\<close>

lemma collect_leaf_passed: "le_passed (collect_leaf l view) = leaf_eval l view"
  by (auto simp: collect_leaf_def leaf_eval_def none_or_def Let_def split: option.split)

primrec leaves_of :: "Predicate \<Rightarrow> Leaf list" where
  "leaves_of (P_All ps) = concat (map leaves_of ps)"
| "leaves_of (P_Any ps) = concat (map leaves_of ps)"
| "leaves_of (P_Not p) = leaves_of p"
| "leaves_of (P_Leaf l) = [l]"

lemma collect_correct:
  "collect p view out = (pred_eval p view, out @ map (\<lambda>l. collect_leaf l view) (leaves_of p))"
  "collect_all ps view r out =
     (list_all (\<lambda>p. pred_eval p view) ps \<and> r,
      out @ map (\<lambda>l. collect_leaf l view) (concat (map leaves_of ps)))"
  "collect_any ps view r out =
     (list_ex (\<lambda>p. pred_eval p view) ps \<or> r,
      out @ map (\<lambda>l. collect_leaf l view) (concat (map leaves_of ps)))"
  by (induction p view out and ps view r out and ps view r out rule: collect_collect_all_collect_any.induct)
    (auto simp: collect_leaf_passed Let_def)

lemma explain_correct:
  "explain p view =
     \<lparr>po_passed = pred_eval p view, po_leaves = map (\<lambda>l. collect_leaf l view) (leaves_of p),
      po_summary = summary p\<rparr>"
  by (simp add: explain_def collect_correct)

end
