(* ===== verification/Firmware_Version.thy ===== *)
theory Firmware_Version
  imports Rust_Text
begin

text \<open>
  Firmware version ordering (\<^verbatim>\<open>crates/camera-config/src/version.rs\<close>) and the version
  conditions of manifests (\<^verbatim>\<open>VersionCond\<close> and \<^verbatim>\<open>AvailableWhen\<close> of
  \<^verbatim>\<open>crates/camera-config/src/model.rs\<close>).
\<close>

section \<open>Comparison\<close>

datatype ordering = Less | Equal | Greater

datatype VersionScheme = DottedInt

text \<open>\<^verbatim>\<open>str::split\<close> at one character: always at least one piece.\<close>

fun split_char :: "nat \<Rightarrow> ustring \<Rightarrow> ustring list" where
  "split_char c [] = [[]]"
| "split_char c (x # xs) =
     (if x = c then [] # split_char c xs
      else case split_char c xs of [] \<Rightarrow> [[x]] | p # ps \<Rightarrow> (x # p) # ps)"

definition parse_u64 :: "ustring \<Rightarrow> nat option" where
  "parse_u64 s = (case from_str_radix 10 u64_max s of Inl e \<Rightarrow> None | Inr v \<Rightarrow> Some v)"

fun collect_options :: "'a option list \<Rightarrow> 'a list option" where
  "collect_options [] = Some []"
| "collect_options (None # xs) = None"
| "collect_options (Some x # xs) = map_option (Cons x) (collect_options xs)"

definition version_parse :: "ustring \<Rightarrow> VersionScheme \<Rightarrow> nat list option" where
  "version_parse s scheme =
     (case scheme of DottedInt \<Rightarrow>
        (let t = trim s
         in if t = [] then None
            else collect_options (map (\<lambda>c. parse_u64 (trim c)) (split_char 46 t))))"

definition component :: "nat list \<Rightarrow> nat \<Rightarrow> nat" where
  "component v i = (if i < length v then v ! i else 0)"

fun compare_from :: "nat list \<Rightarrow> nat list \<Rightarrow> nat list \<Rightarrow> ordering" where
  "compare_from va vb [] = Equal"
| "compare_from va vb (i # is) =
     (if component va i = component vb i then compare_from va vb is
      else if component va i < component vb i then Less else Greater)"

definition version_compare :: "ustring \<Rightarrow> ustring \<Rightarrow> VersionScheme \<Rightarrow> ordering option" where
  "version_compare a b scheme =
     (case version_parse a scheme of
        None \<Rightarrow> None
      | Some va \<Rightarrow>
          (case version_parse b scheme of
             None \<Rightarrow> None
           | Some vb \<Rightarrow> Some (compare_from va vb [0..<max (length va) (length vb)])))"

definition in_range ::
  "ustring \<Rightarrow> ustring option \<Rightarrow> ustring option \<Rightarrow> VersionScheme \<Rightarrow> bool" where
  "in_range v lo hi scheme =
     (if version_parse v scheme = None then lo = Some v \<or> hi = Some v
      else
        (case lo of
           None \<Rightarrow> True
         | Some l \<Rightarrow> version_compare v l scheme \<in> {Some Greater, Some Equal} \<or> l = v) \<and>
        (case hi of
           None \<Rightarrow> True
         | Some h \<Rightarrow> version_compare v h scheme = Some Less))"

record VersionCond =
  vc_eq :: "ustring option"
  vc_lt :: "ustring option"
  vc_le :: "ustring option"
  vc_gt :: "ustring option"
  vc_ge :: "ustring option"

definition bound :: "(ustring \<Rightarrow> bool) \<Rightarrow> ustring option \<Rightarrow> bool" where
  "bound P b = (case b of None \<Rightarrow> True | Some x \<Rightarrow> P x)"

definition version_cond_matches :: "VersionCond \<Rightarrow> ustring \<Rightarrow> VersionScheme \<Rightarrow> bool" where
  "version_cond_matches c fw scheme =
     (if \<not> bound (\<lambda>b. fw = b) (vc_eq c) then False
      else if \<not> bound (\<lambda>b. version_compare fw b scheme = Some Less) (vc_lt c) then False
      else if \<not> bound (\<lambda>b. version_compare fw b scheme \<in> {Some Less, Some Equal}) (vc_le c) then False
      else if \<not> bound (\<lambda>b. version_compare fw b scheme = Some Greater) (vc_gt c) then False
      else if \<not> bound (\<lambda>b. version_compare fw b scheme \<in> {Some Greater, Some Equal}) (vc_ge c) then False
      else True)"

record AvailableWhen =
  aw_firmware :: "VersionCond option"

definition available_when_matches :: "AvailableWhen \<Rightarrow> ustring \<Rightarrow> VersionScheme \<Rightarrow> bool" where
  "available_when_matches w firmware scheme =
     (case aw_firmware w of None \<Rightarrow> True | Some c \<Rightarrow> version_cond_matches c firmware scheme)"

section \<open>Laws of the order\<close>

fun flip_ordering :: "ordering \<Rightarrow> ordering" where
  "flip_ordering Less = Greater"
| "flip_ordering Equal = Equal"
| "flip_ordering Greater = Less"

definition flip_result :: "ordering option \<Rightarrow> ordering option" where
  "flip_result = map_option flip_ordering"

lemma component_beyond: "length v \<le> i \<Longrightarrow> component v i = 0"
  by (simp add: component_def)

lemma compare_from_append:
  "compare_from va vb (is @ js) =
     (if compare_from va vb is = Equal then compare_from va vb js else compare_from va vb is)"
  by (induction "is") auto

lemma compare_from_beyond:
  "\<forall>i \<in> set is. length va \<le> i \<and> length vb \<le> i \<Longrightarrow> compare_from va vb is = Equal"
  by (induction "is") (simp_all add: component_beyond)

text \<open>The comparison does not depend on how far it runs past the end of both versions.\<close>

lemma compare_from_extend:
  assumes "max (length va) (length vb) \<le> n"
  shows "compare_from va vb [0..<n] = compare_from va vb [0..<max (length va) (length vb)]"
proof -
  define m where "m = max (length va) (length vb)"
  have "compare_from va vb [m..<n] = Equal"
    by (rule compare_from_beyond) (simp add: m_def)
  moreover have "[0..<n] = [0..<m] @ [m..<n]"
    using upt_add_eq_append [of 0 m "n - m"] assms by (simp add: m_def)
  ultimately have "compare_from va vb [0..<n] = compare_from va vb [0..<m]"
    by (simp only: compare_from_append split: if_split) simp
  then show ?thesis
    by (simp only: m_def)
qed

lemma compare_from_flip: "compare_from vb va is = flip_ordering (compare_from va vb is)"
  by (induction "is") auto

lemma compare_from_refl [simp]: "compare_from va va is = Equal"
  by (induction "is") simp_all

lemma compare_from_trans:
  "compare_from va vb is \<noteq> Greater \<Longrightarrow> compare_from vb vc is \<noteq> Greater \<Longrightarrow>
     compare_from va vc is =
       (if compare_from va vb is = Equal then compare_from vb vc is else Less)"
  by (induction "is") (auto split: if_splits)

lemma version_compare_at:
  assumes "version_parse a s = Some va" "version_parse b s = Some vb"
    "max (length va) (length vb) \<le> n"
  shows "version_compare a b s = Some (compare_from va vb [0..<n])"
  using assms compare_from_extend [OF assms(3)] by (simp add: version_compare_def)

definition not_after :: "ustring \<Rightarrow> ustring \<Rightarrow> VersionScheme \<Rightarrow> bool" where
  "not_after a b s \<longleftrightarrow> version_compare a b s \<in> {Some Less, Some Equal}"

lemma not_after_trans:
  assumes "not_after a b s" "not_after b c s"
  shows "not_after a c s"
proof -
  obtain va vb vc where v: "version_parse a s = Some va" "version_parse b s = Some vb"
      "version_parse c s = Some vc"
    using assms by (auto simp: not_after_def version_compare_def split: option.splits)
  let ?n = "Max {length va, length vb, length vc}"
  have "version_compare a b s = Some (compare_from va vb [0..<?n])"
    "version_compare b c s = Some (compare_from vb vc [0..<?n])"
    "version_compare a c s = Some (compare_from va vc [0..<?n])"
    using v by (simp_all add: version_compare_at)
  then show ?thesis
    using assms compare_from_trans [of va vb "[0..<?n]" vc] by (auto simp: not_after_def)
qed

lemma version_compare_None:
  "version_compare a b s = None \<longleftrightarrow> version_parse a s = None \<or> version_parse b s = None"
  by (auto simp: version_compare_def split: option.split)

lemma version_compare_flip: "version_compare b a s = flip_result (version_compare a b s)"
proof (cases "version_parse a s = None \<or> version_parse b s = None")
  case True
  then show ?thesis
    by (auto simp: version_compare_def flip_result_def split: option.split)
next
  case False
  then obtain va vb where v: "version_parse a s = Some va" "version_parse b s = Some vb"
    by auto
  show ?thesis
    using compare_from_flip [of vb va "[0..<max (length va) (length vb)]"]
      max.commute [of "length va" "length vb"]
    by (simp add: version_compare_def v flip_result_def)
qed

lemma version_compare_self: "version_parse a s \<noteq> None \<longleftrightarrow> version_compare a a s = Some Equal"
  by (cases "version_parse a s") (simp_all add: version_compare_def)

lemma in_range_iff:
  assumes "version_parse v s \<noteq> None" "version_parse lo s \<noteq> None" "version_parse hi s \<noteq> None"
  shows "in_range v (Some lo) (Some hi) s \<longleftrightarrow> not_after lo v s \<and> \<not> not_after hi v s"
proof -
  obtain x y where xy: "version_compare lo v s = Some x" "version_compare hi v s = Some y"
    using assms version_compare_None by (meson not_None_eq)
  have "version_compare v lo s = Some (flip_ordering x)" "version_compare v hi s = Some (flip_ordering y)"
    using version_compare_flip [of v lo s] version_compare_flip [of v hi s] xy
    by (simp_all add: flip_result_def)
  moreover have "lo = v \<Longrightarrow> x = Equal"
    using xy(1) assms(1) version_compare_self [of v s] by simp
  ultimately show ?thesis
    using assms(1) xy by (cases x; cases y) (auto simp: in_range_def not_after_def)
qed

text \<open>Version comparison is a total preorder on the versions that parse. It succeeds
  exactly when both operands parse, comparing in the other direction gives the mirrored
  answer, a version equals itself, and not-after is transitive, although versions may have
  different numbers of components.\<close>
theorem version_order_laws:
  "(version_compare a b s = None \<longleftrightarrow> version_parse a s = None \<or> version_parse b s = None)
   \<and> version_compare b a s = flip_result (version_compare a b s)
   \<and> (version_parse a s \<noteq> None \<longleftrightarrow> version_compare a a s = Some Equal)
   \<and> (not_after a b s \<and> not_after b c s \<longrightarrow> not_after a c s)"
  using version_compare_None version_compare_flip version_compare_self not_after_trans by blast

theorem version_order_laws_witness:
  "not_after (lit ''2.3'') (lit ''2.30.1'') DottedInt"
proof -
  have "not_after (lit ''2.3'') (lit ''02.30'') DottedInt \<and> not_after (lit ''02.30'') (lit ''2.30.1'') DottedInt"
    by code_simp
  then show ?thesis
    using version_order_laws [of "lit ''2.3''" "lit ''02.30''" DottedInt "lit ''2.30.1''"] by blast
qed

text \<open>A version range is the half-open interval of the order. For a version and bounds
  that parse, \<open>in_range\<close> holds exactly when the version is not before the lower and strictly
  before the upper bound, hence never for an empty range; a version that does not parse is
  accepted only when it is literally one of the bounds.\<close>
theorem version_range_is_interval:
  assumes "version_parse lo s \<noteq> None" "version_parse hi s \<noteq> None"
  shows "(version_parse v s \<noteq> None \<longrightarrow>
            in_range v (Some lo) (Some hi) s \<longleftrightarrow> not_after lo v s \<and> \<not> not_after hi v s)
    \<and> (version_parse v s = None \<longrightarrow> in_range v (Some lo) (Some hi) s \<longleftrightarrow> v = lo \<or> v = hi)
    \<and> (version_parse v s \<noteq> None \<and> not_after hi lo s \<longrightarrow> \<not> in_range v (Some lo) (Some hi) s)"
proof (intro conjI impI)
  assume v: "version_parse v s \<noteq> None"
  show "in_range v (Some lo) (Some hi) s \<longleftrightarrow> not_after lo v s \<and> \<not> not_after hi v s"
    using in_range_iff [OF v assms] .
next
  assume "version_parse v s \<noteq> None \<and> not_after hi lo s"
  then show "\<not> in_range v (Some lo) (Some hi) s"
    using in_range_iff [OF _ assms, of v] not_after_trans by blast
qed (auto simp: in_range_def)

theorem version_range_is_interval_witness:
  "in_range (lit ''02.30'') (Some (lit ''2.0'')) (Some (lit ''2.31'')) DottedInt
   \<and> \<not> in_range (lit ''2.31'') (Some (lit ''2.0'')) (Some (lit ''2.31'')) DottedInt"
proof -
  have "version_parse (lit ''2.0'') DottedInt \<noteq> None" "version_parse (lit ''2.31'') DottedInt \<noteq> None"
    "version_parse (lit ''02.30'') DottedInt \<noteq> None"
    "not_after (lit ''2.0'') (lit ''02.30'') DottedInt" "\<not> not_after (lit ''2.31'') (lit ''02.30'') DottedInt"
    "not_after (lit ''2.31'') (lit ''2.31'') DottedInt"
    by code_simp+
  then show ?thesis
    using version_range_is_interval [of "lit ''2.0''" DottedInt "lit ''2.31''"] by blast
qed

text \<open>A version condition's equality test is on the text and does not normalise. Firmware \<^verbatim>\<open>02.30\<close>, which
  the comparator orders equal to \<^verbatim>\<open>2.30\<close> and which satisfies both bounds \<open>le\<close> and \<open>ge\<close> of
  \<^verbatim>\<open>2.30\<close>, is refused by the condition that it equals \<^verbatim>\<open>2.30\<close>.\<close>
lemma version_equality_not_normalised:
  "version_compare (lit ''02.30'') (lit ''2.30'') DottedInt = Some Equal
   \<and> version_cond_matches \<lparr>vc_eq = None, vc_lt = None, vc_le = Some (lit ''2.30''), vc_gt = None,
        vc_ge = Some (lit ''2.30'')\<rparr> (lit ''02.30'') DottedInt
   \<and> \<not> version_cond_matches \<lparr>vc_eq = Some (lit ''2.30''), vc_lt = None, vc_le = None, vc_gt = None,
        vc_ge = None\<rparr> (lit ''02.30'') DottedInt"
  by code_simp

end
