(* ===== verification/Fault.thy ===== *)
theory Fault
  imports Rust_Text
begin

text \<open>
  Occurrence-scoped fault injection (\<^verbatim>\<open>crates/camera-sim/src/fault.rs\<close>). A fault set holds
  rules in insertion order. Every transaction advances the counter of each rule it matches,
  and at most one armed rule applies. The counters are \<^verbatim>\<open>u32\<close> and saturate; they are natural
  numbers here, capped at \<open>u32_max\<close>, as the identifiers are at \<open>u64_max\<close>.

  The central result replays a history of transactions: the stateful registry decides every
  transaction exactly as a specification that has no state and counts occurrences in the
  history.
\<close>

section \<open>Data\<close>

datatype WireFraming = WF_Standard | WF_Compressed | WF_Usb

definition MAX_DELAY_MS :: nat where
  "MAX_DELAY_MS = 60000"

definition MAX_REPLACEMENT_BYTES :: nat where
  "MAX_REPLACEMENT_BYTES = 4096"

record FaultSelector =
  fs_operation :: u16
  fs_params :: "u32 list option"
  fs_skip :: u32
  fs_count :: "u32 option"

datatype FaultStage = FS_Command | FS_Data | FS_Response

datatype DataOrResponse = DR_Data | DR_Response

datatype FaultMutation =
    FailResponse u16
  | Close FaultStage
  | Delay DataOrResponse u64
  | Suppress DataOrResponse
  | TruncateData u64
  | ReplaceData bytes
  | ReplaceTransactionId u32
  | DataFraming WireFraming
  | PropertyReadback u64

fun FaultMutation_kind :: "FaultMutation \<Rightarrow> ustring" where
  "FaultMutation_kind (FailResponse _) = lit ''failResponse''"
| "FaultMutation_kind (Close _) = lit ''close''"
| "FaultMutation_kind (Delay _ _) = lit ''delay''"
| "FaultMutation_kind (Suppress _) = lit ''suppress''"
| "FaultMutation_kind (TruncateData _) = lit ''truncateData''"
| "FaultMutation_kind (ReplaceData _) = lit ''replaceData''"
| "FaultMutation_kind (ReplaceTransactionId _) = lit ''replaceTransactionId''"
| "FaultMutation_kind (DataFraming _) = lit ''dataFraming''"
| "FaultMutation_kind (PropertyReadback _) = lit ''propertyReadback''"

datatype FaultError =
    DelayTooLong u64          \<comment> \<open>the delay of the message\<close>
  | ReplacementTooLong nat    \<comment> \<open>the payload length of the message\<close>

fun fault_validate :: "FaultMutation \<Rightarrow> FaultError + unit" where
  "fault_validate (Delay stage ms) = (if MAX_DELAY_MS < unat ms then Inl (DelayTooLong ms) else Inr ())"
| "fault_validate (ReplaceData bs) =
     (if MAX_REPLACEMENT_BYTES < length bs then Inl (ReplacementTooLong (length bs)) else Inr ())"
| "fault_validate m = Inr ()"

record FaultSpec =
  spec_selector :: FaultSelector
  spec_mutation :: FaultMutation

record FaultRule =
  rule_id :: nat
  rule_selector :: FaultSelector
  rule_mutation :: FaultMutation
  rule_seen :: nat
  rule_applied :: nat

record FaultView =
  view_id :: nat
  view_selector :: FaultSelector
  view_mutation :: FaultMutation
  view_seen :: nat
  view_applied :: nat
  view_exhausted :: bool

record FaultApplication =
  fa_id :: nat
  fa_operation :: u16
  fa_params :: "u32 list"
  fa_kind :: ustring

datatype WirePlan =
    WP_None
  | CloseBeforeData
  | CloseBeforeResponse
  | DelayData u64
  | DelayResponse u64
  | SuppressData
  | SuppressResponse
  | WP_ReplaceTransactionId u32
  | WP_DataFraming WireFraming

record AppliedFault =
  af_id :: nat
  af_kind :: ustring
  af_wire :: WirePlan

record FaultSet =
  next_id :: nat
  fault_rules :: "FaultRule list"
  last_applied :: "FaultApplication option"
  applied_mutation :: "FaultMutation option"

section \<open>Operations\<close>

definition FaultSet_default :: FaultSet where
  "FaultSet_default =
     \<lparr>next_id = 1, fault_rules = [], last_applied = None, applied_mutation = None\<rparr>"

definition fresh_rule :: "nat \<Rightarrow> FaultSpec \<Rightarrow> FaultRule" where
  "fresh_rule n spec =
     \<lparr>rule_id = n, rule_selector = spec_selector spec, rule_mutation = spec_mutation spec,
      rule_seen = 0, rule_applied = 0\<rparr>"

definition try_insert :: "FaultSpec \<Rightarrow> FaultSet \<Rightarrow> (FaultError + nat) \<times> FaultSet" where
  "try_insert spec f =
     (case fault_validate (spec_mutation spec) of
        Inl e \<Rightarrow> (Inl e, f)
      | Inr _ \<Rightarrow>
          (Inr (next_id f),
           f\<lparr>next_id := sat_add u64_max (next_id f) 1,
             fault_rules := fault_rules f @ [fresh_rule (next_id f) spec]\<rparr>))"

definition fault_remove :: "nat \<Rightarrow> FaultSet \<Rightarrow> bool \<times> FaultSet" where
  "fault_remove n f =
     (let kept = filter (\<lambda>r. rule_id r \<noteq> n) (fault_rules f);
          removed = length (fault_rules f) \<noteq> length kept;
          hit = (case last_applied f of None \<Rightarrow> False | Some a \<Rightarrow> fa_id a = n)
      in (removed,
          f\<lparr>fault_rules := kept,
            last_applied := (if removed \<and> hit then None else last_applied f)\<rparr>))"

definition fault_clear :: "FaultSet \<Rightarrow> FaultSet" where
  "fault_clear f = f\<lparr>fault_rules := [], last_applied := None, applied_mutation := None\<rparr>"

definition faults_empty :: "FaultSet \<Rightarrow> bool" where
  "faults_empty f \<longleftrightarrow> fault_rules f = []"

definition armed :: "FaultSelector \<Rightarrow> nat \<Rightarrow> bool" where
  "armed s seen_before =
     (if seen_before < unat (fs_skip s) then False
      else case fs_count s of
             None \<Rightarrow> True
           | Some count \<Rightarrow> seen_before - unat (fs_skip s) < unat count)"

definition exhausted_at :: "FaultSelector \<Rightarrow> nat \<Rightarrow> bool" where
  "exhausted_at s n =
     (case fs_count s of
        None \<Rightarrow> False
      | Some count \<Rightarrow> sat_add u32_max (unat (fs_skip s)) (unat count) \<le> n)"

fun wire_plan :: "FaultMutation \<Rightarrow> WirePlan" where
  "wire_plan (Close FS_Data) = CloseBeforeData"
| "wire_plan (Close FS_Response) = CloseBeforeResponse"
| "wire_plan (Delay DR_Data ms) = DelayData ms"
| "wire_plan (Delay DR_Response ms) = DelayResponse ms"
| "wire_plan (Suppress DR_Data) = SuppressData"
| "wire_plan (Suppress DR_Response) = SuppressResponse"
| "wire_plan (ReplaceTransactionId t) = WP_ReplaceTransactionId t"
| "wire_plan (DataFraming w) = WP_DataFraming w"
| "wire_plan (FailResponse _) = WP_None"
| "wire_plan (Close FS_Command) = WP_None"
| "wire_plan (TruncateData _) = WP_None"
| "wire_plan (ReplaceData _) = WP_None"
| "wire_plan (PropertyReadback _) = WP_None"

definition list_views :: "FaultSet \<Rightarrow> FaultView list" where
  "list_views f =
     map (\<lambda>r. \<lparr>view_id = rule_id r, view_selector = rule_selector r, view_mutation = rule_mutation r,
               view_seen = rule_seen r, view_applied = rule_applied r,
               view_exhausted = exhausted_at (rule_selector r) (rule_seen r)\<rparr>) (fault_rules f)"

definition selects :: "FaultSelector \<Rightarrow> u16 \<Rightarrow> u32 list \<Rightarrow> bool" where
  "selects s code params \<longleftrightarrow>
     fs_operation s = code \<and>
     (case fs_params s of None \<Rightarrow> True | Some expected \<Rightarrow> expected = params)"

text \<open>
  The counting pass of \<^verbatim>\<open>apply\<close>: the rules with their counters advanced, and the index of the
  first rule that matches and is armed.
\<close>

fun count_rules ::
  "u16 \<Rightarrow> u32 list \<Rightarrow> nat \<Rightarrow> nat option \<Rightarrow> FaultRule list \<Rightarrow> FaultRule list \<times> nat option" where
  "count_rules code params i chosen [] = ([], chosen)"
| "count_rules code params i chosen (r # rs) =
     (if \<not> selects (rule_selector r) code params
      then let (rs', c) = count_rules code params (Suc i) chosen rs in (r # rs', c)
      else let chosen' = (if chosen = None \<and> armed (rule_selector r) (rule_seen r) then Some i else chosen);
               (rs', c) = count_rules code params (Suc i) chosen' rs
           in (r\<lparr>rule_seen := sat_add u32_max (rule_seen r) 1\<rparr> # rs', c))"

definition apply_fault :: "u16 \<Rightarrow> u32 list \<Rightarrow> FaultSet \<Rightarrow> AppliedFault option \<times> FaultSet" where
  "apply_fault code params f =
     (let (counted, chosen) = count_rules code params 0 None (fault_rules f);
          f1 = f\<lparr>fault_rules := counted, applied_mutation := None\<rparr>
      in case chosen of
           None \<Rightarrow> (None, f1)
         | Some i \<Rightarrow>
             (let r = counted ! i;
                  r' = r\<lparr>rule_applied := sat_add u32_max (rule_applied r) 1\<rparr>
              in (Some \<lparr>af_id = rule_id r', af_kind = FaultMutation_kind (rule_mutation r'),
                        af_wire = wire_plan (rule_mutation r')\<rparr>,
                  f1\<lparr>fault_rules := counted[i := r'],
                     last_applied := Some \<lparr>fa_id = rule_id r', fa_operation = code,
                                           fa_params = params, fa_kind = FaultMutation_kind (rule_mutation r')\<rparr>,
                     applied_mutation := Some (rule_mutation r')\<rparr>)))"

definition take_applied_mutation :: "FaultSet \<Rightarrow> FaultMutation option \<times> FaultSet" where
  "take_applied_mutation f = (applied_mutation f, f\<lparr>applied_mutation := None\<rparr>)"

section \<open>The registry as a transition system\<close>

datatype fault_event =
    Install FaultSpec
  | Uninstall nat
  | ClearAll
  | Transact u16 "u32 list"
  | TakeMutation

fun fault_step :: "fault_event \<Rightarrow> FaultSet \<Rightarrow> FaultSet" where
  "fault_step (Install spec) f = snd (try_insert spec f)"
| "fault_step (Uninstall n) f = snd (fault_remove n f)"
| "fault_step ClearAll f = fault_clear f"
| "fault_step (Transact code params) f = snd (apply_fault code params f)"
| "fault_step TakeMutation f = snd (take_applied_mutation f)"

definition fault_history :: "fault_event list \<Rightarrow> FaultSet" where
  "fault_history es = fold fault_step es FaultSet_default"

definition well_kept :: "FaultSet \<Rightarrow> bool" where
  "well_kept f \<longleftrightarrow>
     sorted_wrt (<) (map rule_id (fault_rules f)) \<and>
     (\<forall>r \<in> set (fault_rules f). rule_id r < next_id f \<and> fault_validate (rule_mutation r) = Inr () \<and>
        rule_applied r \<le> rule_seen r \<and> rule_seen r \<le> u32_max)"

text \<open>The specification: what a rule does depends only on how often it was matched.\<close>

definition matched :: "FaultSelector \<Rightarrow> (u16 \<times> u32 list) list \<Rightarrow> nat" where
  "matched s h = length (filter (\<lambda>(code, params). selects s code params) h)"

definition in_window :: "FaultSelector \<Rightarrow> nat \<Rightarrow> bool" where
  "in_window s n \<longleftrightarrow>
     unat (fs_skip s) \<le> n \<and>
     (case fs_count s of None \<Rightarrow> True | Some count \<Rightarrow> n < unat (fs_skip s) + unat count)"

definition decides :: "FaultRule list \<Rightarrow> (u16 \<times> u32 list) list \<Rightarrow> u16 \<times> u32 list \<Rightarrow> FaultRule option" where
  "decides rs h t =
     find (\<lambda>r. selects (rule_selector r) (fst t) (snd t) \<and> in_window (rule_selector r) (matched (rule_selector r) h)) rs"

primrec run_transactions :: "(u16 \<times> u32 list) list \<Rightarrow> FaultSet \<Rightarrow> AppliedFault option list \<times> FaultSet" where
  "run_transactions [] f = ([], f)"
| "run_transactions (t # ts) f =
     (let (a, f1) = apply_fault (fst t) (snd t) f; (as, f2) = run_transactions ts f1 in (a # as, f2))"

section \<open>One transaction\<close>

primrec first_pos :: "('a \<Rightarrow> bool) \<Rightarrow> 'a list \<Rightarrow> nat option" where
  "first_pos P [] = None"
| "first_pos P (x # xs) = (if P x then Some 0 else map_option Suc (first_pos P xs))"

definition ready :: "u16 \<Rightarrow> u32 list \<Rightarrow> FaultRule \<Rightarrow> bool" where
  "ready code params r \<longleftrightarrow> selects (rule_selector r) code params \<and> armed (rule_selector r) (rule_seen r)"

definition bump :: "u16 \<Rightarrow> u32 list \<Rightarrow> FaultRule \<Rightarrow> FaultRule" where
  "bump code params r =
     (if selects (rule_selector r) code params
      then r\<lparr>rule_seen := sat_add u32_max (rule_seen r) 1\<rparr> else r)"

definition outcome :: "FaultRule \<Rightarrow> AppliedFault" where
  "outcome r = \<lparr>af_id = rule_id r, af_kind = FaultMutation_kind (rule_mutation r),
                 af_wire = wire_plan (rule_mutation r)\<rparr>"

lemma first_pos_Some: "first_pos P xs = Some i \<Longrightarrow> i < length xs \<and> find P xs = Some (xs ! i)"
  by (induction xs arbitrary: i) (auto split: if_splits)

lemma first_pos_None: "first_pos P xs = None \<longleftrightarrow> find P xs = None"
  by (induction xs) auto

lemma bump_simps [simp]:
  "rule_id (bump code params r) = rule_id r"
  "rule_selector (bump code params r) = rule_selector r"
  "rule_mutation (bump code params r) = rule_mutation r"
  "rule_applied (bump code params r) = rule_applied r"
  by (simp_all add: bump_def)

lemma count_rules_chosen:
  "count_rules code params i (Some k) rs = (map (bump code params) rs, Some k)"
  by (induction rs arbitrary: i) (simp_all add: bump_def)

lemma count_rules_first:
  "count_rules code params i None rs =
     (map (bump code params) rs, map_option ((+) i) (first_pos (ready code params) rs))"
  by (induction rs arbitrary: i)
    (auto simp: bump_def ready_def count_rules_chosen option.map_comp intro!: option.map_cong)

definition credited :: "u16 \<Rightarrow> u32 list \<Rightarrow> FaultRule list \<Rightarrow> FaultRule list" where
  "credited code params rs =
     (case first_pos (ready code params) rs of
        None \<Rightarrow> map (bump code params) rs
      | Some i \<Rightarrow>
          (map (bump code params) rs)
            [i := (bump code params (rs ! i))\<lparr>rule_applied := sat_add u32_max (rule_applied (rs ! i)) 1\<rparr>])"

lemma apply_fault_outcome:
  "fst (apply_fault code params f) = map_option outcome (find (ready code params) (fault_rules f))"
proof (cases "first_pos (ready code params) (fault_rules f)")
  case None
  moreover have "find (ready code params) (fault_rules f) = None"
    using None by (simp add: first_pos_None)
  ultimately show ?thesis
    by (simp add: apply_fault_def count_rules_first)
next
  case (Some i)
  then show ?thesis
    using first_pos_Some [OF Some]
    by (simp add: apply_fault_def count_rules_first outcome_def Let_def)
qed

lemma apply_fault_rules:
  "fault_rules (snd (apply_fault code params f)) = credited code params (fault_rules f)"
  "next_id (snd (apply_fault code params f)) = next_id f"
proof -
  show "fault_rules (snd (apply_fault code params f)) = credited code params (fault_rules f)"
    using first_pos_Some [of "ready code params" "fault_rules f"]
    by (auto simp: apply_fault_def count_rules_first credited_def Let_def split: option.split)
  show "next_id (snd (apply_fault code params f)) = next_id f"
    by (simp add: apply_fault_def count_rules_first Let_def split: option.split)
qed

text \<open>What a transaction keeps of a rule, and how it counts.\<close>

definition same_rule :: "FaultRule \<Rightarrow> FaultRule \<Rightarrow> bool" where
  "same_rule r r' \<longleftrightarrow>
     rule_id r' = rule_id r \<and> rule_selector r' = rule_selector r \<and> rule_mutation r' = rule_mutation r"

definition counted_once :: "u16 \<Rightarrow> u32 list \<Rightarrow> FaultRule \<Rightarrow> FaultRule \<Rightarrow> bool" where
  "counted_once code params r r' \<longleftrightarrow>
     same_rule r r' \<and> rule_seen r' = rule_seen (bump code params r) \<and>
     (rule_applied r' = rule_applied r
      \<or> ready code params r \<and> rule_applied r' = sat_add u32_max (rule_applied r) 1)"

lemma credited_rules: "list_all2 (counted_once code params) rs (credited code params rs)"
proof (cases "first_pos (ready code params) rs")
  case None
  then show ?thesis
    by (simp add: credited_def list_all2_conv_all_nth counted_once_def same_rule_def)
next
  case (Some i)
  from first_pos_Some [OF Some] have "i < length rs" "ready code params (rs ! i)"
    by (auto simp: find_Some_iff)
  then show ?thesis
    using Some
    by (auto simp: credited_def list_all2_conv_all_nth counted_once_def same_rule_def nth_list_update)
qed

section \<open>Invariant of the registry\<close>

lemma list_all2_map_eq: "list_all2 R xs ys \<Longrightarrow> (\<And>x y. R x y \<Longrightarrow> g y = g x) \<Longrightarrow> map g ys = map g xs"
  by (induction rule: list_all2_induct) auto

lemma list_all2_source: "list_all2 R xs ys \<Longrightarrow> y \<in> set ys \<Longrightarrow> \<exists>x \<in> set xs. R x y"
  by (induction rule: list_all2_induct) auto

lemma counted_once_keeps:
  assumes "counted_once code params r r'" "rule_applied r \<le> rule_seen r" "rule_seen r \<le> u32_max"
  shows "rule_applied r' \<le> rule_seen r' \<and> rule_seen r' \<le> u32_max"
  using assms by (auto simp: counted_once_def bump_def ready_def sat_add_def)

lemma apply_fault_well_kept: "well_kept f \<Longrightarrow> well_kept (snd (apply_fault code params f))"
proof -
  assume kept: "well_kept f"
  have rel: "list_all2 (counted_once code params) (fault_rules f)
      (fault_rules (snd (apply_fault code params f)))"
    by (simp add: apply_fault_rules credited_rules)
  have "map rule_id (fault_rules (snd (apply_fault code params f))) = map rule_id (fault_rules f)"
    using rel by (rule list_all2_map_eq) (simp add: counted_once_def same_rule_def)
  moreover have "rule_id r' < next_id f \<and> fault_validate (rule_mutation r') = Inr () \<and>
      rule_applied r' \<le> rule_seen r' \<and> rule_seen r' \<le> u32_max"
    if "r' \<in> set (fault_rules (snd (apply_fault code params f)))" for r'
  proof -
    from that rel obtain r where r: "r \<in> set (fault_rules f)" "counted_once code params r r'"
      using list_all2_source by metis
    have "rule_id r < next_id f \<and> fault_validate (rule_mutation r) = Inr () \<and>
        rule_applied r \<le> rule_seen r \<and> rule_seen r \<le> u32_max"
      using kept r(1) unfolding well_kept_def by blast
    then show ?thesis
      using counted_once_keeps [OF r(2)] r(2) by (simp add: counted_once_def same_rule_def)
  qed
  ultimately show ?thesis
    using kept by (simp add: well_kept_def apply_fault_rules(2))
qed

lemma try_insert_well_kept:
  assumes "well_kept f" "next_id f < u64_max"
  shows "well_kept (snd (try_insert spec f))" "next_id (snd (try_insert spec f)) \<le> Suc (next_id f)"
  using assms
  by (auto simp: try_insert_def well_kept_def fresh_rule_def sat_add_def sorted_wrt_append
      split: sum.split)

lemma remove_well_kept: "well_kept f \<Longrightarrow> well_kept (snd (fault_remove n f))"
  by (auto simp: well_kept_def fault_remove_def Let_def sorted_wrt_map sorted_wrt_filter)

definition installs :: "fault_event list \<Rightarrow> nat" where
  "installs es = length (filter (\<lambda>e. case e of Install _ \<Rightarrow> True | _ \<Rightarrow> False) es)"

lemma fault_step_well_kept:
  assumes "well_kept f" "next_id f < u64_max"
  shows "well_kept (fault_step e f) \<and> next_id (fault_step e f) \<le> next_id f + installs [e]"
proof (cases e)
  case (Install spec)
  then show ?thesis
    using try_insert_well_kept [OF assms] by (simp add: installs_def)
next
  case (Uninstall n)
  then show ?thesis
    using assms remove_well_kept by (simp add: fault_remove_def Let_def)
next
  case (Transact code params)
  then show ?thesis
    using assms apply_fault_well_kept by (simp add: apply_fault_rules)
qed (use assms in \<open>simp_all add: well_kept_def fault_clear_def take_applied_mutation_def\<close>)

lemma fold_well_kept:
  "well_kept f \<Longrightarrow> next_id f + installs es < u64_max \<Longrightarrow>
     well_kept (fold fault_step es f) \<and> next_id (fold fault_step es f) \<le> next_id f + installs es"
proof (induction es arbitrary: f)
  case (Cons e es)
  have split: "installs (e # es) = installs [e] + installs es"
    by (simp add: installs_def)
  show ?case
    using Cons.IH [of "fault_step e f"] fault_step_well_kept [OF Cons.prems(1), of e] Cons.prems split
    by simp
qed (simp add: installs_def)

lemma fault_history_well_kept:
  assumes "Suc (installs es) < u64_max"
  shows "well_kept (fault_history es)"
  using fold_well_kept [of FaultSet_default es] assms
  by (simp add: fault_history_def FaultSet_default_def well_kept_def)

lemma find_least:
  assumes "find P xs = Some x" "sorted_wrt (<) (map g xs)" "y \<in> set xs" "P y"
  shows "g x \<le> (g y :: nat)"
proof -
  obtain i j where ij: "i < length xs" "x = xs ! i" "\<forall>k < i. \<not> P (xs ! k)" "j < length xs" "y = xs ! j"
    using assms(1,3) by (auto simp: find_Some_iff in_set_conv_nth)
  then have "i \<le> j"
    using assms(4) by (meson not_le)
  then show ?thesis
    using assms(2) ij by (cases "i = j") (auto simp: sorted_wrt_iff_nth_less intro!: less_imp_le)
qed

section \<open>Histories\<close>

lemma armed_iff_in_window: "armed s n \<longleftrightarrow> in_window s n"
  by (auto simp: armed_def in_window_def split: option.split)

lemma matched_snoc:
  "matched s (h @ [t]) = (if selects s (fst t) (snd t) then Suc (matched s h) else matched s h)"
  by (simp add: matched_def case_prod_beta)

lemma matched_le: "matched s h \<le> length h"
  by (simp add: matched_def)

text \<open>\<open>tracks rs0 h rs\<close>: the rules \<open>rs\<close> are \<open>rs0\<close> after the history \<open>h\<close>.\<close>

definition tracks :: "FaultRule list \<Rightarrow> (u16 \<times> u32 list) list \<Rightarrow> FaultRule list \<Rightarrow> bool" where
  "tracks rs0 h rs \<longleftrightarrow>
     list_all2 (\<lambda>r0 r. same_rule r0 r \<and> rule_seen r = matched (rule_selector r0) h) rs0 rs"

lemma tracks_fresh: "\<forall>r \<in> set rs. rule_seen r = 0 \<Longrightarrow> tracks rs [] rs"
  by (simp add: tracks_def list_all2_conv_all_nth same_rule_def matched_def)

lemma tracks_step:
  assumes "tracks rs0 h rs" "length h < u32_max"
  shows "tracks rs0 (h @ [t]) (credited (fst t) (snd t) rs)"
proof -
  have count: "sat_add u32_max (matched s h) 1 = Suc (matched s h)" for s
    using matched_le [of s h] assms(2) by (simp add: sat_add_def)
  have step: "same_rule r0 r'' \<and> rule_seen r'' = matched (rule_selector r0) (h @ [t])"
    if "same_rule r0 r \<and> rule_seen r = matched (rule_selector r0) h"
      and "counted_once (fst t) (snd t) r r''" for r0 r r''
    using that count by (simp add: same_rule_def counted_once_def bump_def matched_snoc)
  show ?thesis
    unfolding tracks_def
    by (rule list_all2_trans [OF _ assms(1) [unfolded tracks_def] credited_rules]) (rule step)
qed

lemma tracks_find:
  assumes "tracks rs0 h rs"
  shows "map_option outcome (find (ready (fst t) (snd t)) rs) = map_option outcome (decides rs0 h t)"
  using assms unfolding tracks_def decides_def
  by (induction rule: list_all2_induct)
    (auto simp: ready_def same_rule_def armed_iff_in_window outcome_def)

lemma run_transactions_decides:
  assumes "tracks rs0 h (fault_rules f)" "length h + length ts \<le> u32_max"
  shows "fst (run_transactions ts f) =
     map (\<lambda>i. map_option outcome (decides rs0 (h @ take i ts) (ts ! i))) [0..<length ts]"
  using assms
proof (induction ts arbitrary: h f)
  case (Cons t ts)
  let ?f1 = "snd (apply_fault (fst t) (snd t) f)"
  have "tracks rs0 (h @ [t]) (fault_rules ?f1)"
    using tracks_step [OF Cons.prems(1)] Cons.prems(2) by (simp add: apply_fault_rules)
  then have "fst (run_transactions ts ?f1) =
     map (\<lambda>i. map_option outcome (decides rs0 ((h @ [t]) @ take i ts) (ts ! i))) [0..<length ts]"
    by (rule Cons.IH) (use Cons.prems(2) in simp)
  moreover have "fst (apply_fault (fst t) (snd t) f) = map_option outcome (decides rs0 h t)"
    using tracks_find [OF Cons.prems(1)] by (simp add: apply_fault_outcome)
  ultimately show ?case
    by (simp add: case_prod_beta upt_conv_Cons map_Suc_upt [symmetric] comp_def del: upt_Suc)
qed simp

definition installed :: "FaultSpec list \<Rightarrow> FaultSet" where
  "installed specs = fault_history (map Install specs)"

lemma try_insert_fresh:
  "\<forall>r \<in> set (fault_rules f). rule_seen r = 0 \<Longrightarrow>
     \<forall>r \<in> set (fault_rules (snd (try_insert spec f))). rule_seen r = 0"
  by (simp add: try_insert_def fresh_rule_def split: sum.split)

lemma fold_install_fresh:
  "\<forall>r \<in> set (fault_rules f). rule_seen r = 0 \<Longrightarrow>
     \<forall>r \<in> set (fault_rules (fold fault_step (map Install specs) f)). rule_seen r = 0"
proof (induction specs arbitrary: f)
  case (Cons spec specs)
  then show ?case
    using try_insert_fresh [of f spec] by simp
qed simp

lemma installed_fresh: "\<forall>r \<in> set (fault_rules (installed specs)). rule_seen r = 0"
  unfolding installed_def fault_history_def
  by (rule fold_install_fresh) (simp add: FaultSet_default_def)


definition sample_fault :: FaultSpec where
  "sample_fault =
     \<lparr>spec_selector = \<lparr>fs_operation = 0x1009, fs_params = None, fs_skip = 1, fs_count = Some 1\<rparr>,
      spec_mutation = FailResponse 0x2019\<rparr>"

definition sample_transactions :: "(u16 \<times> u32 list) list" where
  "sample_transactions = [(0x1009, [1]), (0x1001, []), (0x1009, [2]), (0x1009, [3])]"


text \<open>C32: at most one rule applies, and it is the armed one with the lowest identifier. In
  every registry reached by installing (fewer than \<open>2 ^ 64 - 2\<close> times), removing, clearing,
  transacting and taking mutations, identifiers increase strictly, every mutation is within its
  documented bounds and no rule was applied more often than it was seen; a transaction applies a
  fault exactly when some rule is armed for it, and then the one with the lowest identifier.\<close>
theorem fault_lowest_id_wins:
  assumes "Suc (installs es) < u64_max" and f: "f = fault_history es"
  shows "well_kept f
    \<and> (fst (apply_fault code params f) = None \<longleftrightarrow> (\<forall>r \<in> set (fault_rules f). \<not> ready code params r))
    \<and> (\<forall>a. fst (apply_fault code params f) = Some a \<longrightarrow>
         (\<exists>r \<in> set (fault_rules f). ready code params r \<and> a = outcome r
            \<and> (\<forall>r' \<in> set (fault_rules f). ready code params r' \<longrightarrow> rule_id r \<le> rule_id r')))"
proof (intro conjI allI impI)
  show kept: "well_kept f"
    using fault_history_well_kept [OF assms(1)] f by simp
  show "fst (apply_fault code params f) = None \<longleftrightarrow> (\<forall>r \<in> set (fault_rules f). \<not> ready code params r)"
    by (auto simp: apply_fault_outcome find_None_iff)
  fix a
  assume "fst (apply_fault code params f) = Some a"
  then obtain r where r: "find (ready code params) (fault_rules f) = Some r" "a = outcome r"
    by (auto simp: apply_fault_outcome)
  then have "r \<in> set (fault_rules f)" "ready code params r"
    by (auto simp: find_Some_iff)
  moreover have "sorted_wrt (<) (map rule_id (fault_rules f))"
    using kept by (simp add: well_kept_def)
  ultimately show "\<exists>r \<in> set (fault_rules f). ready code params r \<and> a = outcome r
      \<and> (\<forall>r' \<in> set (fault_rules f). ready code params r' \<longrightarrow> rule_id r \<le> rule_id r')"
    using r find_least [OF r(1)] by blast
qed

theorem fault_lowest_id_wins_witness:
  "well_kept (fault_history [Install sample_fault, Transact 0x1009 [1], Install sample_fault])
   \<and> map_option af_id (fst (apply_fault 0x1009 [2]
        (fault_history [Install sample_fault, Transact 0x1009 [1], Install sample_fault]))) = Some 1"
proof
  show "well_kept (fault_history [Install sample_fault, Transact 0x1009 [1], Install sample_fault])"
    using fault_lowest_id_wins
      [of "[Install sample_fault, Transact 0x1009 [1], Install sample_fault]"]
    by (simp add: installs_def)
qed code_simp

end
