(* ===== verification/Ptp_Dataset.thy ===== *)
theory Ptp_Dataset
  imports Ptp_Framing
begin

text \<open>
  The structured payloads of \<^verbatim>\<open>crates/ptp-core/src/dataset.rs\<close>: \<open>ObjectInfo\<close>,
  \<open>DeviceInfo\<close>, \<open>StorageInfo\<close>, typed property values and \<open>DevicePropDesc\<close>, with the
  datatype codes of \<^verbatim>\<open>codes.rs\<close>. A dataset decoder reads its fields in order and then
  requires the end of the input. \<open>valid_X\<close> is the domain on which the encoder of \<open>X\<close>
  succeeds and the decoder reads it back.
\<close>

section \<open>Object, device and storage information\<close>

record ObjectInfo =
  oi_storage_id :: u32
  oi_object_format :: u16
  oi_protection_status :: u16
  oi_object_compressed_size :: u32
  oi_thumb_format :: u16
  oi_thumb_compressed_size :: u32
  oi_thumb_pix_width :: u32
  oi_thumb_pix_height :: u32
  oi_image_pix_width :: u32
  oi_image_pix_height :: u32
  oi_image_bit_depth :: u32
  oi_parent_object :: u32
  oi_association_type :: u16
  oi_association_desc :: u32
  oi_sequence_number :: u32
  oi_filename :: ustring
  oi_capture_date :: ustring
  oi_modification_date :: ustring
  oi_keywords :: ustring

definition ObjectInfo_rd :: "ObjectInfo rd" where
  "ObjectInfo_rd =
    rd_bind rd_u32 (\<lambda>x0.
    rd_bind rd_u16 (\<lambda>x1.
    rd_bind rd_u16 (\<lambda>x2.
    rd_bind rd_u32 (\<lambda>x3.
    rd_bind rd_u16 (\<lambda>x4.
    rd_bind rd_u32 (\<lambda>x5.
    rd_bind rd_u32 (\<lambda>x6.
    rd_bind rd_u32 (\<lambda>x7.
    rd_bind rd_u32 (\<lambda>x8.
    rd_bind rd_u32 (\<lambda>x9.
    rd_bind rd_u32 (\<lambda>x10.
    rd_bind rd_u32 (\<lambda>x11.
    rd_bind rd_u16 (\<lambda>x12.
    rd_bind rd_u32 (\<lambda>x13.
    rd_bind rd_u32 (\<lambda>x14.
    rd_bind rd_ptp_string (\<lambda>x15.
    rd_bind rd_ptp_string (\<lambda>x16.
    rd_bind rd_ptp_string (\<lambda>x17.
    rd_bind rd_ptp_string (\<lambda>x18.
      rd_return \<lparr>oi_storage_id = x0, oi_object_format = x1, oi_protection_status = x2, 
        oi_object_compressed_size = x3, oi_thumb_format = x4, 
        oi_thumb_compressed_size = x5, oi_thumb_pix_width = x6, 
        oi_thumb_pix_height = x7, oi_image_pix_width = x8, 
        oi_image_pix_height = x9, oi_image_bit_depth = x10, 
        oi_parent_object = x11, oi_association_type = x12, 
        oi_association_desc = x13, oi_sequence_number = x14, oi_filename = x15, 
        oi_capture_date = x16, oi_modification_date = x17, oi_keywords = x18\<rparr>)))))))))))))))))))"

definition ObjectInfo_decode :: "bytes \<Rightarrow> DecodeError + ObjectInfo" where
  "ObjectInfo_decode bs =
    run_rd (rd_bind ObjectInfo_rd (\<lambda>v. rd_bind finish (\<lambda>_. rd_return v))) bs"

definition ObjectInfo_encode :: "ObjectInfo \<Rightarrow> wr" where
  "ObjectInfo_encode v =
    wr_then (wr_u32 (oi_storage_id v)) (
    wr_then (wr_u16 (oi_object_format v)) (
    wr_then (wr_u16 (oi_protection_status v)) (
    wr_then (wr_u32 (oi_object_compressed_size v)) (
    wr_then (wr_u16 (oi_thumb_format v)) (
    wr_then (wr_u32 (oi_thumb_compressed_size v)) (
    wr_then (wr_u32 (oi_thumb_pix_width v)) (
    wr_then (wr_u32 (oi_thumb_pix_height v)) (
    wr_then (wr_u32 (oi_image_pix_width v)) (
    wr_then (wr_u32 (oi_image_pix_height v)) (
    wr_then (wr_u32 (oi_image_bit_depth v)) (
    wr_then (wr_u32 (oi_parent_object v)) (
    wr_then (wr_u16 (oi_association_type v)) (
    wr_then (wr_u32 (oi_association_desc v)) (
    wr_then (wr_u32 (oi_sequence_number v)) (
    wr_then (wr_ptp_string (oi_filename v)) (
    wr_then (wr_ptp_string (oi_capture_date v)) (
    wr_then (wr_ptp_string (oi_modification_date v)) (
    wr_ptp_string (oi_keywords v)))))))))))))))))))"

definition valid_ObjectInfo :: "ObjectInfo \<Rightarrow> bool" where
  "valid_ObjectInfo v \<longleftrightarrow>
    valid_ptp_str (oi_filename v) \<and>
    valid_ptp_str (oi_capture_date v) \<and>
    valid_ptp_str (oi_modification_date v) \<and>
    valid_ptp_str (oi_keywords v)"

record DeviceInfo =
  di_standard_version :: u16
  di_vendor_extension_id :: u32
  di_vendor_extension_version :: u16
  di_vendor_extension_desc :: ustring
  di_functional_mode :: u16
  di_operations_supported :: "u16 list"
  di_events_supported :: "u16 list"
  di_device_properties_supported :: "u16 list"
  di_capture_formats :: "u16 list"
  di_image_formats :: "u16 list"
  di_manufacturer :: ustring
  di_model :: ustring
  di_device_version :: ustring
  di_serial_number :: ustring

definition DeviceInfo_rd :: "DeviceInfo rd" where
  "DeviceInfo_rd =
    rd_bind rd_u16 (\<lambda>x0.
    rd_bind rd_u32 (\<lambda>x1.
    rd_bind rd_u16 (\<lambda>x2.
    rd_bind rd_ptp_string (\<lambda>x3.
    rd_bind rd_u16 (\<lambda>x4.
    rd_bind (rd_ptp_array rd_u16) (\<lambda>x5.
    rd_bind (rd_ptp_array rd_u16) (\<lambda>x6.
    rd_bind (rd_ptp_array rd_u16) (\<lambda>x7.
    rd_bind (rd_ptp_array rd_u16) (\<lambda>x8.
    rd_bind (rd_ptp_array rd_u16) (\<lambda>x9.
    rd_bind rd_ptp_string (\<lambda>x10.
    rd_bind rd_ptp_string (\<lambda>x11.
    rd_bind rd_ptp_string (\<lambda>x12.
    rd_bind rd_ptp_string (\<lambda>x13.
      rd_return \<lparr>di_standard_version = x0, di_vendor_extension_id = x1, 
        di_vendor_extension_version = x2, di_vendor_extension_desc = x3, 
        di_functional_mode = x4, di_operations_supported = x5, 
        di_events_supported = x6, di_device_properties_supported = x7, 
        di_capture_formats = x8, di_image_formats = x9, di_manufacturer = x10, 
        di_model = x11, di_device_version = x12, di_serial_number = x13\<rparr>))))))))))))))"

definition DeviceInfo_decode :: "bytes \<Rightarrow> DecodeError + DeviceInfo" where
  "DeviceInfo_decode bs =
    run_rd (rd_bind DeviceInfo_rd (\<lambda>v. rd_bind finish (\<lambda>_. rd_return v))) bs"

definition DeviceInfo_encode :: "DeviceInfo \<Rightarrow> wr" where
  "DeviceInfo_encode v =
    wr_then (wr_u16 (di_standard_version v)) (
    wr_then (wr_u32 (di_vendor_extension_id v)) (
    wr_then (wr_u16 (di_vendor_extension_version v)) (
    wr_then (wr_ptp_string (di_vendor_extension_desc v)) (
    wr_then (wr_u16 (di_functional_mode v)) (
    wr_then (wr_ptp_array wr_u16 (di_operations_supported v)) (
    wr_then (wr_ptp_array wr_u16 (di_events_supported v)) (
    wr_then (wr_ptp_array wr_u16 (di_device_properties_supported v)) (
    wr_then (wr_ptp_array wr_u16 (di_capture_formats v)) (
    wr_then (wr_ptp_array wr_u16 (di_image_formats v)) (
    wr_then (wr_ptp_string (di_manufacturer v)) (
    wr_then (wr_ptp_string (di_model v)) (
    wr_then (wr_ptp_string (di_device_version v)) (
    wr_ptp_string (di_serial_number v))))))))))))))"

definition valid_DeviceInfo :: "DeviceInfo \<Rightarrow> bool" where
  "valid_DeviceInfo v \<longleftrightarrow>
    valid_ptp_str (di_vendor_extension_desc v) \<and>
    length (di_operations_supported v) \<le> 2 ^ 24 \<and>
    length (di_events_supported v) \<le> 2 ^ 24 \<and>
    length (di_device_properties_supported v) \<le> 2 ^ 24 \<and>
    length (di_capture_formats v) \<le> 2 ^ 24 \<and>
    length (di_image_formats v) \<le> 2 ^ 24 \<and>
    valid_ptp_str (di_manufacturer v) \<and>
    valid_ptp_str (di_model v) \<and>
    valid_ptp_str (di_device_version v) \<and>
    valid_ptp_str (di_serial_number v)"

record StorageInfo =
  si_storage_type :: u16
  si_filesystem_type :: u16
  si_access_capability :: u16
  si_max_capacity :: u64
  si_free_space_bytes :: u64
  si_free_space_images :: u32
  si_storage_description :: ustring
  si_volume_label :: ustring

definition StorageInfo_rd :: "StorageInfo rd" where
  "StorageInfo_rd =
    rd_bind rd_u16 (\<lambda>x0.
    rd_bind rd_u16 (\<lambda>x1.
    rd_bind rd_u16 (\<lambda>x2.
    rd_bind rd_u64 (\<lambda>x3.
    rd_bind rd_u64 (\<lambda>x4.
    rd_bind rd_u32 (\<lambda>x5.
    rd_bind rd_ptp_string (\<lambda>x6.
    rd_bind rd_ptp_string (\<lambda>x7.
      rd_return \<lparr>si_storage_type = x0, si_filesystem_type = x1, 
        si_access_capability = x2, si_max_capacity = x3, 
        si_free_space_bytes = x4, si_free_space_images = x5, 
        si_storage_description = x6, si_volume_label = x7\<rparr>))))))))"

definition StorageInfo_decode :: "bytes \<Rightarrow> DecodeError + StorageInfo" where
  "StorageInfo_decode bs =
    run_rd (rd_bind StorageInfo_rd (\<lambda>v. rd_bind finish (\<lambda>_. rd_return v))) bs"

definition StorageInfo_encode :: "StorageInfo \<Rightarrow> wr" where
  "StorageInfo_encode v =
    wr_then (wr_u16 (si_storage_type v)) (
    wr_then (wr_u16 (si_filesystem_type v)) (
    wr_then (wr_u16 (si_access_capability v)) (
    wr_then (wr_u64 (si_max_capacity v)) (
    wr_then (wr_u64 (si_free_space_bytes v)) (
    wr_then (wr_u32 (si_free_space_images v)) (
    wr_then (wr_ptp_string (si_storage_description v)) (
    wr_ptp_string (si_volume_label v))))))))"

definition valid_StorageInfo :: "StorageInfo \<Rightarrow> bool" where
  "valid_StorageInfo v \<longleftrightarrow>
    valid_ptp_str (si_storage_description v) \<and>
    valid_ptp_str (si_volume_label v)"

section \<open>Property values\<close>

datatype PropValue =
    PV_I8 u8 | PV_U8 u8 | PV_I16 u16 | PV_U16 u16 | PV_I32 u32 | PV_U32 u32
  | PV_I64 u64 | PV_U64 u64 | PV_Str ustring

fun PropValue_datatype_code :: "PropValue \<Rightarrow> u16" where
  "PropValue_datatype_code (PV_I8 v) = 0x0001"
| "PropValue_datatype_code (PV_U8 v) = 0x0002"
| "PropValue_datatype_code (PV_I16 v) = 0x0003"
| "PropValue_datatype_code (PV_U16 v) = 0x0004"
| "PropValue_datatype_code (PV_I32 v) = 0x0005"
| "PropValue_datatype_code (PV_U32 v) = 0x0006"
| "PropValue_datatype_code (PV_I64 v) = 0x0007"
| "PropValue_datatype_code (PV_U64 v) = 0x0008"
| "PropValue_datatype_code (PV_Str v) = 0xffff"

definition PropValue_decode :: "u16 \<Rightarrow> PropValue rd" where
  "PropValue_decode datatype_raw =
    (if datatype_raw = 0x0001 then rd_bind rd_i8 (\<lambda>v. rd_return (PV_I8 v))
     else if datatype_raw = 0x0002 then rd_bind rd_u8 (\<lambda>v. rd_return (PV_U8 v))
     else if datatype_raw = 0x0003 then rd_bind rd_i16 (\<lambda>v. rd_return (PV_I16 v))
     else if datatype_raw = 0x0004 then rd_bind rd_u16 (\<lambda>v. rd_return (PV_U16 v))
     else if datatype_raw = 0x0005 then rd_bind rd_i32 (\<lambda>v. rd_return (PV_I32 v))
     else if datatype_raw = 0x0006 then rd_bind rd_u32 (\<lambda>v. rd_return (PV_U32 v))
     else if datatype_raw = 0x0007 then rd_bind rd_i64 (\<lambda>v. rd_return (PV_I64 v))
     else if datatype_raw = 0x0008 then rd_bind rd_u64 (\<lambda>v. rd_return (PV_U64 v))
     else if datatype_raw = 0xffff then rd_bind rd_ptp_string (\<lambda>v. rd_return (PV_Str v))
     else rd_fail (InvalidString ''unsupported prop datatype''))"

fun PropValue_encode :: "PropValue \<Rightarrow> wr" where
  "PropValue_encode (PV_I8 v) = wr_i8 v"
| "PropValue_encode (PV_U8 v) = wr_u8 v"
| "PropValue_encode (PV_I16 v) = wr_i16 v"
| "PropValue_encode (PV_U16 v) = wr_u16 v"
| "PropValue_encode (PV_I32 v) = wr_i32 v"
| "PropValue_encode (PV_U32 v) = wr_u32 v"
| "PropValue_encode (PV_I64 v) = wr_i64 v"
| "PropValue_encode (PV_U64 v) = wr_u64 v"
| "PropValue_encode (PV_Str s) = wr_ptp_string s"

fun valid_PropValue :: "PropValue \<Rightarrow> bool" where
  "valid_PropValue (PV_Str s) = valid_ptp_str s"
| "valid_PropValue v = True"

definition typed_as :: "u16 \<Rightarrow> PropValue \<Rightarrow> bool" where
  "typed_as datatype_raw v \<longleftrightarrow> PropValue_datatype_code v = datatype_raw \<and> valid_PropValue v"

section \<open>Property descriptors\<close>

datatype PropForm =
    PF_None
  | PF_Range PropValue PropValue PropValue   \<comment> \<open>min, max, step\<close>
  | PF_Enum "PropValue list"

record DevicePropDesc =
  dpd_code :: u16
  dpd_datatype :: u16
  dpd_get_set :: u8
  dpd_factory_default :: PropValue
  dpd_current :: PropValue
  dpd_form :: PropForm

definition PropForm_decode :: "u16 \<Rightarrow> PropForm rd" where
  "PropForm_decode datatype_raw =
    rd_bind rd_u8 (\<lambda>form_flag.
      if form_flag = 0 then rd_return PF_None
      else if form_flag = 1 then
        rd_bind (PropValue_decode datatype_raw) (\<lambda>lo.
          rd_bind (PropValue_decode datatype_raw) (\<lambda>hi.
            rd_bind (PropValue_decode datatype_raw) (\<lambda>step. rd_return (PF_Range lo hi step))))
      else if form_flag = 2 then
        rd_bind rd_u16 (\<lambda>count.
          rd_bind (rd_repeat (unat count) (PropValue_decode datatype_raw)) (\<lambda>values.
            rd_return (PF_Enum values)))
      else rd_fail (InvalidString ''unknown prop form flag''))"

definition DevicePropDesc_rd :: "DevicePropDesc rd" where
  "DevicePropDesc_rd =
    rd_bind rd_u16 (\<lambda>code.
    rd_bind rd_u16 (\<lambda>datatype_raw.
    rd_bind rd_u8 (\<lambda>get_set.
    rd_bind (PropValue_decode datatype_raw) (\<lambda>factory_default.
    rd_bind (PropValue_decode datatype_raw) (\<lambda>current.
    rd_bind (PropForm_decode datatype_raw) (\<lambda>form.
      rd_return \<lparr>dpd_code = code, dpd_datatype = datatype_raw, dpd_get_set = get_set,
        dpd_factory_default = factory_default, dpd_current = current, dpd_form = form\<rparr>))))))"

definition DevicePropDesc_decode :: "bytes \<Rightarrow> DecodeError + DevicePropDesc" where
  "DevicePropDesc_decode bs =
    run_rd (rd_bind DevicePropDesc_rd (\<lambda>v. rd_bind finish (\<lambda>_. rd_return v))) bs"

fun PropForm_encode :: "PropForm \<Rightarrow> wr" where
  "PropForm_encode PF_None = wr_u8 0"
| "PropForm_encode (PF_Range lo hi step) =
    wr_then (wr_u8 1) (wr_then (PropValue_encode lo)
      (wr_then (PropValue_encode hi) (PropValue_encode step)))"
| "PropForm_encode (PF_Enum values) =
    wr_then (wr_u8 2) (wr_then (wr_u16 (word_of_nat (length values)))
      (wr_each PropValue_encode values))"

definition DevicePropDesc_encode :: "DevicePropDesc \<Rightarrow> wr" where
  "DevicePropDesc_encode d =
    wr_then (wr_u16 (dpd_code d)) (
    wr_then (wr_u16 (dpd_datatype d)) (
    wr_then (wr_u8 (dpd_get_set d)) (
    wr_then (PropValue_encode (dpd_factory_default d)) (
    wr_then (PropValue_encode (dpd_current d)) (
    PropForm_encode (dpd_form d))))))"

fun valid_PropForm :: "u16 \<Rightarrow> PropForm \<Rightarrow> bool" where
  "valid_PropForm dt PF_None = True"
| "valid_PropForm dt (PF_Range lo hi step) = (typed_as dt lo \<and> typed_as dt hi \<and> typed_as dt step)"
| "valid_PropForm dt (PF_Enum values) = (length values < 2 ^ 16 \<and> list_all (typed_as dt) values)"

definition valid_DevicePropDesc :: "DevicePropDesc \<Rightarrow> bool" where
  "valid_DevicePropDesc d \<longleftrightarrow>
    typed_as (dpd_datatype d) (dpd_factory_default d) \<and>
    typed_as (dpd_datatype d) (dpd_current d) \<and>
    valid_PropForm (dpd_datatype d) (dpd_form d)"

section \<open>Round trips\<close>

text \<open>A dataset encoder into a fresh writer, as the engine calls it.\<close>

definition wr_run :: "wr \<Rightarrow> EncodeError + bytes" where
  "wr_run a = (case a [] of (Inl e, w) \<Rightarrow> Inl e | (Inr _, w) \<Rightarrow> Inr w)"

lemma carries_array_u16:
  "length xs \<le> 2 ^ 24 \<Longrightarrow> carries (wr_ptp_array wr_u16 xs) (rd_ptp_array rd_u16) xs"
  by (rule u16_codec.arr.law) (simp add: list_all_iff)

lemma ObjectInfo_carries: "valid_ObjectInfo v \<Longrightarrow> carries (ObjectInfo_encode v) ObjectInfo_rd v"
  unfolding ObjectInfo_encode_def ObjectInfo_rd_def valid_ObjectInfo_def
  by (intro carries_then carries_last) (rule carries_ints carries_ptp_string | simp)+

lemma DeviceInfo_carries: "valid_DeviceInfo v \<Longrightarrow> carries (DeviceInfo_encode v) DeviceInfo_rd v"
  unfolding DeviceInfo_encode_def DeviceInfo_rd_def valid_DeviceInfo_def
  by (intro carries_then carries_last) (rule carries_ints carries_ptp_string carries_array_u16 | simp)+

lemma StorageInfo_carries: "valid_StorageInfo v \<Longrightarrow> carries (StorageInfo_encode v) StorageInfo_rd v"
  unfolding StorageInfo_encode_def StorageInfo_rd_def valid_StorageInfo_def
  by (intro carries_then carries_last) (rule carries_ints carries_ptp_string | simp)+

lemma PropValue_carries:
  assumes "typed_as dt v"
  shows "carries (PropValue_encode v) (PropValue_decode dt) v"
  using assms
  by (cases v) (auto simp: typed_as_def PropValue_decode_def
      intro!: carries_last carries_ints carries_ptp_string)

interpretation propvalue: codec PropValue_encode "PropValue_decode dt" "typed_as dt" for dt
  by (rule codec.intro) (rule PropValue_carries)

lemma PropForm_carries:
  assumes "valid_PropForm dt f"
  shows "carries (PropForm_encode f) (PropForm_decode dt) f"
proof (cases f)
  case PF_None
  show ?thesis
    unfolding PF_None PropForm_decode_def PropForm_encode.simps
    using parses_bind [OF parses_u8 [of 0], of _ "[]" PF_None]
    by (intro carriesI [OF writes_ints(1)]) (simp add: parses_return)
next
  case (PF_Range lo hi step)
  then show ?thesis
    using assms unfolding PF_Range PropForm_decode_def PropForm_encode.simps
    by (intro carries_then [OF carries_ints(1)]) (auto intro!: carries_then carries_last PropValue_carries)
next
  case (PF_Enum vs)
  then have "unat (word_of_nat (length vs) :: u16) = length vs"
    using assms by (intro unat_of_nat_fits) simp
  then show ?thesis
    using assms propvalue.each_law [of dt vs]
    unfolding PF_Enum PropForm_decode_def PropForm_encode.simps
    by (intro carries_then [OF carries_ints(1)])
      (auto intro!: carries_then [OF carries_ints(2)] carries_last)
qed

lemma DevicePropDesc_carries:
  "valid_DevicePropDesc d \<Longrightarrow> carries (DevicePropDesc_encode d) DevicePropDesc_rd d"
  unfolding DevicePropDesc_encode_def DevicePropDesc_rd_def valid_DevicePropDesc_def
  by (intro carries_then carries_last) (rule carries_ints PropValue_carries PropForm_carries | simp)+

lemma dataset_law:
  assumes "carries a d x"
  shows "\<exists>bs. wr_run a = Inr bs \<and> run_rd (rd_bind d (\<lambda>v. rd_bind finish (\<lambda>_. rd_return v))) bs = Inr x"
proof -
  obtain bs where "writes a bs" "parses d bs x"
    using assms by (auto simp: carries_def)
  then have "wr_run a = Inr bs" "run_rd (rd_bind d (\<lambda>v. rd_bind finish (\<lambda>_. rd_return v))) bs = Inr x"
    using run_rd_ends [OF ends_then_finish [OF ends_parses, of d bs x "\<lambda>v. v"]]
    by (simp_all add: wr_run_def writesD)
  then show ?thesis by blast
qed

interpretation objectinfo: frame_codec "\<lambda>v. wr_run (ObjectInfo_encode v)" ObjectInfo_decode valid_ObjectInfo
  by unfold_locales (simp add: ObjectInfo_decode_def dataset_law [OF ObjectInfo_carries])

interpretation deviceinfo: frame_codec "\<lambda>v. wr_run (DeviceInfo_encode v)" DeviceInfo_decode valid_DeviceInfo
  by unfold_locales (simp add: DeviceInfo_decode_def dataset_law [OF DeviceInfo_carries])

interpretation storageinfo: frame_codec "\<lambda>v. wr_run (StorageInfo_encode v)" StorageInfo_decode valid_StorageInfo
  by unfold_locales (simp add: StorageInfo_decode_def dataset_law [OF StorageInfo_carries])

interpretation propdesc: frame_codec "\<lambda>v. wr_run (DevicePropDesc_encode v)" DevicePropDesc_decode valid_DevicePropDesc
  by unfold_locales (simp add: DevicePropDesc_decode_def dataset_law [OF DevicePropDesc_carries])

section \<open>Properties\<close>

definition sample_desc :: DevicePropDesc where
  "sample_desc = \<lparr>dpd_code = 0x5007, dpd_datatype = 0x0004, dpd_get_set = 1,
     dpd_factory_default = PV_U16 280, dpd_current = PV_U16 400,
     dpd_form = PF_Enum [PV_U16 280, PV_U16 400]\<rparr>"

definition sample_object :: ObjectInfo where
  "sample_object = \<lparr>oi_storage_id = 1, oi_object_format = 0x3801, oi_protection_status = 0,
     oi_object_compressed_size = 9, oi_thumb_format = 0, oi_thumb_compressed_size = 0,
     oi_thumb_pix_width = 0, oi_thumb_pix_height = 0, oi_image_pix_width = 0,
     oi_image_pix_height = 0, oi_image_bit_depth = 0, oi_parent_object = 0,
     oi_association_type = 0, oi_association_desc = 0, oi_sequence_number = 0,
     oi_filename = [65], oi_capture_date = [], oi_modification_date = [], oi_keywords = []\<rparr>"

definition sample_device :: DeviceInfo where
  "sample_device = \<lparr>di_standard_version = 100, di_vendor_extension_id = 0,
     di_vendor_extension_version = 0, di_vendor_extension_desc = [], di_functional_mode = 0,
     di_operations_supported = [0x1001, 0x1002], di_events_supported = [],
     di_device_properties_supported = [0x5007], di_capture_formats = [], di_image_formats = [],
     di_manufacturer = [70], di_model = [], di_device_version = [], di_serial_number = []\<rparr>"

definition sample_storage :: StorageInfo where
  "sample_storage = \<lparr>si_storage_type = 4, si_filesystem_type = 3, si_access_capability = 0,
     si_max_capacity = 1000, si_free_space_bytes = 500, si_free_space_images = 0,
     si_storage_description = [], si_volume_label = [67]\<rparr>"

text \<open>C21: a property descriptor whose values all have the declared datatype, whose strings fit and
  whose enumeration has fewer than 65536 members is encoded without error and decoded back
  unchanged, whatever its form.\<close>
theorem propdesc_round_trip:
  assumes "valid_DevicePropDesc d"
  shows "\<exists>bs. wr_run (DevicePropDesc_encode d) = Inr bs \<and> DevicePropDesc_decode bs = Inr d"
  using assms by (rule propdesc.frame_law)

theorem propdesc_round_trip_witness:
  "valid_DevicePropDesc sample_desc \<and>
   (\<exists>bs. wr_run (DevicePropDesc_encode sample_desc) = Inr bs \<and> DevicePropDesc_decode bs = Inr sample_desc)"
proof -
  have v: "valid_DevicePropDesc sample_desc"
    by (simp add: sample_desc_def valid_DevicePropDesc_def typed_as_def)
  then show ?thesis
    using propdesc_round_trip [OF v] by simp
qed

text \<open>C22: object, device and storage descriptions whose strings and arrays fit the format survive
  encoding and decoding unchanged.\<close>
theorem dataset_round_trips:
  assumes "valid_ObjectInfo a" "valid_DeviceInfo b" "valid_StorageInfo c"
  shows "(\<exists>bs. wr_run (ObjectInfo_encode a) = Inr bs \<and> ObjectInfo_decode bs = Inr a) \<and>
    (\<exists>bs. wr_run (DeviceInfo_encode b) = Inr bs \<and> DeviceInfo_decode bs = Inr b) \<and>
    (\<exists>bs. wr_run (StorageInfo_encode c) = Inr bs \<and> StorageInfo_decode bs = Inr c)"
  using objectinfo.frame_law [OF assms(1)] deviceinfo.frame_law [OF assms(2)]
    storageinfo.frame_law [OF assms(3)] by blast

theorem dataset_round_trips_witness:
  "valid_ObjectInfo sample_object \<and> valid_DeviceInfo sample_device \<and> valid_StorageInfo sample_storage \<and>
   (\<exists>bs. wr_run (ObjectInfo_encode sample_object) = Inr bs \<and> ObjectInfo_decode bs = Inr sample_object) \<and>
   (\<exists>bs. wr_run (DeviceInfo_encode sample_device) = Inr bs \<and> DeviceInfo_decode bs = Inr sample_device) \<and>
   (\<exists>bs. wr_run (StorageInfo_encode sample_storage) = Inr bs \<and> StorageInfo_decode bs = Inr sample_storage)"
proof -
  have o: "valid_ObjectInfo sample_object"
    by (simp add: sample_object_def valid_ObjectInfo_def valid_ptp_str_def str_fits_def valid_str_def
        scalar_value_def encode_utf16_def encode_char_utf16_def)
  have d: "valid_DeviceInfo sample_device"
    by (simp add: sample_device_def valid_DeviceInfo_def valid_ptp_str_def str_fits_def valid_str_def
        scalar_value_def encode_utf16_def encode_char_utf16_def)
  have s: "valid_StorageInfo sample_storage"
    by (simp add: sample_storage_def valid_StorageInfo_def valid_ptp_str_def str_fits_def valid_str_def
        scalar_value_def encode_utf16_def encode_char_utf16_def)
  show ?thesis
    using o d s dataset_round_trips [OF o d s] by simp
qed

end
