(* ===== verification/Record_Stream.thy ===== *)
theory Record_Stream
  imports Ptp_Dataset
begin

text \<open>
  Record streams, \<^verbatim>\<open>crates/protocol-primitives/src/quirk.rs\<close>: the fixed-width
  \<open>record_stream\<close>, the heterogeneous \<open>typed_record_stream\<close> and its decoder, which falls
  back to a bounded search over possible widths when a member is not declared.

  Field widths are naturals (the source's \<^verbatim>\<open>u8\<close>; layouts admit only 1, 2 and 4). The
  member table is a map. The recursive search carries the number of records still to
  read instead of an index compared with the count. The search result is a value of
  \<open>outcome option\<close>: \<^const>\<open>None\<close> is the panic of the \<^verbatim>\<open>expect\<close> call.
\<close>

section \<open>Descriptors\<close>

datatype RecordValueEncoding = RVE_Fixed nat | RVE_Signed nat | RVE_PtpString

datatype RecordStreamError =
    UnsupportedWidths nat nat nat          \<comment> \<open>count, code, value\<close>
  | RS_Overflow string nat nat             \<comment> \<open>field, value, width\<close>
  | NegativeFixedValue u16 int nat         \<comment> \<open>code, value, width\<close>
  | SignedOverflow u16 int nat             \<comment> \<open>code, value, width\<close>
  | UndeclaredMember u16
  | DuplicateMember u16
  | ValueTypeMismatch u16 RecordValueEncoding
  | RS_Decode DecodeError
  | RS_Encode EncodeError

record RecordStreamLayout =
  count_width :: nat
  code_width :: nat
  value_width :: nat

record RecordStreamDescriptor =
  layout :: RecordStreamLayout
  members :: "u16 \<rightharpoonup> RecordValueEncoding"

definition D212 :: RecordStreamLayout where
  "D212 = \<lparr>count_width = 2, code_width = 2, value_width = 4\<rparr>"

definition layout_new :: "nat \<Rightarrow> nat \<Rightarrow> nat \<Rightarrow> RecordStreamError + RecordStreamLayout" where
  "layout_new count code v =
    (if count \<notin> {1, 2, 4} \<or> code \<notin> {1, 2} \<or> v \<notin> {1, 2, 4}
     then Inl (UnsupportedWidths count code v)
     else Inr \<lparr>count_width = count, code_width = code, value_width = v\<rparr>)"

fun insert_members ::
  "RecordStreamLayout \<Rightarrow> (u16 \<times> RecordValueEncoding) list \<Rightarrow> (u16 \<rightharpoonup> RecordValueEncoding) \<Rightarrow>
    RecordStreamError + (u16 \<rightharpoonup> RecordValueEncoding)" where
  "insert_members lay [] resolved = Inr resolved"
| "insert_members lay ((code, encoding) # ms) resolved =
    (if code_width lay = 1 \<and> unat code > 255
     then Inl (RS_Overflow ''prop code'' (unat code) (code_width lay))
     else case encoding of
       RVE_Fixed width \<Rightarrow>
         if width \<notin> {1, 2, 4} then Inl (UnsupportedWidths (count_width lay) (code_width lay) width)
         else if resolved code \<noteq> None then Inl (DuplicateMember code)
         else insert_members lay ms (resolved(code \<mapsto> encoding))
     | RVE_Signed width \<Rightarrow>
         if width \<notin> {1, 2, 4} then Inl (UnsupportedWidths (count_width lay) (code_width lay) width)
         else if resolved code \<noteq> None then Inl (DuplicateMember code)
         else insert_members lay ms (resolved(code \<mapsto> encoding))
     | RVE_PtpString \<Rightarrow>
         if resolved code \<noteq> None then Inl (DuplicateMember code)
         else insert_members lay ms (resolved(code \<mapsto> encoding)))"

definition descriptor_new ::
  "RecordStreamLayout \<Rightarrow> (u16 \<times> RecordValueEncoding) list \<Rightarrow>
    RecordStreamError + RecordStreamDescriptor" where
  "descriptor_new lay ms =
    res_bind (insert_members lay ms Map.empty) (\<lambda>resolved. Inr \<lparr>layout = lay, members = resolved\<rparr>)"

section \<open>Fields\<close>

definition max_for :: "nat \<Rightarrow> nat" where
  "max_for width = 2 ^ (width * 8) - 1"

definition write_le :: "nat \<Rightarrow> nat \<Rightarrow> bytes" where
  "write_le v width = le_enc width v"

definition read_le :: "nat \<Rightarrow> nat rd" where
  "read_le width =
    (if width = 1 then rd_bind rd_u8 (\<lambda>v. rd_return (unat v))
     else if width = 2 then rd_bind rd_u16 (\<lambda>v. rd_return (unat v))
     else rd_bind rd_u32 (\<lambda>v. rd_return (unat v)))"

datatype NumericValue = NV_Unsigned nat | NV_Negative int | NV_NotNumeric

definition signed_numeric_value :: "int \<Rightarrow> NumericValue" where
  "signed_numeric_value v = (if v < 0 then NV_Negative v else NV_Unsigned (nat v))"

fun numeric_value :: "PropValue \<Rightarrow> NumericValue" where
  "numeric_value (PV_I8 v) = signed_numeric_value (sint v)"
| "numeric_value (PV_U8 v) = NV_Unsigned (unat v)"
| "numeric_value (PV_I16 v) = signed_numeric_value (sint v)"
| "numeric_value (PV_U16 v) = NV_Unsigned (unat v)"
| "numeric_value (PV_I32 v) = signed_numeric_value (sint v)"
| "numeric_value (PV_U32 v) = NV_Unsigned (unat v)"
| "numeric_value (PV_I64 v) = signed_numeric_value (sint v)"
| "numeric_value (PV_U64 v) = NV_Unsigned (unat v)"
| "numeric_value (PV_Str s) = NV_NotNumeric"

fun accepts_value :: "RecordValueEncoding \<Rightarrow> PropValue \<Rightarrow> bool" where
  "accepts_value (RVE_Fixed w) v = (case numeric_value v of NV_Unsigned _ \<Rightarrow> True | _ \<Rightarrow> False)"
| "accepts_value (RVE_Signed w) v = (numeric_value v \<noteq> NV_NotNumeric)"
| "accepts_value RVE_PtpString v = (case v of PV_Str _ \<Rightarrow> True | _ \<Rightarrow> False)"

definition write_ptp_string :: "ustring \<Rightarrow> EncodeError + bytes" where
  "write_ptp_string s =
    (if s = [] then Inr [1, 0, 0]
     else case wr_ptp_string s [] of (Inl e, w) \<Rightarrow> Inl e | (Inr _, w) \<Rightarrow> Inr w)"

section \<open>Encoding\<close>

fun write_record_value ::
  "u16 \<Rightarrow> RecordValueEncoding \<Rightarrow> PropValue \<Rightarrow> RecordStreamError + bytes" where
  "write_record_value code (RVE_Fixed width) v =
    (case numeric_value v of
       NV_Unsigned n \<Rightarrow>
         if n > max_for width then Inl (RS_Overflow ''value'' n width) else Inr (write_le n width)
     | NV_Negative i \<Rightarrow> Inl (NegativeFixedValue code i width)
     | NV_NotNumeric \<Rightarrow> Inl (ValueTypeMismatch code (RVE_Fixed width)))"
| "write_record_value code (RVE_Signed width) v =
    (case numeric_value v of
       NV_NotNumeric \<Rightarrow> Inl (ValueTypeMismatch code (RVE_Signed width))
     | nv \<Rightarrow>
         let i = (case nv of NV_Unsigned n \<Rightarrow> int n | NV_Negative i \<Rightarrow> i | NV_NotNumeric \<Rightarrow> 0);
             bits = width * 8 in
         if i < - (2 ^ (bits - 1)) \<or> i > 2 ^ (bits - 1) - 1 then Inl (SignedOverflow code i width)
         else Inr (write_le (nat (i mod 2 ^ 64)) width))"
| "write_record_value code RVE_PtpString v =
    (case v of
       PV_Str s \<Rightarrow> (case write_ptp_string s of Inl e \<Rightarrow> Inl (RS_Encode e) | Inr bs \<Rightarrow> Inr bs)
     | _ \<Rightarrow> Inl (ValueTypeMismatch code RVE_PtpString))"

fun write_records ::
  "RecordStreamDescriptor \<Rightarrow> (u16 \<times> PropValue) list \<Rightarrow> RecordStreamError + bytes" where
  "write_records d [] = Inr []"
| "write_records d ((code, v) # rs) =
    (case members d code of
       None \<Rightarrow> Inl (UndeclaredMember code)
     | Some encoding \<Rightarrow>
         res_bind (write_record_value code encoding v) (\<lambda>bs.
           res_bind (write_records d rs) (\<lambda>more.
             Inr (write_le (unat code) (code_width (layout d)) @ bs @ more))))"

definition typed_record_stream ::
  "(u16 \<times> PropValue) list \<Rightarrow> RecordStreamDescriptor \<Rightarrow> RecordStreamError + bytes" where
  "typed_record_stream records d =
    (if length records > max_for (count_width (layout d))
     then Inl (RS_Overflow ''record count'' (length records) (count_width (layout d)))
     else res_bind (write_records d records) (\<lambda>body.
       Inr (write_le (length records) (count_width (layout d)) @ body)))"

section \<open>Decoding\<close>

datatype RecordStreamDiagnostic = SkippedUndeclaredMember u16 u32   \<comment> \<open>code, value\<close>

record DecodedRecordStream =
  ds_records :: "(u16 \<times> PropValue) list"
  ds_diagnostics :: "RecordStreamDiagnostic list"

type_synonym outcome = "RecordStreamError + DecodedRecordStream"

definition REFRAME_STATE_BUDGET :: nat where
  "REFRAME_STATE_BUDGET = 4096"

fun read_record_value :: "RecordValueEncoding \<Rightarrow> PropValue rd" where
  "read_record_value (RVE_Fixed width) = rd_bind (read_le width) (\<lambda>v. rd_return (PV_U32 (word_of_nat v)))"
| "read_record_value (RVE_Signed width) =
    (if width = 1 then rd_bind rd_i8 (\<lambda>v. rd_return (PV_I8 v))
     else if width = 2 then rd_bind rd_i16 (\<lambda>v. rd_return (PV_I16 v))
     else rd_bind rd_i32 (\<lambda>v. rd_return (PV_I32 v)))"
| "read_record_value RVE_PtpString = rd_bind rd_ptp_string (\<lambda>v. rd_return (PV_Str v))"

text \<open>
  The strict walk. The result \<^const>\<open>None\<close> hands the payload to the search; the records are
  returned in order.
\<close>

fun walk_declared ::
  "RecordStreamDescriptor \<Rightarrow> nat \<Rightarrow> reader \<Rightarrow> (DecodeError + (u16 \<times> PropValue) list) option" where
  "walk_declared d 0 r = Some (Inr [])"
| "walk_declared d (Suc n) r =
    (case read_le (code_width (layout d)) r of
       Inl e \<Rightarrow> Some (Inl e)
     | Inr (code, r1) \<Rightarrow>
         (case members d (word_of_nat code) of
            None \<Rightarrow> None
          | Some encoding \<Rightarrow>
              (case read_record_value encoding r1 of
                 Inl e \<Rightarrow> Some (Inl e)
               | Inr (v, r2) \<Rightarrow>
                   (case walk_declared d n r2 of
                      None \<Rightarrow> None
                    | Some (Inl e) \<Rightarrow> Some (Inl e)
                    | Some (Inr rs) \<Rightarrow> Some (Inr ((word_of_nat code, v) # rs))))))"

definition walk_declared_only :: "bytes \<Rightarrow> RecordStreamDescriptor \<Rightarrow> nat \<Rightarrow> outcome option" where
  "walk_declared_only body d count =
    (case walk_declared d count (Reader_new body) of
       None \<Rightarrow> None
     | Some (Inl e) \<Rightarrow> Some (Inl (RS_Decode e))
     | Some (Inr rs) \<Rightarrow> Some (Inr \<lparr>ds_records = rs, ds_diagnostics = []\<rparr>))"

record CandidateWalk =
  cw_records :: "(u16 \<times> PropValue) list"
  cw_diagnostics :: "RecordStreamDiagnostic list"
  cw_undeclared :: nat

record ReframeSearch =
  best :: "CandidateWalk option"
  tie :: bool
  states :: nat
  exhausted :: bool
  first_undeclared :: "u16 option"

definition pruned :: "CandidateWalk \<Rightarrow> ReframeSearch \<Rightarrow> bool" where
  "pruned w s \<longleftrightarrow>
    (case best s of None \<Rightarrow> False
     | Some b \<Rightarrow> cw_undeclared w > cw_undeclared b \<or> tie s \<and> cw_undeclared w = cw_undeclared b)"

definition arrive :: "CandidateWalk \<Rightarrow> ReframeSearch \<Rightarrow> ReframeSearch" where
  "arrive w s =
    (case best s of
       None \<Rightarrow> s\<lparr>best := Some w\<rparr>
     | Some b \<Rightarrow>
         if cw_undeclared w < cw_undeclared b then s\<lparr>best := Some w, tie := False\<rparr>
         else s\<lparr>tie := True\<rparr>)"

definition push_record :: "u16 \<Rightarrow> PropValue \<Rightarrow> CandidateWalk \<Rightarrow> CandidateWalk" where
  "push_record code v w = w\<lparr>cw_records := cw_records w @ [(code, v)]\<rparr>"

definition push_skip :: "u16 \<Rightarrow> nat \<Rightarrow> CandidateWalk \<Rightarrow> CandidateWalk" where
  "push_skip code v w =
    w\<lparr>cw_undeclared := cw_undeclared w + 1,
      cw_diagnostics := cw_diagnostics w @ [SkippedUndeclaredMember code (word_of_nat v)]\<rparr>"

definition note_undeclared :: "u16 \<Rightarrow> ReframeSearch \<Rightarrow> ReframeSearch" where
  "note_undeclared code s =
    (if first_undeclared s = None then s\<lparr>first_undeclared := Some code\<rparr> else s)"

definition count_state :: "ReframeSearch \<Rightarrow> ReframeSearch" where
  "count_state s = s\<lparr>states := states s + 1\<rparr>"

fun search_walk ::
  "RecordStreamDescriptor \<Rightarrow> nat \<Rightarrow> bytes \<Rightarrow> CandidateWalk \<Rightarrow> ReframeSearch \<Rightarrow> ReframeSearch" where
  "search_walk d n body w s0 =
    (if states s0 \<ge> REFRAME_STATE_BUDGET then s0\<lparr>exhausted := True\<rparr>
     else
       let s = count_state s0 in
       if pruned w s then s
       else case n of
         0 \<Rightarrow> if body \<noteq> [] then s else arrive w s
       | Suc m \<Rightarrow>
           (case read_le (code_width (layout d)) (Reader_new body) of
              Inl e \<Rightarrow> s
            | Inr (code0, r) \<Rightarrow>
                let code = word_of_nat code0; after_code = drop (pos r) body in
                (case members d code of
                   Some encoding \<Rightarrow>
                     (case read_record_value encoding (Reader_new after_code) of
                        Inl e \<Rightarrow> s
                      | Inr (v, vr) \<Rightarrow>
                          search_walk d m (drop (pos vr) after_code) (push_record code v w) s)
                 | None \<Rightarrow>
                     let s1 = note_undeclared code s;
                         s2 = (case read_le 1 (Reader_new after_code) of
                                 Inl e \<Rightarrow> s1
                               | Inr (v, br) \<Rightarrow>
                                   search_walk d m (drop (pos br) after_code) (push_skip code v w) s1);
                         s3 = (case read_le 2 (Reader_new after_code) of
                                 Inl e \<Rightarrow> s2
                               | Inr (v, br) \<Rightarrow>
                                   search_walk d m (drop (pos br) after_code) (push_skip code v w) s2)
                     in (case read_le 4 (Reader_new after_code) of
                           Inl e \<Rightarrow> s3
                         | Inr (v, br) \<Rightarrow>
                             search_walk d m (drop (pos br) after_code) (push_skip code v w) s3))))"

declare search_walk.simps [simp del]

definition search_start :: ReframeSearch where
  "search_start = \<lparr>best = None, tie = False, states = 0, exhausted = False, first_undeclared = None\<rparr>"

definition empty_walk :: CandidateWalk where
  "empty_walk = \<lparr>cw_records = [], cw_diagnostics = [], cw_undeclared = 0\<rparr>"

definition search_result :: "ReframeSearch \<Rightarrow> outcome option" where
  "search_result s =
    (case best s of
       Some w \<Rightarrow>
         if \<not> tie s \<and> \<not> exhausted s
         then Some (Inr \<lparr>ds_records = cw_records w, ds_diagnostics = cw_diagnostics w\<rparr>)
         else map_option (\<lambda>code. Inl (UndeclaredMember code)) (first_undeclared s)
     | None \<Rightarrow> map_option (\<lambda>code. Inl (UndeclaredMember code)) (first_undeclared s))"

definition reframe_undeclared :: "bytes \<Rightarrow> RecordStreamDescriptor \<Rightarrow> nat \<Rightarrow> outcome option" where
  "reframe_undeclared body d count = search_result (search_walk d count body empty_walk search_start)"

definition parse_typed_record_stream :: "bytes \<Rightarrow> RecordStreamDescriptor \<Rightarrow> outcome option" where
  "parse_typed_record_stream bs d =
    (case read_le (count_width (layout d)) (Reader_new bs) of
       Inl e \<Rightarrow> Some (Inl (RS_Decode e))
     | Inr (count, r) \<Rightarrow>
         let body = drop (pos r) bs in
         (case walk_declared_only body d count of
            Some result \<Rightarrow> Some result
          | None \<Rightarrow> reframe_undeclared body d count))"

section \<open>Fixed-width streams\<close>

fun write_fixed_records ::
  "RecordStreamLayout \<Rightarrow> (u16 \<times> u32) list \<Rightarrow> RecordStreamError + bytes" where
  "write_fixed_records lay [] = Inr []"
| "write_fixed_records lay ((code, v) # rs) =
    (if unat code > max_for (code_width lay)
     then Inl (RS_Overflow ''prop code'' (unat code) (code_width lay))
     else if unat v > max_for (value_width lay)
     then Inl (RS_Overflow ''value'' (unat v) (value_width lay))
     else res_bind (write_fixed_records lay rs) (\<lambda>more.
       Inr (write_le (unat code) (code_width lay) @ write_le (unat v) (value_width lay) @ more)))"

definition record_stream :: "(u16 \<times> u32) list \<Rightarrow> RecordStreamLayout \<Rightarrow> RecordStreamError + bytes" where
  "record_stream records lay =
    (if length records > max_for (count_width lay)
     then Inl (RS_Overflow ''record count'' (length records) (count_width lay))
     else res_bind (write_fixed_records lay records) (\<lambda>body.
       Inr (write_le (length records) (count_width lay) @ body)))"

definition read_fixed_record :: "RecordStreamLayout \<Rightarrow> (u16 \<times> u32) rd" where
  "read_fixed_record lay =
    rd_bind (read_le (code_width lay)) (\<lambda>code.
      rd_bind (read_le (value_width lay)) (\<lambda>v. rd_return (word_of_nat code, word_of_nat v)))"

definition parse_record_stream :: "bytes \<Rightarrow> RecordStreamLayout \<Rightarrow> DecodeError + (u16 \<times> u32) list" where
  "parse_record_stream bs lay =
    run_rd (rd_bind (read_le (count_width lay)) (\<lambda>count.
      rd_repeat count (read_fixed_record lay))) bs"

section \<open>Round trips\<close>

definition field_width :: "nat \<Rightarrow> bool" where
  "field_width w \<longleftrightarrow> w = 1 \<or> w = 2 \<or> w = 4"

lemma max_for_less: "v \<le> max_for w \<longleftrightarrow> v < 256 ^ w"
proof -
  have "(2 :: nat) ^ (w * 8) = 256 ^ w"
    by (simp add: mult.commute [of w] power_mult)
  then show ?thesis
    by (simp add: max_for_def) (metis One_nat_def Suc_pred' less_Suc_eq_le zero_less_numeral zero_less_power)
qed

lemma parses_read_le:
  assumes "field_width w" "v \<le> max_for w"
  shows "parses (read_le w) (write_le v w) v"
proof -
  consider "w = 1" "v < 256" | "w = 2" "v < 65536" | "w = 4" "v < 4294967296"
    using assms by (auto simp: field_width_def max_for_less)
  then show ?thesis
  proof cases
    case 1
    then show ?thesis
      using parses_bind_return [OF parses_u8, of unat "word_of_nat v"]
      by (simp add: read_le_def write_le_def unat_of_nat)
  next
    case 2
    then show ?thesis
      using parses_bind_return [OF parses_u16, of unat "word_of_nat v"]
      by (simp add: read_le_def write_le_def u16_le_def unat_of_nat)
  next
    case 3
    then show ?thesis
      using parses_bind_return [OF parses_u32, of unat "word_of_nat v"]
      by (simp add: read_le_def write_le_def u32_le_def unat_of_nat)
  qed
qed

definition valid_layout :: "RecordStreamLayout \<Rightarrow> bool" where
  "valid_layout lay \<longleftrightarrow> field_width (count_width lay) \<and> (code_width lay = 1 \<or> code_width lay = 2) \<and>
    field_width (value_width lay)"

lemma layout_new_valid: "layout_new a b c = Inr lay \<Longrightarrow> valid_layout lay"
  by (auto simp: layout_new_def valid_layout_def field_width_def split: if_splits)

lemma code_field: "code_width lay = 1 \<or> code_width lay = 2 \<Longrightarrow> field_width (code_width lay)"
  by (auto simp: field_width_def)

lemma parses_repeat_Cons:
  assumes "parses d bs x" "parses (rd_repeat n d) cs xs"
  shows "parses (rd_repeat (Suc n) d) (bs @ cs) (x # xs)"
  unfolding rd_repeat.simps by (rule parses_bind [OF assms(1)]) (rule parses_last [OF assms(2) refl])

lemma parses_fixed_records:
  assumes "write_fixed_records lay rs = Inr bs" "valid_layout lay"
  shows "parses (rd_repeat (length rs) (read_fixed_record lay)) bs rs"
  using assms(1)
proof (induction rs arbitrary: bs)
  case Nil
  then show ?case
    by (simp add: parses_return)
next
  case (Cons rec rs)
  obtain code v where rec: "rec = (code, v)"
    by (cases rec)
  obtain more where more: "write_fixed_records lay rs = Inr more"
    and fits: "unat code \<le> max_for (code_width lay)" "unat v \<le> max_for (value_width lay)"
    and bs: "bs = write_le (unat code) (code_width lay) @ write_le (unat v) (value_width lay) @ more"
    using Cons.prems by (auto simp: rec res_bind_Inr_iff split: if_splits)
  have "field_width (code_width lay)" "field_width (value_width lay)"
    using assms(2) by (auto simp: valid_layout_def code_field)
  then have "parses (read_fixed_record lay)
      (write_le (unat code) (code_width lay) @ write_le (unat v) (value_width lay)) (code, v)"
    unfolding read_fixed_record_def using fits
    by (intro parses_bind [OF parses_read_le] parses_last [OF parses_read_le]) simp_all
  then show ?case
    using parses_repeat_Cons [OF _ Cons.IH [OF more]] by (fastforce simp: bs rec)
qed

lemma record_stream_parses:
  assumes "record_stream rs lay = Inr bs" "valid_layout lay"
  shows "parse_record_stream (bs @ extra) lay = Inr rs"
proof -
  obtain body where body: "write_fixed_records lay rs = Inr body"
    and count: "length rs \<le> max_for (count_width lay)"
    and bs: "bs = write_le (length rs) (count_width lay) @ body"
    using assms(1) by (auto simp: record_stream_def res_bind_Inr_iff split: if_splits)
  have "parses (rd_bind (read_le (count_width lay)) (\<lambda>count. rd_repeat count (read_fixed_record lay))) bs rs"
    unfolding bs using assms(2) count
    by (intro parses_bind [OF parses_read_le] parses_fixed_records [OF body]) (simp_all add: valid_layout_def)
  from parsesD [OF this, of "Reader_new (bs @ extra)" extra] show ?thesis
    by (simp add: parse_record_stream_def run_rd_def)
qed

text \<open>
  What the decoder returns for an accepted value: unsigned members come back as 32-bit
  values, signed members at their payload width, strings unchanged.
\<close>

definition numeric_int :: "PropValue \<Rightarrow> int" where
  "numeric_int v = (case numeric_value v of NV_Unsigned n \<Rightarrow> int n | NV_Negative i \<Rightarrow> i | NV_NotNumeric \<Rightarrow> 0)"

fun payload_value :: "RecordValueEncoding \<Rightarrow> PropValue \<Rightarrow> PropValue" where
  "payload_value (RVE_Fixed w) v = PV_U32 (word_of_int (numeric_int v))"
| "payload_value (RVE_Signed w) v =
    (if w = 1 then PV_I8 (word_of_int (numeric_int v))
     else if w = 2 then PV_I16 (word_of_int (numeric_int v))
     else PV_I32 (word_of_int (numeric_int v)))"
| "payload_value RVE_PtpString v = v"

fun valid_encoding :: "RecordValueEncoding \<Rightarrow> bool" where
  "valid_encoding (RVE_Fixed w) = field_width w"
| "valid_encoding (RVE_Signed w) = field_width w"
| "valid_encoding RVE_PtpString = True"

definition member_ok :: "RecordStreamLayout \<Rightarrow> u16 \<Rightarrow> RecordValueEncoding \<Rightarrow> bool" where
  "member_ok lay code e \<longleftrightarrow> valid_encoding e \<and> (code_width lay = 1 \<longrightarrow> unat code \<le> 255)"

definition valid_descriptor :: "RecordStreamDescriptor \<Rightarrow> bool" where
  "valid_descriptor d \<longleftrightarrow> valid_layout (layout d) \<and>
    (\<forall>code e. members d code = Some e \<longrightarrow> member_ok (layout d) code e)"

lemma insert_members_Cons:
  assumes "insert_members lay ((code, e) # ms) m0 = Inr m"
  shows "member_ok lay code e \<and> insert_members lay ms (m0(code \<mapsto> e)) = Inr m"
  using assms by (cases e) (auto simp: member_ok_def field_width_def not_less split: if_splits)

lemma insert_members_valid:
  assumes "insert_members lay ms m0 = Inr m" "\<forall>code e. m0 code = Some e \<longrightarrow> member_ok lay code e"
  shows "\<forall>code e. m code = Some e \<longrightarrow> member_ok lay code e"
  using assms
proof (induction ms arbitrary: m0)
  case (Cons rec ms)
  obtain c e where rec: "rec = (c, e)"
    by (cases rec)
  note step = insert_members_Cons [OF Cons.prems(1) [unfolded rec]]
  show ?case
    by (rule Cons.IH [OF conjunct2 [OF step]]) (use step Cons.prems(2) in auto)
qed simp

lemma descriptor_new_valid:
  assumes "descriptor_new lay ms = Inr d" "valid_layout lay"
  shows "valid_descriptor d"
  using assms insert_members_valid [of lay ms Map.empty "members d"]
  by (auto simp: descriptor_new_def res_bind_Inr_iff valid_descriptor_def)

lemma write_ptp_string_parses:
  assumes "write_ptp_string s = Inr bs" "valid_str s"
  shows "parses rd_ptp_string bs s"
proof (cases "s = []")
  case True
  have "rd_ptp_string r = Inr ([], advance 3 r)" if "unread r = [1, 0, 0] @ ys" for r ys
  proof -
    have "rd_u8 r = Inr (1, advance 1 r)"
      using parsesD [OF parses_u8, of r 1] that by simp
    moreover have "u16_le 0 = [0, 0]"
      by (simp add: u16_le_def numeral_2_eq_2)
    then have "rd_u16 (advance 1 r) = Inr (0, advance 2 (advance 1 r))"
      using parsesD [OF parses_u16, of "advance 1 r" 0 ys] that by simp
    ultimately show ?thesis
      by (simp add: rd_ptp_string_def rd_bind_def rd_return_def pop_nul_def)
  qed
  then show ?thesis
    using assms True by (auto simp: write_ptp_string_def parses_def)
next
  case False
  have "str_fits s"
  proof (rule ccontr)
    assume "\<not> str_fits s"
    then show False
      using assms(1) False wr_ptp_string_too_long [of s "[]"] by (simp add: write_ptp_string_def)
  qed
  moreover from this have "bs = str_wire s"
    using assms(1) False writesD [OF writes_ptp_string, of s "[]"] by (simp add: write_ptp_string_def)
  ultimately show ?thesis
    using assms(2) parses_ptp_string by (simp add: valid_ptp_str_def)
qed

lemma le_dec_inj: "length xs = length ys \<Longrightarrow> le_dec xs = le_dec ys \<Longrightarrow> xs = ys"
  by (metis le_enc_le_dec)

lemma nat_mod_power:
  assumes "k \<le> 64"
  shows "nat (i mod 2 ^ 64) mod 2 ^ k = nat (i mod 2 ^ k)"
proof -
  have "(2 :: int) ^ k dvd 2 ^ 64"
    using assms by (rule le_imp_power_dvd)
  then have "(i mod 2 ^ 64) mod 2 ^ k = i mod 2 ^ k"
    by (rule mod_mod_cancel)
  moreover have "nat (i mod 2 ^ 64) mod nat (2 ^ k) = nat ((i mod 2 ^ 64) mod 2 ^ k)"
    by (rule nat_mod_distrib [symmetric]) simp_all
  ultimately show ?thesis
    by (simp add: nat_power_eq)
qed

lemma unat_word_of_int: "unat (word_of_int i :: 'a::len word) = nat (i mod 2 ^ LENGTH('a))"
  by (simp add: unsigned_of_int take_bit_eq_mod)

lemma le_dec_write_le:
  assumes "w \<le> 8"
  shows "le_dec (write_le (nat (i mod 2 ^ 64)) w) = nat (i mod 2 ^ (8 * w))"
proof -
  have "(256 :: nat) ^ w = 2 ^ (8 * w)"
    by (simp add: power_mult)
  then show ?thesis
    using assms nat_mod_power [of "8 * w" i] unfolding write_le_def le_dec_le_enc by simp
qed

lemma write_le_signed:
  "write_le (nat (i mod 2 ^ 64)) 1 = [word_of_int i]"
  "write_le (nat (i mod 2 ^ 64)) 2 = u16_le (word_of_int i)"
  "write_le (nat (i mod 2 ^ 64)) 4 = u32_le (word_of_int i)"
proof -
  have len: "length (write_le n w) = w" for n w
    by (simp add: write_le_def)
  show "write_le (nat (i mod 2 ^ 64)) 1 = [word_of_int i]"
    by (rule le_dec_inj, simp only: len, simp, subst le_dec_write_le) (simp_all add: unat_word_of_int)
  show "write_le (nat (i mod 2 ^ 64)) 2 = u16_le (word_of_int i)"
    by (rule le_dec_inj, simp only: len length_le_words, subst le_dec_write_le) (simp_all add: unat_word_of_int)
  show "write_le (nat (i mod 2 ^ 64)) 4 = u32_le (word_of_int i)"
    by (rule le_dec_inj, simp only: len length_le_words, subst le_dec_write_le) (simp_all add: unat_word_of_int)
qed

lemma write_record_value_parses:
  assumes "write_record_value code e v = Inr bs" "valid_encoding e"
    and "\<And>s. v = PV_Str s \<Longrightarrow> valid_str s"
  shows "parses (read_record_value e) bs (payload_value e v)"
proof (cases e)
  case (RVE_Fixed w)
  then obtain n where n: "numeric_value v = NV_Unsigned n" "n \<le> max_for w" "bs = write_le n w"
    using assms(1) by (cases "numeric_value v") (simp_all split: if_splits)
  then show ?thesis
    using assms(2) parses_last [OF parses_read_le [of w n], of "\<lambda>v. PV_U32 (word_of_nat v)"]
    by (simp add: RVE_Fixed numeric_int_def)
next
  case (RVE_Signed w)
  then have bs: "bs = write_le (nat (numeric_int v mod 2 ^ 64)) w"
    using assms(1)
    by (cases "numeric_value v") (simp_all add: numeric_int_def Let_def split: if_splits)
  consider "w = 1" | "w = 2" | "w = 4"
    using assms(2) by (auto simp: RVE_Signed field_width_def)
  then show ?thesis
    using write_le_signed [of "numeric_int v"] parses_last [OF parses_signed(1) refl, of PV_I8]
      parses_last [OF parses_signed(2) refl, of PV_I16] parses_last [OF parses_signed(3) refl, of PV_I32]
    by cases (simp_all add: RVE_Signed bs)
next
  case RVE_PtpString
  then obtain s where s: "v = PV_Str s" "write_ptp_string s = Inr bs"
    using assms(1) by (auto split: PropValue.splits sum.splits)
  then show ?thesis
    using parses_last [OF write_ptp_string_parses [OF s(2)], of PV_Str] assms(3)
    by (simp add: RVE_PtpString)
qed

lemma code_fits:
  assumes "valid_descriptor d" "members d code = Some e"
  shows "unat code \<le> max_for (code_width (layout d))" "valid_encoding e"
    "field_width (code_width (layout d))"
proof -
  have "member_ok (layout d) code e" "valid_layout (layout d)"
    using assms by (auto simp: valid_descriptor_def)
  then show "unat code \<le> max_for (code_width (layout d))" "valid_encoding e"
    "field_width (code_width (layout d))"
    using unat_u16_less [of code] by (auto simp: member_ok_def valid_layout_def max_for_def code_field)
qed

definition payload_records ::
  "RecordStreamDescriptor \<Rightarrow> (u16 \<times> PropValue) list \<Rightarrow> (u16 \<times> PropValue) list" where
  "payload_records d rs =
    map (\<lambda>(code, v). (code, case members d code of None \<Rightarrow> v | Some e \<Rightarrow> payload_value e v)) rs"

lemma walk_declared_written:
  assumes "valid_descriptor d" "write_records d rs = Inr bs" "unread r = bs @ ys"
    and "\<forall>(code, v)\<in>set rs. \<forall>s. v = PV_Str s \<longrightarrow> valid_str s"
  shows "walk_declared d (length rs) r = Some (Inr (payload_records d rs))"
  using assms(2-4)
proof (induction rs arbitrary: bs r)
  case (Cons rec rs)
  obtain code v where rec: "rec = (code, v)"
    by (cases rec)
  obtain e vb more where e: "members d code = Some e"
    and vb: "write_record_value code e v = Inr vb" and more: "write_records d rs = Inr more"
    and bs: "bs = write_le (unat code) (code_width (layout d)) @ vb @ more"
    using Cons.prems(1) by (auto simp: rec res_bind_Inr_iff split: option.splits)
  note fit = code_fits [OF assms(1) e]
  let ?cb = "write_le (unat code) (code_width (layout d))"
  have "read_le (code_width (layout d)) r = Inr (unat code, advance (length ?cb) r)"
    using parsesD [OF parses_read_le [OF fit(3,1)]] Cons.prems(2) by (simp add: bs)
  moreover have "read_record_value e (advance (length ?cb) r) =
      Inr (payload_value e v, advance (length vb) (advance (length ?cb) r))"
    using Cons.prems by (intro parsesD [OF write_record_value_parses [OF vb fit(2)]]) (auto simp: bs rec)
  moreover have "walk_declared d (length rs) (advance (length vb) (advance (length ?cb) r)) =
      Some (Inr (payload_records d rs))"
    using Cons.prems by (intro Cons.IH [OF more]) (auto simp: bs)
  ultimately show ?case
    by (simp add: rec e payload_records_def)
qed (simp add: payload_records_def)

lemma typed_stream_parses:
  assumes "valid_descriptor d" "typed_record_stream rs d = Inr bs"
    and "\<forall>(code, v)\<in>set rs. \<forall>s. v = PV_Str s \<longrightarrow> valid_str s"
  shows "parse_typed_record_stream (bs @ extra) d =
    Some (Inr \<lparr>ds_records = payload_records d rs, ds_diagnostics = []\<rparr>)"
proof -
  let ?w = "count_width (layout d)"
  obtain body where body: "write_records d rs = Inr body"
    and count: "length rs \<le> max_for ?w" and bs: "bs = write_le (length rs) ?w @ body"
    using assms(2) by (auto simp: typed_record_stream_def res_bind_Inr_iff split: if_splits)
  have "field_width ?w"
    using assms(1) by (simp add: valid_descriptor_def valid_layout_def)
  then have "read_le ?w (Reader_new (bs @ extra)) =
      Inr (length rs, advance (length (write_le (length rs) ?w)) (Reader_new (bs @ extra)))"
    using count by (intro parsesD [OF parses_read_le]) (simp_all add: bs)
  moreover have "walk_declared d (length rs) (Reader_new (body @ extra)) = Some (Inr (payload_records d rs))"
    by (rule walk_declared_written [OF assms(1) body _ assms(3)]) simp
  ultimately show ?thesis
    by (simp add: parse_typed_record_stream_def walk_declared_only_def Let_def bs Reader_new_def)
qed

section \<open>Decoders do not depend on the position\<close>

text \<open>
  The strict walk keeps one cursor over the body; the search starts a fresh cursor on the
  remaining bytes of every record. Both read the same records because the decoders depend
  on the position only in the offsets of their errors.
\<close>

definition relocatable :: "'a rd \<Rightarrow> bool" where
  "relocatable d \<longleftrightarrow>
    (\<forall>r r'. unread r = unread r' \<longrightarrow>
      (\<exists>e e'. d r = Inl e \<and> d r' = Inl e') \<or>
      (\<exists>x k. d r = Inr (x, advance k r) \<and> d r' = Inr (x, advance k r')))"

lemma relocatable_return: "relocatable (rd_return x)"
  unfolding relocatable_def rd_return_def by (metis advance_simps(1))

lemma relocatable_fail: "relocatable (rd_fail e)"
  by (simp add: relocatable_def rd_fail_def)

lemma relocatable_take: "relocatable (rd_take n)"
  by (auto simp: relocatable_def rd_take_def remaining_unread advance_def simp flip: unread_def)

lemma relocatable_bind:
  assumes "relocatable d" "\<And>x. relocatable (f x)"
  shows "relocatable (rd_bind d f)"
  unfolding relocatable_def
proof (intro allI impI)
  fix r r'
  assume eq: "unread r = unread r'"
  consider e e' where "d r = Inl e" "d r' = Inl e'"
    | x k where "d r = Inr (x, advance k r)" "d r' = Inr (x, advance k r')"
    using assms(1) eq unfolding relocatable_def by blast
  then show "(\<exists>e e'. rd_bind d f r = Inl e \<and> rd_bind d f r' = Inl e') \<or>
    (\<exists>x k. rd_bind d f r = Inr (x, advance k r) \<and> rd_bind d f r' = Inr (x, advance k r'))"
  proof cases
    case (2 x k)
    have "unread (advance k r) = unread (advance k r')"
      using eq by simp
    then have "(\<exists>e e'. f x (advance k r) = Inl e \<and> f x (advance k r') = Inl e') \<or>
      (\<exists>y j. f x (advance k r) = Inr (y, advance j (advance k r)) \<and>
             f x (advance k r') = Inr (y, advance j (advance k r')))"
      using assms(2) [of x] unfolding relocatable_def by blast
    then show ?thesis
      using 2 by (auto simp: rd_bind_def)
  qed (simp add: rd_bind_def)
qed

lemma relocatable_repeat: "relocatable d \<Longrightarrow> relocatable (rd_repeat n d)"
  by (induction n) (simp_all add: relocatable_return relocatable_bind)

lemma relocatable_ints:
  "relocatable rd_u8" "relocatable rd_u16" "relocatable rd_u32"
  "relocatable rd_i8" "relocatable rd_i16" "relocatable rd_i32"
  unfolding rd_u8_def rd_u16_def rd_u32_def rd_i8_def rd_i16_def rd_i32_def rd_map_def
  by (intro relocatable_bind relocatable_take relocatable_return)+

lemma relocatable_ptp_string: "relocatable rd_ptp_string"
  unfolding rd_ptp_string_def
  by (intro relocatable_bind relocatable_ints)
    (auto intro!: relocatable_bind relocatable_repeat relocatable_ints relocatable_return
      relocatable_fail split: option.splits)

lemma relocatable_read_le: "relocatable (read_le w)"
  unfolding read_le_def by (auto intro!: relocatable_bind relocatable_ints relocatable_return)

lemma relocatable_value: "relocatable (read_record_value e)"
  by (cases e) (auto intro!: relocatable_bind relocatable_ints relocatable_return
      relocatable_ptp_string relocatable_read_le)

lemma fresh_cursor:
  assumes "relocatable d" "unread r = body"
  shows "(\<exists>e e'. d r = Inl e \<and> d (Reader_new body) = Inl e') \<or>
    (\<exists>x r1 q. d r = Inr (x, r1) \<and> d (Reader_new body) = Inr (x, q) \<and> unread r1 = drop (pos q) body)"
proof -
  have "unread r = unread (Reader_new body)"
    using assms(2) by simp
  then consider e e' where "d r = Inl e" "d (Reader_new body) = Inl e'"
    | x k where "d r = Inr (x, advance k r)" "d (Reader_new body) = Inr (x, advance k (Reader_new body))"
    using assms(1) unfolding relocatable_def by blast
  then show ?thesis
    using assms(2) by cases (auto simp: Reader_new_def)
qed

section \<open>The re-frame search\<close>

text \<open>
  \<open>framings d n body\<close> enumerates, without budget or pruning, every way to read exactly \<open>n\<close>
  records that use up \<open>body\<close>, as pairs of the declared records and the skipped members.
\<close>

fun framings ::
  "RecordStreamDescriptor \<Rightarrow> nat \<Rightarrow> bytes \<Rightarrow> ((u16 \<times> PropValue) list \<times> RecordStreamDiagnostic list) list" where
  "framings d 0 body = (if body = [] then [([], [])] else [])"
| "framings d (Suc m) body =
    (case read_le (code_width (layout d)) (Reader_new body) of
       Inl e \<Rightarrow> []
     | Inr (code0, r) \<Rightarrow>
         let code = word_of_nat code0; after_code = drop (pos r) body in
         (case members d code of
            Some encoding \<Rightarrow>
              (case read_record_value encoding (Reader_new after_code) of
                 Inl e \<Rightarrow> []
               | Inr (v, vr) \<Rightarrow>
                   map (\<lambda>(rs, ds). ((code, v) # rs, ds)) (framings d m (drop (pos vr) after_code)))
          | None \<Rightarrow>
              concat (map (\<lambda>width. case read_le width (Reader_new after_code) of
                 Inl e \<Rightarrow> []
               | Inr (v, br) \<Rightarrow>
                   map (\<lambda>(rs, ds). (rs, SkippedUndeclaredMember code (word_of_nat v) # ds))
                     (framings d m (drop (pos br) after_code))) [1, 2, 4])))"

declare framings.simps(2) [simp del]

definition extend ::
  "CandidateWalk \<Rightarrow> (u16 \<times> PropValue) list \<times> RecordStreamDiagnostic list \<Rightarrow> CandidateWalk" where
  "extend w f = \<lparr>cw_records = cw_records w @ fst f, cw_diagnostics = cw_diagnostics w @ snd f,
     cw_undeclared = cw_undeclared w + length (snd f)\<rparr>"

definition view :: "ReframeSearch \<Rightarrow> CandidateWalk option \<times> bool" where
  "view s = (best s, tie s)"

fun weigh :: "CandidateWalk \<Rightarrow> CandidateWalk option \<times> bool \<Rightarrow> CandidateWalk option \<times> bool" where
  "weigh c (None, t) = (Some c, t)"
| "weigh c (Some b, t) =
    (if cw_undeclared c > cw_undeclared b \<or> t \<and> cw_undeclared c = cw_undeclared b then (Some b, t)
     else if cw_undeclared c < cw_undeclared b then (Some c, False)
     else (Some b, True))"

definition weigh_all where
  "weigh_all w fs v = fold (\<lambda>f. weigh (extend w f)) fs v"

lemma weigh_all_simps [simp]:
  "weigh_all w [] v = v"
  "weigh_all w (f # fs) v = weigh_all w fs (weigh (extend w f) v)"
  "weigh_all w (fs @ gs) v = weigh_all w gs (weigh_all w fs v)"
  by (simp_all add: weigh_all_def)

lemma extend_push:
  "extend (push_record c v w) (rs, ds) = extend w ((c, v) # rs, ds)"
  "extend (push_skip c n w) (rs, ds) = extend w (rs, SkippedUndeclaredMember c (word_of_nat n) # ds)"
  by (simp_all add: extend_def push_record_def push_skip_def)

lemma extend_Nil [simp]: "extend w ([], []) = w"
  by (simp add: extend_def)

lemma weigh_all_record:
  "weigh_all w (map (\<lambda>(rs, ds). ((c, x) # rs, ds)) fs) v = weigh_all (push_record c x w) fs v"
  by (induction fs arbitrary: v) (auto simp: extend_push)

lemma weigh_all_skip:
  "weigh_all w (map (\<lambda>(rs, ds). (rs, SkippedUndeclaredMember c (word_of_nat n) # ds)) fs) v =
    weigh_all (push_skip c n w) fs v"
  by (induction fs arbitrary: v) (auto simp: extend_push)

lemma weigh_all_pruned: "pruned w s \<Longrightarrow> weigh_all w fs (view s) = view s"
  by (induction fs) (auto simp: pruned_def view_def extend_def split: option.splits)

lemma arrive_view: "\<not> pruned w s \<Longrightarrow> view (arrive w s) = weigh w (view s)"
  by (auto simp: pruned_def arrive_def view_def split: option.splits)

lemma view_simps [simp]:
  "view (s\<lparr>states := n\<rparr>) = view s" "view (s\<lparr>first_undeclared := c\<rparr>) = view s"
  "view (s\<lparr>exhausted := b\<rparr>) = view s"
  by (simp_all add: view_def)

lemma count_state_simps [simp]:
  "view (count_state s) = view s" "exhausted (count_state s) = exhausted s"
  "first_undeclared (count_state s) = first_undeclared s" "best (count_state s) = best s"
  "states (count_state s) = Suc (states s)"
  by (simp_all add: count_state_def)

lemma note_undeclared_simps [simp]:
  "view (note_undeclared code s) = view s" "exhausted (note_undeclared code s) = exhausted s"
  "first_undeclared (note_undeclared code s) \<noteq> None"
  by (simp_all add: note_undeclared_def)

lemma arrive_exhausted [simp]: "exhausted (arrive w s) = exhausted s"
  by (auto simp: arrive_def split: option.splits)

lemma search_walk_exhausted: "exhausted s \<Longrightarrow> exhausted (search_walk d n body w s)"
proof (induction n arbitrary: body w s)
  case 0
  then show ?case
    by (subst search_walk.simps) (simp add: Let_def)
next
  case (Suc n)
  then show ?case
    by (subst search_walk.simps) (simp add: Let_def split: sum.splits option.splits prod.splits)
qed

text \<open>One candidate width of an undeclared member, in the search and in the enumeration.\<close>

definition try_width where
  "try_width d n code after w width st = (case read_le width (Reader_new after) of
      Inl e \<Rightarrow> st
    | Inr (v, br) \<Rightarrow> search_walk d n (drop (pos br) after) (push_skip code v w) st)"

definition width_framings where
  "width_framings d n code after width = (case read_le width (Reader_new after) of
      Inl e \<Rightarrow> []
    | Inr (v, br) \<Rightarrow> map (\<lambda>(rs, ds). (rs, SkippedUndeclaredMember code (word_of_nat v) # ds))
        (framings d n (drop (pos br) after)))"

lemma search_walk_stop:
  assumes "states s < REFRAME_STATE_BUDGET"
  shows "pruned w (count_state s) \<Longrightarrow> search_walk d n body w s = count_state s"
    "\<not> pruned w (count_state s) \<Longrightarrow> search_walk d 0 body w s =
       (if body \<noteq> [] then count_state s else arrive w (count_state s))"
    "\<not> pruned w (count_state s) \<Longrightarrow> read_le (code_width (layout d)) (Reader_new body) = Inl e \<Longrightarrow>
       search_walk d (Suc n) body w s = count_state s"
  using assms by (simp_all add: search_walk.simps [of d _ body w s] Let_def)

lemma search_walk_step:
  assumes "states s < REFRAME_STATE_BUDGET" "\<not> pruned w (count_state s)"
    and "read_le (code_width (layout d)) (Reader_new body) = Inr (code0, r)"
  shows "members d (word_of_nat code0) = Some e \<Longrightarrow>
      search_walk d (Suc n) body w s =
        (case read_record_value e (Reader_new (drop (pos r) body)) of
           Inl err \<Rightarrow> count_state s
         | Inr (v, vr) \<Rightarrow> search_walk d n (drop (pos vr) (drop (pos r) body))
             (push_record (word_of_nat code0) v w) (count_state s))"
    "members d (word_of_nat code0) = None \<Longrightarrow>
      search_walk d (Suc n) body w s =
        (let branch = try_width d n (word_of_nat code0) (drop (pos r) body) w in
         branch 4 (branch 2 (branch 1 (note_undeclared (word_of_nat code0) (count_state s)))))"
  using assms
  by (simp_all add: search_walk.simps [of d "Suc n" body w s] Let_def try_width_def del: drop_drop)

lemma search_walk_budget:
  "REFRAME_STATE_BUDGET \<le> states s \<Longrightarrow> search_walk d n body w s = s\<lparr>exhausted := True\<rparr>"
  by (simp add: search_walk.simps [of d n body w s])

lemma framings_undeclared:
  assumes "read_le (code_width (layout d)) (Reader_new body) = Inr (code0, r)"
    and "members d (word_of_nat code0) = None"
  shows "framings d (Suc n) body =
    (let fr = width_framings d n (word_of_nat code0) (drop (pos r) body) in fr 1 @ fr 2 @ fr 4)"
  using assms by (simp add: framings.simps width_framings_def Let_def del: drop_drop)

lemma try_width_exhausted: "exhausted st \<Longrightarrow> exhausted (try_width d n code after w width st)"
  by (auto simp: try_width_def search_walk_exhausted split: sum.splits)

lemma try_width_view:
  assumes "\<And>body w s. \<not> exhausted (search_walk d n body w s) \<Longrightarrow>
      view (search_walk d n body w s) = weigh_all w (framings d n body) (view s)"
    and "\<not> exhausted (try_width d n code after w width st)"
  shows "view (try_width d n code after w width st) =
    weigh_all w (width_framings d n code after width) (view st)"
  using assms by (auto simp: try_width_def width_framings_def weigh_all_skip split: sum.splits)

lemma search_walk_view:
  "\<not> exhausted (search_walk d n body w s) \<Longrightarrow>
    view (search_walk d n body w s) = weigh_all w (framings d n body) (view s)"
proof (induction n arbitrary: body w s)
  case 0
  have budget: "states s < REFRAME_STATE_BUDGET"
    using 0 by (cases "REFRAME_STATE_BUDGET \<le> states s") (auto simp: search_walk_budget)
  show ?case
    using arrive_view [of w "count_state s"] weigh_all_pruned [of w "count_state s" "framings d 0 body"]
    by (cases "pruned w (count_state s)") (auto simp: search_walk_stop [OF budget])
next
  case (Suc n)
  have budget: "states s < REFRAME_STATE_BUDGET"
    using Suc.prems by (cases "REFRAME_STATE_BUDGET \<le> states s") (auto simp: search_walk_budget)
  consider "pruned w (count_state s)"
    | e where "\<not> pruned w (count_state s)"
        "read_le (code_width (layout d)) (Reader_new body) = Inl e"
    | code0 r where "\<not> pruned w (count_state s)"
        "read_le (code_width (layout d)) (Reader_new body) = Inr (code0, r)"
    by (cases "read_le (code_width (layout d)) (Reader_new body)") auto
  then show ?case
  proof cases
    case 1
    then show ?thesis
      using weigh_all_pruned [OF 1] by (simp add: search_walk_stop(1) [OF budget 1])
  next
    case 2
    then show ?thesis
      by (simp add: search_walk_stop(3) [OF budget 2] framings.simps)
  next
    case (3 code0 r)
    show ?thesis
    proof (cases "members d (word_of_nat code0)")
      case (Some e)
      then show ?thesis
        using Suc.prems Suc.IH 3(2)
        by (simp add: search_walk_step(1) [OF budget 3 Some] framings.simps Let_def weigh_all_record
            split: sum.splits prod.splits)
    next
      case None
      let ?branch = "try_width d n (word_of_nat code0) (drop (pos r) body) w"
      let ?s1 = "note_undeclared (word_of_nat code0) (count_state s)"
      have walk: "search_walk d (Suc n) body w s = ?branch 4 (?branch 2 (?branch 1 ?s1))"
        by (simp only: search_walk_step(2) [OF budget 3 None] Let_def)
      then have "\<not> exhausted (?branch 4 (?branch 2 (?branch 1 ?s1)))" "\<not> exhausted (?branch 2 (?branch 1 ?s1))"
        "\<not> exhausted (?branch 1 ?s1)"
        using Suc.prems try_width_exhausted by metis+
      moreover have "view (?branch k st) =
          weigh_all w (width_framings d n (word_of_nat code0) (drop (pos r) body) k) (view st)"
        if "\<not> exhausted (?branch k st)" for k st
        using try_width_view [OF _ that] Suc.IH by blast
      ultimately show ?thesis
        unfolding walk framings_undeclared [OF 3(2) None] Let_def by simp
    qed
  qed
qed

text \<open>
  \<open>unique_best i fs\<close>: the \<open>i\<close>-th reading skips strictly fewer members than every other.
  \<open>least i fs\<close>: it skips no more than any other.
\<close>

definition least :: "nat \<Rightarrow> ('a \<times> 'b list) list \<Rightarrow> bool" where
  "least i fs \<longleftrightarrow> i < length fs \<and> (\<forall>j<length fs. length (snd (fs ! i)) \<le> length (snd (fs ! j)))"

definition unique_best :: "nat \<Rightarrow> ('a \<times> 'b list) list \<Rightarrow> bool" where
  "unique_best i fs \<longleftrightarrow>
    i < length fs \<and> (\<forall>j<length fs. j \<noteq> i \<longrightarrow> length (snd (fs ! i)) < length (snd (fs ! j)))"

lemma weigh_all_best:
  assumes "fs \<noteq> []"
  shows "\<exists>i. least i fs \<and> weigh_all w fs (None, False) =
    (Some (extend w (fs ! i)), \<exists>j<length fs. j \<noteq> i \<and> length (snd (fs ! j)) = length (snd (fs ! i)))"
  using assms
proof (induction fs rule: rev_induct)
  case (snoc f fs)
  show ?case
  proof (cases "fs = []")
    case True
    then show ?thesis
      by (auto simp: least_def)
  next
    case False
    let ?m = "\<lambda>f. length (snd f)"
    obtain i where i: "least i fs" and v: "weigh_all w fs (None, False) =
        (Some (extend w (fs ! i)), \<exists>j<length fs. j \<noteq> i \<and> ?m (fs ! j) = ?m (fs ! i))"
      using snoc.IH [OF False] by blast
    have und: "cw_undeclared (extend w g) = cw_undeclared w + ?m g" for g
      by (simp add: extend_def)
    consider "?m (fs ! i) < ?m f" | "?m f < ?m (fs ! i)" | "?m f = ?m (fs ! i)"
      by linarith
    then show ?thesis
    proof cases
      case 1
      then show ?thesis
        using i by (intro exI [of _ i]) (auto simp: least_def v und nth_append less_Suc_eq)
    next
      case 2
      then show ?thesis
        using i by (intro exI [of _ "length fs"]) (fastforce simp: least_def v und nth_append less_Suc_eq)
    next
      case 3
      then show ?thesis
        using i by (intro exI [of _ i]) (auto simp: least_def v und nth_append less_Suc_eq)
    qed
  qed
qed simp

lemma least_unique:
  assumes "least i fs"
  shows "\<not> (\<exists>j<length fs. j \<noteq> i \<and> length (snd (fs ! j)) = length (snd (fs ! i))) \<longleftrightarrow> unique_best i fs"
  using assms by (auto simp: least_def unique_best_def) (metis le_neq_implies_less)

lemma unique_best_least: "unique_best i fs \<Longrightarrow> least j fs \<Longrightarrow> i = j"
  by (auto simp: unique_best_def least_def) (metis not_le)

lemma framings_length:
  "(rs, ds) \<in> set (framings d n body) \<Longrightarrow> length rs + length ds = n"
proof (induction n arbitrary: body rs ds)
  case (Suc n)
  then show ?case
    by (auto simp: framings.simps(2) Let_def split: sum.splits option.splits)
qed (simp split: if_splits)

text \<open>The decision the search makes when its budget suffices.\<close>

lemma search_decides:
  assumes "\<not> exhausted (search_walk d n body empty_walk search_start)"
  shows "search_result (search_walk d n body empty_walk search_start) =
      Some (Inr \<lparr>ds_records = rs, ds_diagnostics = ds\<rparr>) \<longleftrightarrow>
    (\<exists>i. unique_best i (framings d n body) \<and> framings d n body ! i = (rs, ds))"
proof -
  let ?s = "search_walk d n body empty_walk search_start" and ?fs = "framings d n body"
  have view: "view ?s = weigh_all empty_walk ?fs (None, False)"
    using search_walk_view [OF assms] by (simp add: search_start_def view_def)
  show ?thesis
  proof (cases "?fs = []")
    case True
    then show ?thesis
      using view by (auto simp: view_def search_result_def unique_best_def split: option.splits)
  next
    case False
    then obtain i where i: "least i ?fs" and v: "view ?s = (Some (extend empty_walk (?fs ! i)),
        \<exists>j<length ?fs. j \<noteq> i \<and> length (snd (?fs ! j)) = length (snd (?fs ! i)))"
      using weigh_all_best [OF False, of empty_walk] unfolding view by blast
    have "tie ?s \<longleftrightarrow> \<not> unique_best i ?fs"
      using v least_unique [OF i] by (auto simp: view_def)
    moreover have "best ?s = Some (extend empty_walk (?fs ! i))"
      using v by (simp add: view_def)
    ultimately have "search_result ?s = Some (Inr \<lparr>ds_records = rs, ds_diagnostics = ds\<rparr>) \<longleftrightarrow>
        unique_best i ?fs \<and> ?fs ! i = (rs, ds)"
      using assms
      by (cases "?fs ! i"; cases "first_undeclared ?s")
        (simp_all add: search_result_def extend_def empty_walk_def)
    then show ?thesis
      using unique_best_least [OF _ i] by blast
  qed
qed

section \<open>When the search panics\<close>

text \<open>The index of the first undeclared member the strict walk meets.\<close>

fun undeclared_at :: "RecordStreamDescriptor \<Rightarrow> nat \<Rightarrow> bytes \<Rightarrow> nat option" where
  "undeclared_at d 0 body = None"
| "undeclared_at d (Suc n) body =
    (case read_le (code_width (layout d)) (Reader_new body) of
       Inl e \<Rightarrow> None
     | Inr (code, r) \<Rightarrow>
         (case members d (word_of_nat code) of
            None \<Rightarrow> Some 0
          | Some encoding \<Rightarrow>
              (case read_record_value encoding (Reader_new (drop (pos r) body)) of
                 Inl e \<Rightarrow> None
               | Inr (v, vr) \<Rightarrow>
                   map_option Suc (undeclared_at d n (drop (pos vr) (drop (pos r) body))))))"

lemma walk_declared_None_iff:
  "unread r = body \<Longrightarrow> walk_declared d n r = None \<longleftrightarrow> undeclared_at d n body \<noteq> None"
proof (induction n arbitrary: r body)
  case (Suc n)
  let ?w = "code_width (layout d)"
  consider e e' where "read_le ?w r = Inl e" "read_le ?w (Reader_new body) = Inl e'"
    | c r1 q where "read_le ?w r = Inr (c, r1)" "read_le ?w (Reader_new body) = Inr (c, q)"
        "unread r1 = drop (pos q) body"
    using fresh_cursor [OF relocatable_read_le Suc.prems, of ?w] by blast
  then show ?case
  proof cases
    case (2 c r1 q)
    show ?thesis
    proof (cases "members d (word_of_nat c)")
      case (Some enc)
      let ?body = "drop (pos q) body"
      consider e e' where "read_record_value enc r1 = Inl e"
          "read_record_value enc (Reader_new ?body) = Inl e'"
        | v r2 vq where "read_record_value enc r1 = Inr (v, r2)"
          "read_record_value enc (Reader_new ?body) = Inr (v, vq)"
          "unread r2 = drop (pos vq) ?body"
        using fresh_cursor [OF relocatable_value 2(3), of enc] by blast
      then show ?thesis
      proof cases
        case inner: (2 v r2 vq)
        have "walk_declared d n r2 = None \<longleftrightarrow> undeclared_at d n (drop (pos vq) ?body) \<noteq> None"
          by (rule Suc.IH [OF inner(3)])
        then show ?thesis
          using 2 Some inner by (cases "walk_declared d n r2") (auto simp del: drop_drop split: sum.splits)
      qed (use 2 Some in simp)
    qed (use 2 in simp)
  qed simp
qed simp

lemma arrive_first [simp]: "first_undeclared (arrive w s) = first_undeclared s"
  by (simp add: arrive_def split: option.splits)

lemma note_undeclared_keeps [simp]:
  "first_undeclared s = Some c \<Longrightarrow> note_undeclared code s = s"
  by (simp add: note_undeclared_def)

lemma search_walk_keeps_first:
  "first_undeclared s = Some c \<Longrightarrow> first_undeclared (search_walk d n body w s) = Some c"
proof (induction n arbitrary: body w s)
  case 0
  then show ?case
    by (subst search_walk.simps) (simp add: Let_def)
next
  case (Suc n)
  then show ?case
    by (subst search_walk.simps) (simp add: Let_def split: sum.splits option.splits prod.splits)
qed

lemma try_width_keeps_first:
  "first_undeclared st = Some c \<Longrightarrow> first_undeclared (try_width d n code after w k st) = Some c"
  by (simp add: try_width_def search_walk_keeps_first split: sum.splits prod.splits)

lemma search_walk_prefix:
  assumes "undeclared_at d n body = Some k" "best s = None" "first_undeclared s = None"
    and "states s \<le> REFRAME_STATE_BUDGET"
  shows "if states s + k < REFRAME_STATE_BUDGET
    then first_undeclared (search_walk d n body w s) \<noteq> None
    else best (search_walk d n body w s) = None \<and> first_undeclared (search_walk d n body w s) = None"
  using assms
proof (induction n arbitrary: body k w s)
  case (Suc n)
  show ?case
  proof (cases "states s = REFRAME_STATE_BUDGET")
    case True
    then show ?thesis
      using Suc.prems by (simp add: search_walk_budget)
  next
    case False
    then have budget: "states s < REFRAME_STATE_BUDGET"
      using Suc.prems by simp
    have np: "\<not> pruned w (count_state s)"
      using Suc.prems(2) by (simp add: pruned_def)
    obtain c r where cr: "read_le (code_width (layout d)) (Reader_new body) = Inr (c, r)"
      using Suc.prems(1) by (auto split: sum.splits)
    show ?thesis
    proof (cases "members d (word_of_nat c)")
      case None
      have "first_undeclared (note_undeclared (word_of_nat c) (count_state s)) = Some (word_of_nat c)"
        using Suc.prems(3) by (simp add: note_undeclared_def)
      then show ?thesis
        using Suc.prems(1) budget cr None
        by (simp add: search_walk_step(2) [OF budget np cr None] Let_def try_width_keeps_first)
    next
      case (Some e)
      then obtain v vr j where vr: "read_record_value e (Reader_new (drop (pos r) body)) = Inr (v, vr)"
        and j: "undeclared_at d n (drop (pos vr) (drop (pos r) body)) = Some j" "k = Suc j"
        using Suc.prems(1) cr by (auto split: sum.splits simp del: drop_drop)
      show ?thesis
        using Suc.IH [OF j(1), of "count_state s" "push_record (word_of_nat c) v w"] Suc.prems budget
        by (simp add: search_walk_step(1) [OF budget np cr Some] vr j(2) del: drop_drop not_None_eq)
    qed
  qed
qed simp

lemma reframe_panics_iff:
  assumes "undeclared_at d n body = Some k"
  shows "reframe_undeclared body d n = None \<longleftrightarrow> REFRAME_STATE_BUDGET \<le> k"
  using search_walk_prefix [OF assms, of search_start empty_walk]
  by (auto simp: reframe_undeclared_def search_result_def search_start_def split: option.splits if_splits)

lemma parse_panics_iff:
  "parse_typed_record_stream bs d = None \<longleftrightarrow>
    (\<exists>count r k. read_le (count_width (layout d)) (Reader_new bs) = Inr (count, r) \<and>
      undeclared_at d count (drop (pos r) bs) = Some k \<and> REFRAME_STATE_BUDGET \<le> k)"
proof (cases "read_le (count_width (layout d)) (Reader_new bs)")
  case (Inr cr)
  obtain count r where cr: "cr = (count, r)"
    by (cases cr)
  let ?body = "drop (pos r) bs"
  have "walk_declared_only ?body d count = None \<longleftrightarrow> undeclared_at d count ?body \<noteq> None"
    using walk_declared_None_iff [of "Reader_new ?body" ?body d count]
    by (auto simp: walk_declared_only_def split: option.splits sum.splits)
  then show ?thesis
    using reframe_panics_iff [of d count ?body]
    by (auto simp: parse_typed_record_stream_def Inr cr Let_def split: option.splits)
qed (simp add: parse_typed_record_stream_def)

definition small_descriptor :: RecordStreamDescriptor where
  "small_descriptor = \<lparr>layout = \<lparr>count_width = 2, code_width = 1, value_width = 1\<rparr>,
     members = [1 \<mapsto> RVE_Fixed 1]\<rparr>"

lemma small_descriptor_new:
  "\<exists>lay. layout_new 2 1 1 = Inr lay \<and> descriptor_new lay [(1, RVE_Fixed 1)] = Inr small_descriptor"
  by (simp add: layout_new_def descriptor_new_def small_descriptor_def)

lemma read_byte: "read_le 1 (Reader_new (b # bs)) = Inr (unat b, \<lparr>buf = b # bs, pos = 1\<rparr>)"
  by (simp add: read_le_def rd_bind_def rd_u8_def rd_map_def rd_take_def rd_return_def Reader_new_def
      remaining_def)

lemma small_declared_step:
  "undeclared_at small_descriptor (Suc m) (1 # 0 # rest) =
    map_option Suc (undeclared_at small_descriptor m rest)"
  using read_byte [of 1 "0 # rest"] read_byte [of 0 rest]
  by (simp add: small_descriptor_def rd_bind_def rd_return_def)

lemma small_declared_prefix:
  "undeclared_at small_descriptor (k + Suc n) (concat (replicate k [1, 0]) @ [2]) = Some k"
proof (induction k)
  case 0
  show ?case
    using read_byte [of 2 "[]"] by (simp add: small_descriptor_def)
next
  case (Suc k)
  then show ?case
    by (simp add: small_declared_step del: undeclared_at.simps)
qed

section \<open>Properties\<close>

text \<open>C28: both record-stream encoders are inverted by their decoders. A fixed-width stream decodes to the
  encoded pairs, and a typed stream decodes without diagnostics to the encoded members at
  their payload widths, even when further bytes follow the stream.\<close>
theorem record_streams_round_trip:
  assumes "valid_layout lay" "record_stream fixed lay = Inr fs"
    and "valid_descriptor d" "typed_record_stream rs d = Inr bs"
    and "\<forall>(code, v)\<in>set rs. \<forall>s. v = PV_Str s \<longrightarrow> valid_str s"
  shows "parse_record_stream (fs @ extra) lay = Inr fixed \<and>
    parse_typed_record_stream (bs @ extra) d =
      Some (Inr \<lparr>ds_records = payload_records d rs, ds_diagnostics = []\<rparr>)"
  using record_stream_parses [OF assms(2,1)] typed_stream_parses [OF assms(3-5)] by blast

theorem record_streams_round_trip_witness:
  "valid_layout D212 \<and> record_stream [(0x5007, 400)] D212 = Inr [1, 0, 7, 0x50, 0x90, 1, 0, 0] \<and>
   valid_descriptor small_descriptor \<and>
   typed_record_stream [(1, PV_U16 9)] small_descriptor = Inr [1, 0, 1, 9] \<and>
   parse_record_stream ([1, 0, 7, 0x50, 0x90, 1, 0, 0] @ [5]) D212 = Inr [(0x5007, 400)] \<and>
   parse_typed_record_stream ([1, 0, 1, 9] @ [5]) small_descriptor =
     Some (Inr \<lparr>ds_records = payload_records small_descriptor [(1, PV_U16 9)], ds_diagnostics = []\<rparr>)"
proof -
  have l: "valid_layout D212"
    by (simp add: valid_layout_def D212_def field_width_def)
  have f: "record_stream [(0x5007, 400)] D212 = Inr [1, 0, 7, 0x50, 0x90, 1, 0, 0]"
    by code_simp
  have d: "valid_descriptor small_descriptor"
    using small_descriptor_new descriptor_new_valid layout_new_valid by blast
  have t: "typed_record_stream [(1, PV_U16 9)] small_descriptor = Inr [1, 0, 1, 9]"
    by code_simp
  have s: "\<forall>(code, v)\<in>set [(1 :: u16, PV_U16 9)]. \<forall>s. v = PV_Str s \<longrightarrow> valid_str s"
    by simp
  show ?thesis
    using l f d t record_streams_round_trip [OF l f d t s, of "[5]"] by blast
qed

text \<open>C29: when a stream has undeclared members, the decoder returns a reading only if it consumes
  exactly the declared number of records and the whole payload and skips strictly fewer
  members than every other such reading.\<close>
theorem reframe_accepts_unique_best:
  assumes "reframe_undeclared body d n = Some (Inr res)"
  shows "\<exists>i. unique_best i (framings d n body) \<and>
    framings d n body ! i = (ds_records res, ds_diagnostics res) \<and>
    length (ds_records res) + length (ds_diagnostics res) = n"
proof -
  let ?s = "search_walk d n body empty_walk search_start"
  have res: "search_result ?s = Some (Inr \<lparr>ds_records = ds_records res, ds_diagnostics = ds_diagnostics res\<rparr>)"
    using assms by (simp add: reframe_undeclared_def)
  then have "\<not> exhausted ?s"
    by (auto simp: search_result_def split: option.splits if_splits)
  then obtain i where "unique_best i (framings d n body)"
    "framings d n body ! i = (ds_records res, ds_diagnostics res)"
    using search_decides res by blast
  then show ?thesis
    using framings_length [of "ds_records res" "ds_diagnostics res" d n body]
    by (metis nth_mem unique_best_def)
qed

theorem reframe_accepts_unique_best_witness:
  "reframe_undeclared [1, 7, 3, 9, 9] small_descriptor 2 =
     Some (Inr \<lparr>ds_records = [(1, PV_U32 7)], ds_diagnostics = [SkippedUndeclaredMember 3 0x909]\<rparr>) \<and>
   (\<exists>i. unique_best i (framings small_descriptor 2 [1, 7, 3, 9, 9]) \<and>
     framings small_descriptor 2 [1, 7, 3, 9, 9] ! i =
       ([(1, PV_U32 7)], [SkippedUndeclaredMember 3 0x909]))"
proof -
  have r: "reframe_undeclared [1, 7, 3, 9, 9] small_descriptor 2 =
     Some (Inr \<lparr>ds_records = [(1, PV_U32 7)], ds_diagnostics = [SkippedUndeclaredMember 3 0x909]\<rparr>)"
    by code_simp
  show ?thesis
    using r reframe_accepts_unique_best [OF r] by auto
qed

text \<open>C30: the decoder reaches its \<open>expect\<close> panic exactly when the first undeclared member is preceded by
  at least 4096 declared ones; on every other input it returns a value.\<close>
theorem record_stream_panics_exactly:
  "parse_typed_record_stream bs d = None \<longleftrightarrow>
    (\<exists>count r k. read_le (count_width (layout d)) (Reader_new bs) = Inr (count, r) \<and>
      undeclared_at d count (drop (pos r) bs) = Some k \<and> REFRAME_STATE_BUDGET \<le> k)"
  by (rule parse_panics_iff)

text \<open>Such an input exists: a well-formed stream of 4096 declared one-byte records followed by one
  undeclared member makes the decoder panic instead of reporting the undeclared member.\<close>
theorem record_stream_panic_reachable:
  "parse_typed_record_stream (u16_le 4097 @ concat (replicate 4096 [1, 0]) @ [2]) small_descriptor = None"
proof -
  let ?body = "concat (replicate 4096 [1, 0]) @ [2 :: u8]"
  have "unat (4097 :: u16) = 4097"
    by simp
  then have "read_le 2 (Reader_new (u16_le 4097 @ ?body)) =
      Inr (4097, advance 2 (Reader_new (u16_le 4097 @ ?body)))"
    using parsesD [OF parses_last [OF parses_u16 refl, of unat 4097], of "Reader_new (u16_le 4097 @ ?body)" ?body]
    by (simp only: unread_new read_le_def length_le_words) simp
  moreover have "undeclared_at small_descriptor 4097 ?body = Some 4096"
    using small_declared_prefix [of 4096 0] by simp
  ultimately show ?thesis
    by (simp only: parse_panics_iff)
      (rule exI [of _ 4097], rule exI [of _ "advance 2 (Reader_new (u16_le 4097 @ ?body))"],
        rule exI [of _ 4096], simp add: small_descriptor_def REFRAME_STATE_BUDGET_def Reader_new_def)
qed

end
