(* ===== verification/Manifest.thy ===== *)
theory Manifest
  imports Prop_Predicate Firmware_Version Fault Record_Stream
begin

text \<open>
  The manifest data the simulator engine runs on (\<^verbatim>\<open>crates/camera-config/src/model.rs\<close>) and the
  compatibility queries over it (\<^verbatim>\<open>crates/camera-config/src/query.rs\<close>).

  A \<^verbatim>\<open>BTreeMap\<close> is an association list in key order, which is the order its iterators run in;
  an \<^verbatim>\<open>i64\<close> is an integer, a \<^verbatim>\<open>usize\<close> a natural number. The records leave out the fields that only carry
  documentation or presentation (evidence, display names, labels, observed scopes) and the parts of
  a connection that only establishment code reads.
\<close>

section \<open>Operations\<close>

datatype OperationKind = Executable | AdvertisedOnly

datatype OperationHandler = PropertyStep | ObjectSize

datatype ScalarEncoding = U32Le | U64Le

record ParamEquals =
  pe_index :: nat
  pe_equals :: u32

record ObjectSizeHandler =
  os_handle_param :: nat
  os_encoding :: ScalarEncoding
  os_required_params :: "ParamEquals list"

record ParamSource =
  ps_index :: nat
  ps_shift :: nat
  ps_mask :: "u64 option"

record OpEffect =
  oe_set_prop :: ustring
  oe_value :: int
  oe_settle_after_polls :: nat
  oe_from_param :: "ParamSource option"

datatype EmitParam = RequestParam nat | EmitLiteral u32

datatype OperationEmit = Bare ustring | Detailed ustring "EmitParam list"

datatype OperationDispositionKind = OD_SilentRefusal

record OperationDisposition =
  od_connections :: "ustring list"
  od_modes :: "ustring list"
  od_when :: "Predicate option"
  od_disposition :: OperationDispositionKind

record Operation =
  op_kind :: OperationKind
  op_workflows :: "ustring list"
  op_handler :: "OperationHandler option"
  op_property :: "ustring option"
  op_object_size :: "ObjectSizeHandler option"
  op_modes :: "ustring list"
  op_connections :: "ustring list"
  op_requires :: "Predicate option"
  op_requires_gate :: "ustring option"   \<comment> \<open>the gate's name; the only failure kind is silence\<close>
  op_effects :: "OpEffect list"
  op_emits :: "OperationEmit list"
  op_dispositions :: "OperationDisposition list"

section \<open>Properties\<close>

datatype PropertyAccess = ReadOnly | ReadWrite

datatype ComputedValue = ObjectCount | ObjectHandles

datatype DescriptorValue = DV_Int int | DV_Str ustring

fun as_i64 :: "DescriptorValue \<Rightarrow> int option" where
  "as_i64 (DV_Int v) = Some v"
| "as_i64 (DV_Str s) = None"

record Descriptor =
  d_form :: ustring
  d_values :: "DescriptorValue list"

datatype RecordValueLiteral = RL_Unsigned u32 | RL_Signed u32 | RL_String ustring

record RecordMemberDetail =
  rm_code :: ustring
  rm_encoding :: RecordValueEncoding
  rm_simulator_value :: "RecordValueLiteral option"

datatype RecordMember = RM_Code ustring | RM_Detailed RecordMemberDetail

fun member_code :: "RecordMember \<Rightarrow> ustring" where
  "member_code (RM_Code code) = code"
| "member_code (RM_Detailed m) = rm_code m"

fun member_encoding :: "nat \<Rightarrow> RecordMember \<Rightarrow> RecordValueEncoding" where
  "member_encoding default_width (RM_Code code) = RVE_Fixed default_width"
| "member_encoding default_width (RM_Detailed m) = rm_encoding m"

fun simulator_value :: "RecordMember \<Rightarrow> RecordValueLiteral option" where
  "simulator_value (RM_Code code) = None"
| "simulator_value (RM_Detailed m) = rm_simulator_value m"

record RecordLayout =
  rl_code_width :: nat
  rl_value_width :: nat

record Payload =
  pl_count_width :: "nat option"
  pl_record :: "RecordLayout option"
  pl_members :: "RecordMember list"

definition record_widths :: "Payload \<Rightarrow> nat \<times> nat \<times> nat" where
  "record_widths p =
     ((case pl_count_width p of None \<Rightarrow> 2 | Some w \<Rightarrow> w),
      (case pl_record p of None \<Rightarrow> 2 | Some r \<Rightarrow> rl_code_width r),
      (case pl_record p of None \<Rightarrow> 4 | Some r \<Rightarrow> rl_value_width r))"

datatype PropertyDispositionKind = Valueless | PD_SilentRefusal

record PropertyDisposition =
  pd_connections :: "ustring list"
  pd_modes :: "ustring list"
  pd_when :: "Predicate option"
  pd_disposition :: PropertyDispositionKind

record PropertyValueProfileRow =
  vr_raw :: int
  vr_aliases :: "int list"
  vr_write_store_raw :: "int option"

record PropertyValueProfile =
  vp_connection :: "ustring option"
  vp_mode :: "ustring option"
  vp_rows :: "PropertyValueProfileRow list"

datatype StructuredTextScalar = SignedInteger

record StructuredTextField =
  tf_name :: ustring
  tf_scalar :: StructuredTextScalar

record StructuredTextLayout =
  tl_delimiter :: ustring
  tl_fields :: "StructuredTextField list"

record Property =
  pr_ptype :: "ustring option"
  pr_access :: "PropertyAccess option"
  pr_initial_value :: "DescriptorValue option"
  pr_descriptor :: "Descriptor option"
  pr_payload :: "Payload option"
  pr_computed :: "ComputedValue option"
  pr_value_profiles :: "PropertyValueProfile list"
  pr_requires_gate :: "ustring option"
  pr_dispositions :: "PropertyDisposition list"
  pr_structured_text :: "StructuredTextLayout option"

section \<open>Steps, actions and connections\<close>

datatype SocketRole = SR_Command | SR_Event | SR_LiveView

datatype StepParam = SP_Literal u32 | SP_Runtime ustring nat "u64 option"

datatype MissingRuntimeValue = MR_Error | MR_Skip

datatype SetPropValue = SV_Literal int | SV_Runtime ustring MissingRuntimeValue

fun set_prop_literal :: "SetPropValue \<Rightarrow> int option" where
  "set_prop_literal (SV_Literal v) = Some v"
| "set_prop_literal (SV_Runtime r m) = None"

record CaptureResponseFallback =
  cf_value :: u64
  cf_when_response_codes :: "ustring list"

datatype CaptureSource =
    ObjectInfoCompressedSize | CS_PropValue | CS_U32Le | CS_U64Le | PtpU32Array | TransactionId

record Capture =
  ca_bind :: ustring
  ca_source :: CaptureSource
  ca_fallback :: "CaptureResponseFallback option"

datatype RetryFailureClass = RF_Decode

datatype AwaitSource = AS_Poll ustring | AS_Event ustring "ustring option"

datatype ChunkSize = CK_Literal u32 | CK_Runtime ustring

text \<open>A step of a sequence. The blocks of an \<^verbatim>\<open>awaitUntil\<close>, a retry, a loop and a conditional
  hold steps again; \<open>st_close_session\<close> holds the \<^verbatim>\<open>transportClose\<close> flag of a
  \<^verbatim>\<open>closeSession\<close>.\<close>

datatype Step = Step
  (st_set_prop: "ustring option") (st_get_prop: "ustring option") (st_read_echo: "ustring option")
  (st_send_op: "ustring option") (st_open_channel: "SocketRole option") (st_reopen_session: bool)
  (st_close_session: "bool option") (st_value: "SetPropValue option")
  (st_params: "StepParam list") (st_captures: "Capture list") (st_starts_gate: "ustring option")
  (st_completes_gate: "ustring option") (st_tolerant: bool) (st_repeat: nat)
  (st_await_until: "AwaitUntil option") (st_retry: "StepRetry option") (st_loop: "Loop option")
  (st_if: "IfStep option")
and AwaitUntil = AwaitUntil (aw_source: AwaitSource) (aw_until: Predicate) (aw_on_each: "Step list")
  (aw_timeout_ms: nat) (aw_interval_ms: nat)
and StepRetry = StepRetry (rt_steps: "Step list") (rt_fallback: "Step list option")
  (rt_when_response_codes: "ustring list") (rt_when_failure_classes: "RetryFailureClass list")
  (rt_max_attempts: nat) (rt_retry_delay_ms: nat)
and Loop =
    ForEach (lp_collection: ustring) (lp_bind: ustring) (lp_body: "Step list")
  | Chunk (lp_total: ustring) (lp_size: ChunkSize) (lp_offset_bind: ustring) (lp_length_bind: ustring)
      (lp_body: "Step list")
and IfStep = IfStep (if_slot: ustring) (if_equals: u64) (if_then: "Step list") (if_else: "Step list")

definition step_well_formed :: "Step \<Rightarrow> bool" where
  "step_well_formed s \<longleftrightarrow>
     length (filter id
       [st_set_prop s \<noteq> None, st_get_prop s \<noteq> None, st_read_echo s \<noteq> None, st_send_op s \<noteq> None,
        st_open_channel s \<noteq> None, st_reopen_session s, st_close_session s \<noteq> None,
        st_await_until s \<noteq> None, st_retry s \<noteq> None, st_loop s \<noteq> None, st_if s \<noteq> None]) = 1"

definition is_sequence_gate_matchable :: "Step \<Rightarrow> bool" where
  "is_sequence_gate_matchable s =
     (if st_set_prop s \<noteq> None \<or> st_get_prop s \<noteq> None then True
      else st_send_op s \<noteq> None \<and>
           list_all (\<lambda>p. case p of SP_Literal _ \<Rightarrow> True | _ \<Rightarrow> False) (st_params s))"

datatype ActionVerb =
    Shutter | EnumerateObjects | GetObjectInfo | GetThumb | GetObject | DeleteObject
  | CompleteObjectTransfer | AutofocusLock | AutofocusRelease | ImportObjects | ReadDeviceInfo
  | StartLiveView | PollLiveView | StopLiveView | Keepalive

record ObjectsAvailable =
  oa_min :: nat
  oa_max :: nat

record ActionEffect =
  ae_objects_available :: "ObjectsAvailable option"
  ae_postview_event :: bool
  ae_live_view_stream :: bool

definition effect_well_formed :: "ActionEffect \<Rightarrow> bool" where
  "effect_well_formed e \<longleftrightarrow>
     length (filter id [ae_objects_available e \<noteq> None, ae_postview_event e, ae_live_view_stream e]) = 1"

datatype ActionInitiatorParameterKind = IP_U64 | IP_String

record ActionInitiatorParameterDeclaration =
  ip_name :: ustring
  ip_kind :: ActionInitiatorParameterKind
  ip_required :: bool

datatype ActionInitiatorParameter =
    Shorthand ustring
  | Expanded ActionInitiatorParameterDeclaration

fun normalized :: "ActionInitiatorParameter \<Rightarrow> ActionInitiatorParameterDeclaration" where
  "normalized (Shorthand name) = \<lparr>ip_name = name, ip_kind = IP_U64, ip_required = True\<rparr>"
| "normalized (Expanded declaration) = declaration"

datatype ConnectionActivityBinding =
    CB_ExecutorSpan u32 u32   \<comment> \<open>first step, first step after\<close>
  | CB_HostCheckpoint
  | CB_HostEstablishment

record ConnectionActivityDescriptor =
  cd_id :: ustring
  cd_version :: u32
  cd_binding :: ConnectionActivityBinding

record ActionInitiator =
  ai_params :: "ActionInitiatorParameter list"
  ai_steps :: "Step list"
  ai_activities :: "ConnectionActivityDescriptor list"

datatype ActionParameterKind = AP_U32

record ActionParameter =
  ap_name :: ustring
  ap_kind :: ActionParameterKind
  ap_default :: "u32 option"
  ap_min :: "u32 option"
  ap_max :: "u32 option"

datatype PropertyTransitionTerminal = TT_Fixed int | TT_Parameter ustring

datatype ResponderMutation =
    RMU_EnqueueObjects ustring
  | RMU_PropertyTransition ustring "int option" PropertyTransitionTerminal nat

record ActionResponder =
  ar_params :: "ActionParameter list"
  ar_mutation :: ResponderMutation

record Action =
  ac_mode :: ustring
  ac_initiator :: "ActionInitiator option"
  ac_responder :: "ActionResponder option"
  ac_triggers :: "ActionEffect list"

datatype ModeEntryExecution =
    ME_Ptp "Step list"
  | ME_ReestablishConnection "Step list"   \<comment> \<open>the exit steps\<close>
  | ME_UserInstruction ustring

record ModeEntry =
  me_to :: ustring
  me_from :: "ustring option"
  me_execution :: ModeEntryExecution
  me_activities :: "ConnectionActivityDescriptor list"

record SocketAvailability =
  sa_operation :: ustring

datatype SocketBinding =
    SB_Port u16
  | SB_Descriptor u16 "SocketAvailability option"

fun binding_port :: "SocketBinding \<Rightarrow> u16" where
  "binding_port (SB_Port p) = p"
| "binding_port (SB_Descriptor p a) = p"

fun binding_available_after :: "SocketBinding \<Rightarrow> SocketAvailability option" where
  "binding_available_after (SB_Port p) = None"
| "binding_available_after (SB_Descriptor p a) = a"

record SocketBindings =
  sb_command :: SocketBinding
  sb_event :: "SocketBinding option"
  sb_live_view :: "SocketBinding option"

fun binding_for :: "SocketBindings \<Rightarrow> SocketRole \<Rightarrow> SocketBinding option" where
  "binding_for b SR_Command = Some (sb_command b)"
| "binding_for b SR_Event = sb_event b"
| "binding_for b SR_LiveView = sb_live_view b"

definition port_for :: "SocketBindings \<Rightarrow> SocketRole \<Rightarrow> u16 option" where
  "port_for b role = map_option binding_port (binding_for b role)"

definition available_after :: "SocketBindings \<Rightarrow> SocketRole \<Rightarrow> SocketAvailability option" where
  "available_after b role =
     (case binding_for b role of None \<Rightarrow> None | Some s \<Rightarrow> binding_available_after s)"

datatype SessionOwnership = InitiatorOwned | DaemonAttached

datatype EventDelivery = ED_Reliable | ED_BestEffort | ED_None

record Connection =
  cn_available_when :: "AvailableWhen option"
  cn_bindings :: "SocketBindings option"
  cn_entries :: "ModeEntry list"
  cn_actions :: "(ActionVerb \<times> Action) list"
  cn_session :: "SessionOwnership option"
  cn_events :: "EventDelivery option"
  cn_command_framing :: "WireFraming option"
  cn_event_framing :: "WireFraming option"
  cn_transport_close :: "ustring option"   \<comment> \<open>the name of its sentinel\<close>

section \<open>The manifest\<close>

datatype CameraInitiatedMetadataPhase = AfterCountBeforeModeEntry | AfterModeEntry

record CameraInitiatedTransfer =
  ct_handoff_connection :: ustring
  ct_mode :: ustring
  ct_count_property :: ustring
  ct_count_member :: ustring
  ct_head_index :: u32
  ct_metadata_operation :: ustring
  ct_metadata_phases :: "CameraInitiatedMetadataPhase list"
  ct_data_operation :: ustring

datatype WorkflowPhase = WP_SessionOpen | WP_ImageImport | WP_LiveView | WP_Streaming

record Mode =
  md_capabilities :: "ustring list"
  md_detect :: "Predicate option"
  md_phase :: "WorkflowPhase option"

record MediaFormat =
  mf_is_movie :: bool
  mf_is_photos_compatible :: bool

record CameraIdentity =
  ci_manufacturer :: ustring
  ci_model :: ustring
  ci_firmware :: ustring
  ci_identities :: "(ustring \<times> ustring) list"

record CameraManifest =
  cm_camera :: CameraIdentity
  cm_camera_initiated_transfer :: "CameraInitiatedTransfer option"
  cm_operations :: "(ustring \<times> Operation) list"
  cm_properties :: "(ustring \<times> Property) list"
  cm_media :: "(ustring \<times> MediaFormat) list option"
  cm_events :: "ustring list"   \<comment> \<open>the keys\<close>
  cm_modes :: "(ustring \<times> Mode) list"
  cm_connections :: "(ustring \<times> Connection) list"
  cm_sentinels :: "(ustring \<times> ustring) list"   \<comment> \<open>the frame's hexadecimal text\<close>

section \<open>Queries\<close>

definition find_code :: "(ustring \<times> 'a) list \<Rightarrow> u16 \<Rightarrow> 'a option" where
  "find_code kvs code =
     map_option snd (find (\<lambda>(k, _). parse_hex_code k = Some code) kvs)"

definition operation :: "CameraManifest \<Rightarrow> u16 \<Rightarrow> Operation option" where
  "operation m code = find_code (cm_operations m) code"

definition property :: "CameraManifest \<Rightarrow> u16 \<Rightarrow> Property option" where
  "property m code = find_code (cm_properties m) code"

datatype Support = InWorkflow | WrongWorkflow | Unsupported

definition supports_operation :: "CameraManifest \<Rightarrow> ustring \<Rightarrow> u16 \<Rightarrow> Support" where
  "supports_operation m workflow code =
     (case operation m code of
        None \<Rightarrow> Unsupported
      | Some opn \<Rightarrow>
          if op_kind opn = AdvertisedOnly then Unsupported
          else if op_workflows opn = [] \<or> workflow \<in> set (op_workflows opn) then InWorkflow
          else WrongWorkflow)"

datatype Availability = Available | WrongMode | WrongConnection | Blocked | Unavailable

definition starts_with :: "ustring \<Rightarrow> ustring \<Rightarrow> bool" where
  "starts_with s p \<longleftrightarrow> take (length p) s = p"

definition path_covers :: "ustring \<Rightarrow> ustring \<Rightarrow> bool" where
  "path_covers m mode_path \<longleftrightarrow> mode_path = m \<or> starts_with mode_path (m @ lit ''/'')"

definition mode_matches :: "ustring list \<Rightarrow> ustring \<Rightarrow> bool" where
  "mode_matches modes mode_path \<longleftrightarrow> modes = [] \<or> list_ex (\<lambda>m. path_covers m mode_path) modes"

definition disposition_scope_matches ::
  "ustring list \<Rightarrow> ustring list \<Rightarrow> Predicate option \<Rightarrow> ustring \<Rightarrow> ustring option \<Rightarrow> PropView \<Rightarrow> bool" where
  "disposition_scope_matches connections modes when_pred connection mode observed =
     (if connections \<noteq> [] \<and> connection \<notin> set connections then False
      else if (case mode of Some m \<Rightarrow> \<not> mode_matches modes m | None \<Rightarrow> modes \<noteq> []) then False
      else case when_pred of None \<Rightarrow> True | Some p \<Rightarrow> pred_eval p observed)"

definition is_valueless :: "Property \<Rightarrow> ustring \<Rightarrow> ustring option \<Rightarrow> PropView \<Rightarrow> bool" where
  "is_valueless p connection mode observed =
     list_ex (\<lambda>d. pd_disposition d = Valueless \<and>
        disposition_scope_matches (pd_connections d) (pd_modes d) (pd_when d) connection mode observed)
       (pr_dispositions p)"

definition is_write_silent_refusal :: "Property \<Rightarrow> ustring \<Rightarrow> ustring option \<Rightarrow> PropView \<Rightarrow> bool" where
  "is_write_silent_refusal p connection mode observed =
     list_ex (\<lambda>d. pd_disposition d = PD_SilentRefusal \<and>
        disposition_scope_matches (pd_connections d) (pd_modes d) (pd_when d) connection mode observed)
       (pr_dispositions p)"

definition is_silent_refusal :: "Operation \<Rightarrow> ustring \<Rightarrow> ustring option \<Rightarrow> PropView \<Rightarrow> bool" where
  "is_silent_refusal opn connection mode observed =
     list_ex (\<lambda>d. od_disposition d = OD_SilentRefusal \<and>
        disposition_scope_matches (od_connections d) (od_modes d) (od_when d) connection mode observed)
       (op_dispositions opn)"

definition evaluate_availability ::
  "CameraManifest \<Rightarrow> ustring \<Rightarrow> ustring option \<Rightarrow> u16 \<Rightarrow> PropView \<Rightarrow> Availability" where
  "evaluate_availability m connection mode_path code observed =
     (case operation m code of
        None \<Rightarrow> Unavailable
      | Some opn \<Rightarrow>
          if op_kind opn = AdvertisedOnly then Unavailable
          else if op_connections opn \<noteq> [] \<and> connection \<notin> set (op_connections opn) then WrongConnection
          else if (case mode_path of None \<Rightarrow> False | Some p \<Rightarrow> \<not> mode_matches (op_modes opn) p)
            then WrongMode
          else if (case op_requires opn of None \<Rightarrow> False | Some r \<Rightarrow> \<not> pred_eval r observed)
            then Blocked
          else Available)"

definition operation_available ::
  "CameraManifest \<Rightarrow> ustring \<Rightarrow> ustring \<Rightarrow> u16 \<Rightarrow> PropView \<Rightarrow> Availability" where
  "operation_available m connection mode_path code observed =
     evaluate_availability m connection (Some mode_path) code observed"

definition operation_available_predetect ::
  "CameraManifest \<Rightarrow> ustring \<Rightarrow> u16 \<Rightarrow> PropView \<Rightarrow> Availability" where
  "operation_available_predetect m connection code observed =
     evaluate_availability m connection None code observed"

text \<open>The explaining variant: the trace without its rendered texts.\<close>

record ResolutionTrace =
  tr_connection :: ustring
  tr_mode :: ustring
  tr_op :: u16
  tr_outcome :: Availability
  tr_connection_ok :: bool
  tr_mode_ok :: bool
  tr_requires :: "PredicateOutcome option"

definition operation_available_explained ::
  "CameraManifest \<Rightarrow> ustring \<Rightarrow> ustring \<Rightarrow> u16 \<Rightarrow> PropView \<Rightarrow> Availability \<times> ResolutionTrace" where
  "operation_available_explained m connection mode_path code observed =
     (let trace = (\<lambda>outcome c_ok m_ok req.
            (outcome, \<lparr>tr_connection = connection, tr_mode = mode_path, tr_op = code,
               tr_outcome = outcome, tr_connection_ok = c_ok, tr_mode_ok = m_ok, tr_requires = req\<rparr>))
      in case operation m code of
           None \<Rightarrow> trace Unavailable False False None
         | Some opn \<Rightarrow>
             if op_kind opn = AdvertisedOnly then trace Unavailable False False None
             else
               (let connection_ok = (op_connections opn = [] \<or> connection \<in> set (op_connections opn));
                    mode_ok = mode_matches (op_modes opn) mode_path;
                    requires = map_option (\<lambda>p. explain p observed) (op_requires opn)
                in if \<not> connection_ok then trace WrongConnection connection_ok mode_ok requires
                   else if \<not> mode_ok then trace WrongMode connection_ok mode_ok requires
                   else if (case requires of None \<Rightarrow> False | Some r \<Rightarrow> \<not> po_passed r)
                     then trace Blocked connection_ok mode_ok requires
                   else trace Available connection_ok mode_ok requires))"

definition connections_available :: "CameraManifest \<Rightarrow> ustring \<Rightarrow> VersionScheme \<Rightarrow> ustring list" where
  "connections_available m firmware scheme =
     map fst (filter (\<lambda>(_, c). case cn_available_when c of
                                  None \<Rightarrow> True
                                | Some w \<Rightarrow> available_when_matches w firmware scheme) (cm_connections m))"

definition detect_mode :: "CameraManifest \<Rightarrow> PropView \<Rightarrow> ustring option" where
  "detect_mode m observed =
     map_option fst (find (\<lambda>(_, md). case md_detect md of None \<Rightarrow> False | Some p \<Rightarrow> pred_eval p observed)
       (cm_modes m))"

definition mode_paths :: "CameraManifest \<Rightarrow> ustring list" where
  "mode_paths m = map fst (cm_modes m)"

text \<open>Capabilities along a mode path: the prefixes of the path, root first.\<close>

fun capabilities_from :: "CameraManifest \<Rightarrow> ustring \<Rightarrow> ustring list \<Rightarrow> ustring list" where
  "capabilities_from m acc [] = []"
| "capabilities_from m acc (seg # segs) =
     (let acc' = (if acc = [] then acc else acc @ lit ''/'') @ seg
      in (case map_of (cm_modes m) acc' of None \<Rightarrow> [] | Some md \<Rightarrow> md_capabilities md)
         @ capabilities_from m acc' segs)"

definition capabilities :: "CameraManifest \<Rightarrow> ustring \<Rightarrow> ustring list" where
  "capabilities m mode_path = capabilities_from m [] (split_char 47 mode_path)"

definition action :: "CameraManifest \<Rightarrow> ustring \<Rightarrow> ActionVerb \<Rightarrow> Action option" where
  "action m connection verb =
     (case map_of (cm_connections m) connection of
        None \<Rightarrow> None | Some c \<Rightarrow> map_of (cn_actions c) verb)"

subsection \<open>Value profiles\<close>

definition profile_applies :: "ustring \<Rightarrow> ustring \<Rightarrow> PropertyValueProfile \<Rightarrow> bool" where
  "profile_applies connection mode p \<longleftrightarrow>
     (case vp_connection p of None \<Rightarrow> True | Some c \<Rightarrow> c = connection) \<and>
     (case vp_mode p of None \<Rightarrow> True | Some m \<Rightarrow> path_covers m mode)"

text \<open>The sort key, a boolean and the byte length of the mode, in lexicographic order.\<close>

definition profile_rank :: "PropertyValueProfile \<Rightarrow> nat \<times> nat" where
  "profile_rank p =
     ((if vp_connection p = None then 0 else 1),
      (case vp_mode p of None \<Rightarrow> 0 | Some m \<Rightarrow> length (utf8_bytes m)))"

definition rank_le :: "nat \<times> nat \<Rightarrow> nat \<times> nat \<Rightarrow> bool" where
  "rank_le a b \<longleftrightarrow> fst a < fst b \<or> (fst a = fst b \<and> snd a \<le> snd b)"

text \<open>\<^verbatim>\<open>Iterator::max_by_key\<close> returns the last of several maximal elements.\<close>

fun max_profile :: "PropertyValueProfile option \<Rightarrow> PropertyValueProfile list \<Rightarrow> PropertyValueProfile option" where
  "max_profile cand [] = cand"
| "max_profile None (p # ps) = max_profile (Some p) ps"
| "max_profile (Some b) (p # ps) =
     max_profile (Some (if rank_le (profile_rank b) (profile_rank p) then p else b)) ps"

definition property_value_profile_for :: "Property \<Rightarrow> ustring \<Rightarrow> ustring \<Rightarrow> PropertyValueProfile option" where
  "property_value_profile_for p connection mode =
     max_profile None (filter (profile_applies connection mode) (pr_value_profiles p))"

definition value_profile_for ::
  "CameraManifest \<Rightarrow> u16 \<Rightarrow> ustring \<Rightarrow> ustring \<Rightarrow> PropertyValueProfile option" where
  "value_profile_for m code connection mode =
     (case property m code of
        None \<Rightarrow> None | Some p \<Rightarrow> property_value_profile_for p connection mode)"

definition profile_row_for_write :: "PropertyValueProfile \<Rightarrow> int \<Rightarrow> PropertyValueProfileRow option" where
  "profile_row_for_write profile raw =
     find (\<lambda>row. vr_raw row = raw \<or> raw \<in> set (vr_aliases row)) (vp_rows profile)"

section \<open>Properties\<close>

lemma find_code_Some: "find_code kvs code = Some x \<Longrightarrow> \<exists>k. (k, x) \<in> set kvs \<and> parse_hex_code k = Some code"
  by (auto simp: find_code_def find_Some_iff) (metis nth_mem)

lemma executable_iff: "k = Executable \<longleftrightarrow> k \<noteq> AdvertisedOnly"
  by (cases k) simp_all

lemma availability_iff:
  "evaluate_availability m connection mode_path code observed = Available \<longleftrightarrow>
     (\<exists>opn. operation m code = Some opn \<and> op_kind opn = Executable
        \<and> (op_connections opn = [] \<or> connection \<in> set (op_connections opn))
        \<and> (\<forall>p. mode_path = Some p \<longrightarrow> mode_matches (op_modes opn) p)
        \<and> (\<forall>r. op_requires opn = Some r \<longrightarrow> pred_eval r observed))"
  by (cases "operation m code")
    (auto simp: evaluate_availability_def executable_iff split: option.splits)

lemma available_predetect:
  "operation_available m connection mode_path code observed = Available \<Longrightarrow>
     operation_available_predetect m connection code observed = Available"
  by (auto simp: operation_available_def operation_available_predetect_def availability_iff)

lemma explained_outcome:
  "fst (operation_available_explained m connection mode_path code observed) =
     operation_available m connection mode_path code observed"
  by (auto simp: operation_available_explained_def operation_available_def evaluate_availability_def
      Let_def explain_correct split: option.splits)

text \<open>A child mode's capabilities extend its parent's.\<close>

lemma split_char_not_Nil [simp]: "split_char c s \<noteq> []"
  by (cases s) (auto split: list.split)

lemma split_char_append: "split_char c (s @ c # t) = split_char c s @ split_char c t"
  by (induction s) (auto split: list.split)

lemma capabilities_from_append: "\<exists>acc'. capabilities_from m acc (xs @ ys) = capabilities_from m acc xs @ capabilities_from m acc' ys"
  by (induction xs arbitrary: acc) (auto simp: Let_def)

lemma capabilities_inherit:
  "\<exists>own. capabilities m (parent @ lit ''/'' @ child) = capabilities m parent @ own"
  using capabilities_from_append [of m "[]" "split_char 47 parent" "split_char 47 child"]
  by (auto simp: capabilities_def lit_def split_char_append)

text \<open>The profile chosen applies and no applicable profile outranks it.\<close>

lemma rank_le_trans: "rank_le a b \<Longrightarrow> rank_le b c \<Longrightarrow> rank_le a c"
  by (auto simp: rank_le_def)

lemma rank_le_total: "\<not> rank_le a b \<Longrightarrow> rank_le b a"
  by (auto simp: rank_le_def)

lemma max_profile_best:
  "max_profile (Some b) ps = Some p \<Longrightarrow>
     p \<in> set (b # ps) \<and> (\<forall>q \<in> set (b # ps). rank_le (profile_rank q) (profile_rank p))"
proof (induction ps arbitrary: b)
  case Nil
  then show ?case by (simp add: rank_le_def)
next
  case (Cons q ps)
  then show ?case
    by (cases "rank_le (profile_rank b) (profile_rank q)")
      (auto dest!: Cons.IH intro: rank_le_trans dest: rank_le_total)
qed

lemma max_profile_Some: "\<exists>p. max_profile (Some b) ps = Some p"
  by (induction ps arbitrary: b) auto

lemma value_profile_best:
  assumes "property_value_profile_for p connection mode = Some best_profile"
  shows "best_profile \<in> set (pr_value_profiles p) \<and> profile_applies connection mode best_profile
    \<and> (\<forall>q \<in> set (pr_value_profiles p). profile_applies connection mode q \<longrightarrow>
         rank_le (profile_rank q) (profile_rank best_profile))"
proof -
  obtain b ps where ps: "filter (profile_applies connection mode) (pr_value_profiles p) = b # ps"
    using assms by (cases "filter (profile_applies connection mode) (pr_value_profiles p)")
      (auto simp: property_value_profile_for_def)
  have mem: "q \<in> set (b # ps) \<longleftrightarrow> q \<in> set (pr_value_profiles p) \<and> profile_applies connection mode q" for q
    by (subst ps [symmetric]) auto
  show ?thesis
    using max_profile_best [of b ps best_profile] assms
    unfolding property_value_profile_for_def ps mem [symmetric] by (simp, metis mem)
qed


text \<open>A small manifest for concrete runs: capture needs the card property to be non-zero and
  the stills mode, which the same property selects.\<close>

definition card_leaf :: Leaf where
  "card_leaf = \<lparr>leaf_prop = lit ''0xd212'', leaf_mask = Some 255, leaf_eq = None, leaf_ne = Some 0,
                leaf_lt = None, leaf_gt = None\<rparr>"

definition capture_op :: Operation where
  "capture_op = \<lparr>op_kind = Executable, op_workflows = [], op_handler = None, op_property = None,
     op_object_size = None, op_modes = [lit ''shooting''], op_connections = [lit ''app''],
     op_requires = Some (P_Leaf card_leaf), op_requires_gate = None, op_effects = [], op_emits = [],
     op_dispositions = []\<rparr>"

definition sample_manifest :: CameraManifest where
  "sample_manifest = \<lparr>cm_camera = \<lparr>ci_manufacturer = lit ''M'', ci_model = lit ''X'',
       ci_firmware = lit ''2.30'', ci_identities = []\<rparr>,
     cm_camera_initiated_transfer = None, cm_operations = [(lit ''0x100e'', capture_op)],
     cm_properties = [(lit ''0xd212'', \<lparr>pr_ptype = Some (lit ''u16''), pr_access = Some ReadWrite,
       pr_initial_value = Some (DV_Int 1), pr_descriptor = None, pr_payload = None, pr_computed = None,
       pr_value_profiles = [], pr_requires_gate = None, pr_dispositions = [], pr_structured_text = None\<rparr>)],
     cm_media = None, cm_events = [],
     cm_modes = [(lit ''shooting/stills'', \<lparr>md_capabilities = [], md_detect = Some (P_Leaf card_leaf),
       md_phase = Some WP_LiveView\<rparr>)],
     cm_connections = [], cm_sentinels = []\<rparr>"


end
