(* ===== verification/Camera_State.thy ===== *)
theory Camera_State
  imports Manifest
begin

text \<open>
  Mutable camera state (\<^verbatim>\<open>crates/camera-sim/src/state.rs\<close>): the session flag, the workflow
  phase, the property values with their pending transitions, the event queue and the progress
  through the wire gates. Debug assertions are not modelled: the functions are those of a release
  build.
\<close>

section \<open>Data\<close>

datatype Phase =
    Disconnected | SessionOpen | ImageImport | QueuedReceive | LiveView | Streaming | Closed

fun state_name :: "Phase \<Rightarrow> ustring" where
  "state_name Disconnected = lit ''disconnected''"
| "state_name SessionOpen = lit ''sessionOpen''"
| "state_name ImageImport = lit ''imageImport''"
| "state_name QueuedReceive = lit ''queuedReceive''"
| "state_name LiveView = lit ''liveView''"
| "state_name Streaming = lit ''streaming''"
| "state_name Closed = lit ''closed''"

definition from_state_name :: "ustring \<Rightarrow> Phase option" where
  "from_state_name n =
     (if n = lit ''disconnected'' then Some Disconnected
      else if n = lit ''sessionOpen'' \<or> n = lit ''session_open'' \<or> n = lit ''session-open'' then Some SessionOpen
      else if n = lit ''imageImport'' \<or> n = lit ''image_import'' \<or> n = lit ''image-import'' then Some ImageImport
      else if n = lit ''queuedReceive'' \<or> n = lit ''queued_receive'' \<or> n = lit ''queued-receive''
        then Some QueuedReceive
      else if n = lit ''liveView'' \<or> n = lit ''live_view'' \<or> n = lit ''live-view'' then Some LiveView
      else if n = lit ''streaming'' then Some Streaming
      else if n = lit ''closed'' then Some Closed
      else None)"

fun phase_of_workflow :: "WorkflowPhase \<Rightarrow> Phase" where
  "phase_of_workflow WP_SessionOpen = SessionOpen"
| "phase_of_workflow WP_ImageImport = ImageImport"
| "phase_of_workflow WP_LiveView = LiveView"
| "phase_of_workflow WP_Streaming = Streaming"

record QueuedEvent =
  qe_code :: u16
  qe_params :: "u32 list"

record PendingTransition =
  pt_value :: PropValue
  pt_remaining :: nat

record CameraState =
  cs_session_open :: bool
  cs_phase :: Phase
  cs_active_mode :: "ustring option"
  cs_props :: "u16 \<Rightarrow> PropValue option"
  cs_pending :: "u16 \<Rightarrow> PendingTransition option"
  cs_events :: "QueuedEvent list"
  cs_satisfied_gates :: "ustring set"
  cs_gate_progress :: "ustring \<times> nat \<Rightarrow> nat option"

section \<open>Typed values\<close>

definition datatype_of :: "ustring option \<Rightarrow> u16" where
  "datatype_of ty =
     (if ty = Some (lit ''i8'') then 0x0001
      else if ty = Some (lit ''u8'') then 0x0002
      else if ty = Some (lit ''i16'') then 0x0003
      else if ty = Some (lit ''u16'') then 0x0004
      else if ty = Some (lit ''i32'') then 0x0005
      else if ty = Some (lit ''u32'') then 0x0006
      else if ty = Some (lit ''i64'') then 0x0007
      else if ty = Some (lit ''u64'') then 0x0008
      else if ty = Some (lit ''str'') then 0xffff
      else 0x0004)"

definition typed :: "u16 \<Rightarrow> int \<Rightarrow> PropValue" where
  "typed dt v =
     (if dt = 0x0001 then PV_I8 (word_of_int v)
      else if dt = 0x0002 then PV_U8 (word_of_int v)
      else if dt = 0x0003 then PV_I16 (word_of_int v)
      else if dt = 0x0004 then PV_U16 (word_of_int v)
      else if dt = 0x0005 then PV_I32 (word_of_int v)
      else if dt = 0x0006 then PV_U32 (word_of_int v)
      else if dt = 0x0007 then PV_I64 (word_of_int v)
      else if dt = 0x0008 then PV_U64 (word_of_int v)
      else if dt = 0xffff then PV_Str (int_decimal v)
      else PV_U16 (word_of_int v))"

definition default_prop_value :: "u16 \<Rightarrow> PropValue" where
  "default_prop_value dt = (if dt = 0xffff then PV_Str [] else typed dt 0)"

fun typed_descriptor_value :: "u16 \<Rightarrow> DescriptorValue \<Rightarrow> PropValue option" where
  "typed_descriptor_value dt (DV_Int v) = Some (typed dt v)"
| "typed_descriptor_value dt (DV_Str s) = (if dt = 0xffff then Some (PV_Str s) else None)"

section \<open>State operations\<close>

definition seed_property :: "ustring \<times> Property \<Rightarrow> (u16 \<Rightarrow> PropValue option) \<Rightarrow> u16 \<Rightarrow> PropValue option" where
  "seed_property kp props =
     (case parse_hex_code (fst kp) of
        None \<Rightarrow> props
      | Some code \<Rightarrow>
          (let p = snd kp;
               dt = datatype_of (pr_ptype p);
               seed = (case pr_initial_value p of
                         Some v \<Rightarrow> typed_descriptor_value dt v
                       | None \<Rightarrow>
                           (case pr_descriptor p of
                              None \<Rightarrow> None
                            | Some d \<Rightarrow>
                                (case d_values d of [] \<Rightarrow> None | v # _ \<Rightarrow> typed_descriptor_value dt v)))
           in case seed of None \<Rightarrow> props | Some v \<Rightarrow> props(code := Some v)))"

definition state_from_manifest :: "CameraManifest \<Rightarrow> CameraState" where
  "state_from_manifest m =
     \<lparr>cs_session_open = False, cs_phase = Disconnected, cs_active_mode = None,
      cs_props = fold seed_property (cm_properties m) Map.empty, cs_pending = Map.empty,
      cs_events = [], cs_satisfied_gates = {}, cs_gate_progress = Map.empty\<rparr>"

definition set_value :: "u16 \<Rightarrow> PropValue \<Rightarrow> CameraState \<Rightarrow> CameraState" where
  "set_value code v s = s\<lparr>cs_props := (cs_props s)(code := Some v)\<rparr>"

definition arm_effect :: "u16 \<Rightarrow> PropValue \<Rightarrow> nat \<Rightarrow> CameraState \<Rightarrow> CameraState" where
  "arm_effect code v settle_after_polls s =
     (if settle_after_polls = 0
      then (set_value code v s)\<lparr>cs_pending := (cs_pending s)(code := None)\<rparr>
      else s\<lparr>cs_pending := (cs_pending s)
               (code := Some \<lparr>pt_value = v, pt_remaining = settle_after_polls\<rparr>)\<rparr>)"

definition resolve_pending :: "u16 \<Rightarrow> CameraState \<Rightarrow> CameraState" where
  "resolve_pending code s =
     (case cs_pending s code of
        None \<Rightarrow> s
      | Some p \<Rightarrow>
          (let remaining = pt_remaining p - 1
           in if remaining = 0
              then (set_value code (pt_value p) s)\<lparr>cs_pending := (cs_pending s)(code := None)\<rparr>
              else s\<lparr>cs_pending := (cs_pending s)(code := Some (p\<lparr>pt_remaining := remaining\<rparr>))\<rparr>))"

definition push_event_with_params :: "u16 \<Rightarrow> u32 list \<Rightarrow> CameraState \<Rightarrow> CameraState" where
  "push_event_with_params code params s =
     s\<lparr>cs_events := cs_events s @ [\<lparr>qe_code = code, qe_params = params\<rparr>]\<rparr>"

definition push_event :: "u16 \<Rightarrow> CameraState \<Rightarrow> CameraState" where
  "push_event code s = push_event_with_params code [] s"

fun remove_first :: "('a \<Rightarrow> bool) \<Rightarrow> 'a list \<Rightarrow> 'a list option" where
  "remove_first P [] = None"
| "remove_first P (x # xs) = (if P x then Some xs else map_option (Cons x) (remove_first P xs))"

definition take_event :: "u16 \<Rightarrow> CameraState \<Rightarrow> bool \<times> CameraState" where
  "take_event code s =
     (case remove_first (\<lambda>e. qe_code e = code) (cs_events s) of
        None \<Rightarrow> (False, s) | Some es \<Rightarrow> (True, s\<lparr>cs_events := es\<rparr>))"

definition drain_events :: "CameraState \<Rightarrow> QueuedEvent list \<times> CameraState" where
  "drain_events s = (cs_events s, s\<lparr>cs_events := []\<rparr>)"

definition gate_satisfied :: "ustring \<Rightarrow> CameraState \<Rightarrow> bool" where
  "gate_satisfied name s \<longleftrightarrow> name \<in> cs_satisfied_gates s"

definition satisfy_gate :: "ustring \<Rightarrow> CameraState \<Rightarrow> CameraState" where
  "satisfy_gate name s = s\<lparr>cs_satisfied_gates := insert name (cs_satisfied_gates s)\<rparr>"

definition clear_gate :: "ustring \<Rightarrow> CameraState \<Rightarrow> CameraState" where
  "clear_gate name s =
     s\<lparr>cs_satisfied_gates := cs_satisfied_gates s - {name},
       cs_gate_progress := (\<lambda>(gate, i). if gate = name then None else cs_gate_progress s (gate, i))\<rparr>"

definition reset_gates :: "CameraState \<Rightarrow> CameraState" where
  "reset_gates s = s\<lparr>cs_satisfied_gates := {}, cs_gate_progress := Map.empty\<rparr>"

definition gate_progress :: "ustring \<Rightarrow> nat \<Rightarrow> CameraState \<Rightarrow> nat" where
  "gate_progress name i s = (case cs_gate_progress s (name, i) of None \<Rightarrow> 0 | Some n \<Rightarrow> n)"

definition set_gate_progress :: "ustring \<Rightarrow> nat \<Rightarrow> nat \<Rightarrow> CameraState \<Rightarrow> CameraState" where
  "set_gate_progress name i progress s =
     s\<lparr>cs_gate_progress := (cs_gate_progress s)
         ((name, i) := (if progress = 0 then None else Some progress))\<rparr>"

fun mode_key_of :: "Phase \<Rightarrow> ustring" where
  "mode_key_of LiveView = lit ''liveView''"
| "mode_key_of Streaming = lit ''liveView''"
| "mode_key_of ImageImport = lit ''imageImport''"
| "mode_key_of _ = []"

definition mode_key :: "CameraState \<Rightarrow> ustring" where
  "mode_key s = mode_key_of (cs_phase s)"

definition manifest_mode_path :: "CameraState \<Rightarrow> ustring" where
  "manifest_mode_path s =
     (case cs_active_mode s of
        Some m \<Rightarrow> m
      | None \<Rightarrow>
          (if cs_phase s \<in> {SessionOpen, LiveView, Streaming} then lit ''shooting/stills''
           else if cs_phase s = ImageImport then lit ''image-transfer''
           else []))"

definition desc_form :: "u16 \<Rightarrow> Descriptor option \<Rightarrow> PropForm" where
  "desc_form dt d =
     (case d of
        None \<Rightarrow> PF_None
      | Some d \<Rightarrow>
          if d_form d = lit ''enum''
          then PF_Enum (List.map_filter (typed_descriptor_value dt) (d_values d))
          else if d_form d = lit ''range'' \<and> length (d_values d) = 3 then
            (case (as_i64 (d_values d ! 0), as_i64 (d_values d ! 1), as_i64 (d_values d ! 2)) of
               (Some lo, Some hi, Some step) \<Rightarrow> PF_Range (typed dt lo) (typed dt hi) (typed dt step)
             | _ \<Rightarrow> PF_None)
          else PF_None)"

definition build_prop_desc :: "CameraManifest \<Rightarrow> CameraState \<Rightarrow> u16 \<Rightarrow> DevicePropDesc option" where
  "build_prop_desc m s code =
     (case property m code of
        None \<Rightarrow> None
      | Some p \<Rightarrow>
          (let dt = datatype_of (pr_ptype p);
               current = (case cs_props s code of Some v \<Rightarrow> v | None \<Rightarrow> default_prop_value dt);
               get_set = (if pr_access p = Some ReadWrite then 1 else 0)
           in Some \<lparr>dpd_code = code, dpd_datatype = dt, dpd_get_set = get_set,
                    dpd_factory_default = current, dpd_current = current,
                    dpd_form = desc_form dt (pr_descriptor p)\<rparr>))"

section \<open>Values have their declared type\<close>

lemma state_name_round_trip: "from_state_name (state_name p) = Some p"
  by (cases p) (simp_all add: from_state_name_def lit_def)

lemma datatype_of_cases:
  "datatype_of ty \<in> {0x0001, 0x0002, 0x0003, 0x0004, 0x0005, 0x0006, 0x0007, 0x0008, 0xffff}"
  by (simp add: datatype_of_def)

lemma typed_code: "PropValue_datatype_code (typed (datatype_of ty) v) = datatype_of ty"
  using datatype_of_cases [of ty] by (auto simp: typed_def)

lemma default_code: "PropValue_datatype_code (default_prop_value (datatype_of ty)) = datatype_of ty"
  using typed_code [of ty 0] by (simp add: default_prop_value_def)

lemma typed_descriptor_code:
  "typed_descriptor_value (datatype_of ty) d = Some v \<Longrightarrow> PropValue_datatype_code v = datatype_of ty"
  by (cases d) (auto simp: typed_code split: if_splits)

lemma PropValue_decode_code:
  assumes "PropValue_decode dt r = Inr (v, r')"
  shows "PropValue_datatype_code v = dt"
  using assms unfolding PropValue_decode_def
  by (auto simp: rd_bind_Inr_iff rd_return_def rd_fail_def split: if_splits)

definition value_typed :: "CameraManifest \<Rightarrow> u16 \<Rightarrow> PropValue \<Rightarrow> bool" where
  "value_typed m code v \<longleftrightarrow>
     (\<forall>p. property m code = Some p \<longrightarrow> PropValue_datatype_code v = datatype_of (pr_ptype p))"

definition values_typed :: "CameraManifest \<Rightarrow> (u16 \<Rightarrow> PropValue option) \<Rightarrow> bool" where
  "values_typed m props \<longleftrightarrow> (\<forall>code v. props code = Some v \<longrightarrow> value_typed m code v)"

definition state_typed :: "CameraManifest \<Rightarrow> CameraState \<Rightarrow> bool" where
  "state_typed m s \<longleftrightarrow>
     values_typed m (cs_props s) \<and>
     (\<forall>code p. cs_pending s code = Some p \<longrightarrow> value_typed m code (pt_value p))"

text \<open>No two keys of the property catalog parse to the same code.\<close>

definition distinct_codes :: "CameraManifest \<Rightarrow> bool" where
  "distinct_codes m \<longleftrightarrow>
     distinct (List.map_filter (\<lambda>kp. parse_hex_code (fst kp)) (cm_properties m))"

lemma find_code_distinct:
  assumes "distinct (List.map_filter (\<lambda>kp. parse_hex_code (fst kp)) kvs)" "(k, x) \<in> set kvs"
    "parse_hex_code k = Some code"
  shows "find_code kvs code = Some x"
  using assms
proof (induction kvs)
  case (Cons kv kvs)
  show ?case
  proof (cases "kv = (k, x)")
    case False
    then have "(k, x) \<in> set kvs"
      using Cons.prems(2) by auto
    moreover from this have "code \<in> set (List.map_filter (\<lambda>kp. parse_hex_code (fst kp)) kvs)"
      using Cons.prems(3) by (force simp: List.map_filter_def)
    ultimately show ?thesis
      using Cons False
      by (cases "parse_hex_code (fst kv)") (auto simp: find_code_def case_prod_beta split: if_splits)
  qed (simp add: find_code_def Cons.prems(3))
qed simp

lemma seed_property_cases:
  assumes "seed_property kp props c = Some v"
  shows "props c = Some v \<or>
    parse_hex_code (fst kp) = Some c \<and> PropValue_datatype_code v = datatype_of (pr_ptype (snd kp))"
  using assms
  by (auto simp: seed_property_def Let_def fun_upd_def typed_descriptor_code
      split: option.split_asm if_split_asm list.split_asm)

lemma seed_property_typed:
  assumes "distinct_codes m" "kp \<in> set (cm_properties m)" "values_typed m props"
  shows "values_typed m (seed_property kp props)"
  unfolding values_typed_def
proof (intro allI impI)
  fix c v
  assume "seed_property kp props c = Some v"
  then consider "props c = Some v" | "parse_hex_code (fst kp) = Some c"
      "PropValue_datatype_code v = datatype_of (pr_ptype (snd kp))"
    using seed_property_cases by blast
  then show "value_typed m c v"
  proof cases
    case 1
    then show ?thesis using assms(3) by (simp add: values_typed_def)
  next
    case 2
    then have "property m c = Some (snd kp)"
      using find_code_distinct [of "cm_properties m" "fst kp" "snd kp" c] assms(1,2)
      by (simp add: distinct_codes_def property_def)
    then show ?thesis using 2 by (simp add: value_typed_def)
  qed
qed

lemma fold_seed_typed:
  assumes "distinct_codes m"
  shows "set kps \<subseteq> set (cm_properties m) \<Longrightarrow> values_typed m props \<Longrightarrow>
    values_typed m (fold seed_property kps props)"
proof (induction kps arbitrary: props)
  case (Cons kp kps)
  then have "values_typed m (seed_property kp props)"
    using seed_property_typed [OF assms, of kp props] by simp
  then show ?case
    using Cons by simp
qed simp

lemma state_from_manifest_typed: "distinct_codes m \<Longrightarrow> state_typed m (state_from_manifest m)"
  using fold_seed_typed [of m "cm_properties m" Map.empty]
  by (simp add: state_typed_def state_from_manifest_def values_typed_def)

lemma values_typed_upd: "values_typed m props \<Longrightarrow> value_typed m c v \<Longrightarrow> values_typed m (props(c \<mapsto> v))"
  by (simp add: values_typed_def)

lemma set_value_typed: "state_typed m s \<Longrightarrow> value_typed m code v \<Longrightarrow> state_typed m (set_value code v s)"
  by (simp add: state_typed_def set_value_def values_typed_upd)

lemma arm_effect_typed:
  "state_typed m s \<Longrightarrow> value_typed m code v \<Longrightarrow> state_typed m (arm_effect code v n s)"
  by (simp add: state_typed_def arm_effect_def set_value_def values_typed_upd)

lemma resolve_pending_typed: "state_typed m s \<Longrightarrow> state_typed m (resolve_pending code s)"
  by (auto simp: state_typed_def resolve_pending_def set_value_def Let_def values_typed_upd
      split: option.split)

lemma typed_value_typed:
  "value_typed m code (typed (datatype_of (case property m code of None \<Rightarrow> None | Some p \<Rightarrow> pr_ptype p)) v)"
  by (simp add: value_typed_def typed_code)

text \<open>Operations that do not touch the values.\<close>

lemma state_typed_frame:
  "cs_props s' = cs_props s \<Longrightarrow> cs_pending s' = cs_pending s \<Longrightarrow> state_typed m s \<Longrightarrow> state_typed m s'"
  by (simp add: state_typed_def)

lemma state_ops_frame [simp]:
  "cs_props (push_event_with_params c ps s) = cs_props s"
  "cs_pending (push_event_with_params c ps s) = cs_pending s"
  "cs_props (push_event c s) = cs_props s" "cs_pending (push_event c s) = cs_pending s"
  "cs_props (satisfy_gate g s) = cs_props s" "cs_pending (satisfy_gate g s) = cs_pending s"
  "cs_props (clear_gate g s) = cs_props s" "cs_pending (clear_gate g s) = cs_pending s"
  "cs_props (reset_gates s) = cs_props s" "cs_pending (reset_gates s) = cs_pending s"
  "cs_props (set_gate_progress g i n s) = cs_props s" "cs_pending (set_gate_progress g i n s) = cs_pending s"
  by (simp_all add: push_event_with_params_def push_event_def satisfy_gate_def clear_gate_def
      reset_gates_def set_gate_progress_def)

text \<open>A descriptor built from a well-typed state can be sent.\<close>

fun form_values :: "PropForm \<Rightarrow> PropValue list" where
  "form_values PF_None = []"
| "form_values (PF_Range lo hi step) = [lo, hi, step]"
| "form_values (PF_Enum vs) = vs"

lemma list_all_map_filter:
  "(\<And>x y. f x = Some y \<Longrightarrow> P y) \<Longrightarrow> list_all P (List.map_filter f xs)"
  by (induction xs) (auto split: option.split)

lemma desc_form_typed:
  "list_all (\<lambda>v. PropValue_datatype_code v = datatype_of ty) (form_values (desc_form (datatype_of ty) d))"
proof -
  have "list_all (\<lambda>v. PropValue_datatype_code v = datatype_of ty)
      (List.map_filter (typed_descriptor_value (datatype_of ty)) vs)" for vs
    by (rule list_all_map_filter) (rule typed_descriptor_code)
  then show ?thesis
    by (auto simp: desc_form_def typed_code split: option.split)
qed

lemma build_prop_desc_typed:
  assumes "state_typed m s" "build_prop_desc m s code = Some d"
  shows "list_all (\<lambda>v. PropValue_datatype_code v = dpd_datatype d)
    (dpd_factory_default d # dpd_current d # form_values (dpd_form d))"
proof -
  obtain p where p: "property m code = Some p"
    using assms(2) by (auto simp: build_prop_desc_def split: option.split_asm)
  have "PropValue_datatype_code v = datatype_of (pr_ptype p)" if "cs_props s code = Some v" for v
    using assms(1) that p by (simp add: state_typed_def values_typed_def value_typed_def)
  then show ?thesis
    using assms(2) p desc_form_typed [of "pr_ptype p" "pr_descriptor p"]
    by (auto simp: build_prop_desc_def Let_def default_code split: option.split)
qed

lemma valid_form_typed:
  "length (form_values f) < 2 ^ 16 \<Longrightarrow> list_all (\<lambda>v. PropValue_datatype_code v = dt) (form_values f) \<Longrightarrow>
   list_all valid_PropValue (form_values f) \<Longrightarrow> valid_PropForm dt f"
  by (cases f) (auto simp: typed_as_def list_all_iff)

section \<open>Effects settle by polling\<close>

lemma resolve_pending_other:
  "c \<noteq> code \<Longrightarrow> cs_props (resolve_pending c s) code = cs_props s code"
  "c \<noteq> code \<Longrightarrow> cs_pending (resolve_pending c s) code = cs_pending s code"
  by (simp_all add: resolve_pending_def set_value_def Let_def split: option.split)

lemma resolve_pending_done:
  "cs_pending s code = Some p \<Longrightarrow> pt_remaining p = 1 \<Longrightarrow>
   cs_props (resolve_pending code s) code = Some (pt_value p) \<and>
   cs_pending (resolve_pending code s) code = None"
  by (simp add: resolve_pending_def set_value_def)

lemma resolve_pending_tick:
  "cs_pending s code = Some p \<Longrightarrow> 1 < pt_remaining p \<Longrightarrow>
   cs_props (resolve_pending code s) code = cs_props s code \<and>
   cs_pending (resolve_pending code s) code = Some (p\<lparr>pt_remaining := pt_remaining p - 1\<rparr>)"
  by (simp add: resolve_pending_def)

lemma polls_settled:
  "cs_pending s code = None \<Longrightarrow>
   cs_props (fold resolve_pending polls s) code = cs_props s code \<and>
   cs_pending (fold resolve_pending polls s) code = None"
proof (induction polls arbitrary: s)
  case (Cons c polls)
  have "cs_pending (resolve_pending c s) code = None"
    "cs_props (resolve_pending c s) code = cs_props s code"
    using Cons.prems resolve_pending_other [of c code s]
    by (cases "c = code"; simp add: resolve_pending_def)+
  then show ?case
    using Cons.IH by simp
qed simp

lemma polls_count_down:
  assumes "cs_pending s code = Some p" "0 < pt_remaining p"
  shows "cs_props (fold resolve_pending polls s) code =
      (if count_list polls code < pt_remaining p then cs_props s code else Some (pt_value p)) \<and>
    (cs_pending (fold resolve_pending polls s) code = None \<longleftrightarrow> pt_remaining p \<le> count_list polls code)"
  using assms
proof (induction polls arbitrary: s p)
  case (Cons c polls)
  show ?case
  proof (cases "c = code")
    case False
    then show ?thesis
      using Cons.IH [of "resolve_pending c s" p] Cons.prems resolve_pending_other [of c code s] by simp
  next
    case True
    show ?thesis
    proof (cases "pt_remaining p = 1")
      case True
      then show ?thesis
        using \<open>c = code\<close> resolve_pending_done [OF Cons.prems(1)]
          polls_settled [of "resolve_pending code s" code polls] by simp
    next
      case False
      then have "1 < pt_remaining p"
        using Cons.prems(2) by simp
      then show ?thesis
        using \<open>c = code\<close> resolve_pending_tick [OF Cons.prems(1)]
          Cons.IH [of "resolve_pending code s" "p\<lparr>pt_remaining := pt_remaining p - 1\<rparr>"]
        by auto
    qed
  qed
qed simp

section \<open>Properties\<close>

text \<open>An effect armed on a property to settle after n polls keeps the old value in the readback
  until that property has been polled n times, in any interleaving with polls of other properties,
  and from then on reads back the new value with no transition left pending.\<close>
theorem effect_settles_after_polls:
  "cs_props (fold resolve_pending polls (arm_effect code v n s)) code =
     (if count_list polls code < n then cs_props s code else Some v) \<and>
   (cs_pending (fold resolve_pending polls (arm_effect code v n s)) code = None \<longleftrightarrow>
     n \<le> count_list polls code)"
proof (cases "n = 0")
  case True
  then show ?thesis
    using polls_settled [of "arm_effect code v 0 s" code polls] by (simp add: arm_effect_def set_value_def)
next
  case False
  then show ?thesis
    using polls_count_down [of "arm_effect code v n s" code "\<lparr>pt_value = v, pt_remaining = n\<rparr>" polls]
    by (simp add: arm_effect_def)
qed

text \<open>C38: in a state whose stored values have their declared datatypes, the property descriptor the
  camera builds for a catalogued property, if its texts and its enumeration fit the wire format, is
  encoded without error and a client decodes exactly that descriptor.\<close>
theorem built_descriptor_decodes:
  assumes "state_typed m s" "build_prop_desc m s code = Some d"
    "list_all valid_PropValue (dpd_current d # form_values (dpd_form d))"
    "length (form_values (dpd_form d)) < 2 ^ 16"
  shows "\<exists>bs. wr_run (DevicePropDesc_encode d) = Inr bs \<and> DevicePropDesc_decode bs = Inr d"
proof (rule propdesc.frame_law)
  have "dpd_factory_default d = dpd_current d"
    using assms(2) by (auto simp: build_prop_desc_def Let_def split: option.split_asm)
  then show "valid_DevicePropDesc d"
    using build_prop_desc_typed [OF assms(1,2)] assms(3) valid_form_typed [OF assms(4)]
    by (simp add: valid_DevicePropDesc_def typed_as_def)
qed

theorem built_descriptor_decodes_witness:
  "\<exists>d bs. build_prop_desc sample_manifest (state_from_manifest sample_manifest) 0xd212 = Some d \<and>
     DevicePropDesc_decode bs = Inr d"
proof -
  let ?d = "\<lparr>dpd_code = 0xd212, dpd_datatype = 4, dpd_get_set = 1, dpd_factory_default = PV_U16 1,
    dpd_current = PV_U16 1, dpd_form = PF_None\<rparr>"
  have "distinct_codes sample_manifest"
    by code_simp
  then have t: "state_typed sample_manifest (state_from_manifest sample_manifest)"
    by (rule state_from_manifest_typed)
  have b: "build_prop_desc sample_manifest (state_from_manifest sample_manifest) 0xd212 = Some ?d"
    by code_simp
  have "\<exists>bs. wr_run (DevicePropDesc_encode ?d) = Inr bs \<and> DevicePropDesc_decode bs = Inr ?d"
    by (rule built_descriptor_decodes [OF t b]) simp_all
  with b show ?thesis by blast
qed

end
