(* ===== verification/Gates.thy ===== *)
theory Gates
  imports Camera_State
begin

text \<open>
  Ordered wire-precondition gates of the simulator engine
  (\<^verbatim>\<open>crates/camera-sim/src/engine.rs\<close>): the compilation of manifest steps to matcher sequences
  (\<^verbatim>\<open>compile_gate_sequences\<close>, \<^verbatim>\<open>compile_channel_sequences\<close>) and the advance of the sequences
  over successful operations (\<^verbatim>\<open>advance_sequence_gates\<close>).
\<close>

section \<open>Codes\<close>

abbreviation GET_DEVICE_INFO :: u16 where "GET_DEVICE_INFO \<equiv> 0x1001"
abbreviation OPEN_SESSION :: u16 where "OPEN_SESSION \<equiv> 0x1002"
abbreviation CLOSE_SESSION :: u16 where "CLOSE_SESSION \<equiv> 0x1003"
abbreviation GET_STORAGE_IDS :: u16 where "GET_STORAGE_IDS \<equiv> 0x1004"
abbreviation GET_OBJECT_HANDLES :: u16 where "GET_OBJECT_HANDLES \<equiv> 0x1007"
abbreviation GET_OBJECT_INFO :: u16 where "GET_OBJECT_INFO \<equiv> 0x1008"
abbreviation GET_OBJECT :: u16 where "GET_OBJECT \<equiv> 0x1009"
abbreviation GET_THUMB :: u16 where "GET_THUMB \<equiv> 0x100a"
abbreviation DELETE_OBJECT :: u16 where "DELETE_OBJECT \<equiv> 0x100b"
abbreviation INITIATE_CAPTURE :: u16 where "INITIATE_CAPTURE \<equiv> 0x100e"
abbreviation GET_DEVICE_PROP_DESC :: u16 where "GET_DEVICE_PROP_DESC \<equiv> 0x1014"
abbreviation GET_DEVICE_PROP_VALUE :: u16 where "GET_DEVICE_PROP_VALUE \<equiv> 0x1015"
abbreviation SET_DEVICE_PROP_VALUE :: u16 where "SET_DEVICE_PROP_VALUE \<equiv> 0x1016"
abbreviation GET_PARTIAL_OBJECT :: u16 where "GET_PARTIAL_OBJECT \<equiv> 0x101b"
abbreviation INITIATE_OPEN_CAPTURE :: u16 where "INITIATE_OPEN_CAPTURE \<equiv> 0x101c"
abbreviation TERMINATE_OPEN_CAPTURE :: u16 where "TERMINATE_OPEN_CAPTURE \<equiv> 0x1018"

section \<open>Compilation\<close>

datatype GateMatcher =
    GM_SetProp u16 "int option"
  | GM_GetProp u16
  | GM_SendOp u16 "u32 list"
  | GM_SuccessfulOperation u16

record GateSequence =
  gs_name :: ustring
  gs_steps :: "GateMatcher list"

definition literal_params :: "StepParam list \<Rightarrow> u32 list option" where
  "literal_params ps =
     collect_options (map (\<lambda>p. case p of SP_Literal v \<Rightarrow> Some v | SP_Runtime _ _ _ \<Rightarrow> None) ps)"

definition matcher_for_step :: "Step \<Rightarrow> GateMatcher option" where
  "matcher_for_step s =
     (if \<not> is_sequence_gate_matchable s then None
      else case st_set_prop s of
        Some p \<Rightarrow>
          (case st_value s of
             None \<Rightarrow> map_option (\<lambda>c. GM_SetProp c None) (parse_hex_code p)
           | Some (SV_Literal v) \<Rightarrow> map_option (\<lambda>c. GM_SetProp c (Some v)) (parse_hex_code p)
           | Some (SV_Runtime _ _) \<Rightarrow> None)
      | None \<Rightarrow>
          (case st_get_prop s of
             Some p \<Rightarrow> map_option GM_GetProp (parse_hex_code p)
           | None \<Rightarrow>
               (case st_send_op s of
                  Some opn \<Rightarrow>
                    (case (parse_hex_code opn, literal_params (st_params s)) of
                       (Some c, Some ps) \<Rightarrow> Some (GM_SendOp c ps) | _ \<Rightarrow> None)
                | None \<Rightarrow> None)))"

lemma size_retry_steps [termination_simp]:
  "st_retry s = Some r \<Longrightarrow> size_list size (rt_steps r) < size s"
  "st_retry s = Some r \<Longrightarrow> rt_fallback r = Some fb \<Longrightarrow> size_list size fb < size s"
  by (cases s; cases r; simp)+

function matcher_sequence :: "Step list \<Rightarrow> GateMatcher list option" where
  "matcher_sequence [] = Some []"
| "matcher_sequence (s # ss) =
     (if st_retry s \<noteq> None \<and> (st_set_prop s \<noteq> None \<or> st_send_op s \<noteq> None) then None
      else case st_retry s of
        Some r \<Rightarrow>
          (if rt_fallback r \<noteq> None then None
           else case matcher_sequence (rt_steps r) of
             None \<Rightarrow> None
           | Some [] \<Rightarrow> None
           | Some ms \<Rightarrow> map_option (append ms) (matcher_sequence ss))
      | None \<Rightarrow>
          (case matcher_for_step s of
             None \<Rightarrow> None
           | Some m \<Rightarrow> map_option (Cons m) (matcher_sequence ss)))"
  by pat_completeness auto
termination
  by (relation "measure (size_list size)") (auto dest: size_retry_steps)

definition matcher_sequence_for_steps :: "Step list \<Rightarrow> GateMatcher list option" where
  "matcher_sequence_for_steps steps =
     (case matcher_sequence steps of Some [] \<Rightarrow> None | r \<Rightarrow> r)"

definition action_sends_op :: "Action \<Rightarrow> u16 \<Rightarrow> bool" where
  "action_sends_op a code \<longleftrightarrow>
     (case ac_initiator a of
        None \<Rightarrow> False
      | Some i \<Rightarrow>
          list_ex (\<lambda>s. (case st_send_op s of None \<Rightarrow> None | Some h \<Rightarrow> parse_hex_code h) = Some code)
            (ai_steps i))"

text \<open>The gates being collected: absent, broken by an unmatchable step, or with the matchers so
  far.\<close>

type_synonym active_gates = "ustring \<Rightarrow> GateMatcher list option option"

definition extend_gate ::
  "ustring option \<Rightarrow> GateMatcher option \<Rightarrow> active_gates \<Rightarrow> active_gates" where
  "extend_gate starts matcher active =
     (\<lambda>g. if Some g = starts then active g
          else case (active g, matcher) of
            (Some (Some ms), Some m) \<Rightarrow> Some (Some (ms @ [m]))
          | (Some (Some ms), None) \<Rightarrow> Some None
          | (a, _) \<Rightarrow> a)"

definition start_gate ::
  "ustring option \<Rightarrow> GateMatcher option \<Rightarrow> active_gates \<Rightarrow> active_gates" where
  "start_gate starts matcher active =
     (case starts of
        None \<Rightarrow> active
      | Some g \<Rightarrow> active(g := Some (map_option (\<lambda>m. [m]) matcher)))"

definition add_sequence :: "GateSequence \<Rightarrow> GateSequence list \<Rightarrow> GateSequence list" where
  "add_sequence q out = (if q \<in> set out then out else out @ [q])"

definition complete_gate ::
  "ustring option \<Rightarrow> active_gates \<Rightarrow> GateSequence list \<Rightarrow> active_gates \<times> GateSequence list" where
  "complete_gate completes active out =
     (case completes of
        None \<Rightarrow> (active, out)
      | Some g \<Rightarrow>
          (active(g := None),
           (case active g of
              Some (Some ms) \<Rightarrow>
                (if ms = [] then out else add_sequence \<lparr>gs_name = g, gs_steps = ms\<rparr> out)
            | _ \<Rightarrow> out)))"

definition gate_step ::
  "Step \<Rightarrow> active_gates \<Rightarrow> GateSequence list \<Rightarrow> active_gates \<times> GateSequence list" where
  "gate_step s active out =
     (let matcher = matcher_for_step s;
          starts = st_starts_gate s
      in complete_gate (st_completes_gate s)
           (start_gate starts matcher (extend_gate starts matcher active)) out)"

function collect_gates :: "Step list \<Rightarrow> active_gates \<Rightarrow> GateSequence list \<Rightarrow> GateSequence list" where
  "collect_gates [] active out = out"
| "collect_gates (s # ss) active out =
     (let out1 = (case st_retry s of
                    None \<Rightarrow> out
                  | Some r \<Rightarrow>
                      (case rt_fallback r of
                         None \<Rightarrow> collect_gates (rt_steps r) Map.empty out
                       | Some fb \<Rightarrow>
                           collect_gates fb Map.empty (collect_gates (rt_steps r) Map.empty out)));
          (active2, out2) = gate_step s active out1
      in collect_gates ss active2 out2)"
  by pat_completeness auto
termination
  by (relation "measure (\<lambda>(ss, _, _). size_list size ss)") (auto dest: size_retry_steps)

definition collect_gate_sequences :: "Step list \<Rightarrow> GateSequence list \<Rightarrow> GateSequence list" where
  "collect_gate_sequences steps out = collect_gates steps Map.empty out"

fun collect_entry :: "ModeEntryExecution \<Rightarrow> GateSequence list \<Rightarrow> GateSequence list" where
  "collect_entry (ME_Ptp steps) out = collect_gate_sequences steps out"
| "collect_entry (ME_ReestablishConnection exit_steps) out = collect_gate_sequences exit_steps out"
| "collect_entry (ME_UserInstruction i) out = out"

definition collect_action :: "Action \<Rightarrow> GateSequence list \<Rightarrow> GateSequence list" where
  "collect_action a out =
     (case ac_initiator a of None \<Rightarrow> out | Some i \<Rightarrow> collect_gate_sequences (ai_steps i) out)"

definition compile_gate_sequences :: "CameraManifest \<Rightarrow> GateSequence list" where
  "compile_gate_sequences m =
     fold (\<lambda>(_, c) out.
             fold (\<lambda>(_, a). collect_action a) (cn_actions c)
               (fold (\<lambda>e. collect_entry (me_execution e)) (cn_entries c) out))
       (cm_connections m) []"

fun role_debug :: "SocketRole \<Rightarrow> ustring" where
  "role_debug SR_Command = lit ''Command''"
| "role_debug SR_Event = lit ''Event''"
| "role_debug SR_LiveView = lit ''LiveView''"

definition channel_gate_name :: "ustring \<Rightarrow> SocketRole \<Rightarrow> ustring" where
  "channel_gate_name connection role =
     lit ''channel-ready:'' @ connection @ lit '':'' @ role_debug role"

definition bound_after :: "SocketBindings option \<Rightarrow> SocketRole \<Rightarrow> bool" where
  "bound_after bindings role \<longleftrightarrow>
     (case bindings of None \<Rightarrow> False | Some b \<Rightarrow> available_after b role \<noteq> None)"

fun collect_channels ::
  "ustring \<Rightarrow> SocketBindings option \<Rightarrow> Step list \<Rightarrow> GateMatcher list \<Rightarrow> GateSequence list
    \<Rightarrow> GateSequence list" where
  "collect_channels connection bindings [] causal_prefix out = out"
| "collect_channels connection bindings (s # ss) causal_prefix out =
     (case st_open_channel s of
        Some role \<Rightarrow>
          (if bound_after bindings role \<or> causal_prefix = []
           then collect_channels connection bindings ss causal_prefix out
           else collect_channels connection bindings ss causal_prefix
                  (add_sequence \<lparr>gs_name = channel_gate_name connection role,
                                 gs_steps = causal_prefix\<rparr> out))
      | None \<Rightarrow>
          (if st_tolerant s then collect_channels connection bindings ss [] out
           else case matcher_for_step s of
             Some m \<Rightarrow> collect_channels connection bindings ss
                         (causal_prefix @ replicate (max 1 (st_repeat s)) m) out
           | None \<Rightarrow> collect_channels connection bindings ss [] out))"

definition collect_channel_sequences ::
  "ustring \<Rightarrow> SocketBindings option \<Rightarrow> Step list \<Rightarrow> GateSequence list \<Rightarrow> GateSequence list" where
  "collect_channel_sequences connection bindings steps out =
     collect_channels connection bindings steps [] out"

definition bound_channel ::
  "ustring \<Rightarrow> SocketBindings \<Rightarrow> SocketRole \<Rightarrow> GateSequence list \<Rightarrow> GateSequence list" where
  "bound_channel connection b role out =
     (case available_after b role of
        None \<Rightarrow> out
      | Some a \<Rightarrow>
          (case parse_hex_code (sa_operation a) of
             None \<Rightarrow> out
           | Some c \<Rightarrow> out @ [\<lparr>gs_name = channel_gate_name connection role,
                               gs_steps = [GM_SuccessfulOperation c]\<rparr>]))"

definition connection_channels ::
  "ustring \<times> Connection \<Rightarrow> GateSequence list \<Rightarrow> GateSequence list" where
  "connection_channels nc out =
     (let (name, c) = nc;
          out1 = (case cn_bindings c of
                    None \<Rightarrow> out
                  | Some b \<Rightarrow> bound_channel name b SR_LiveView (bound_channel name b SR_Event out));
          out2 = fold (\<lambda>e out. case me_execution e of
                         ME_Ptp steps \<Rightarrow> collect_channel_sequences name (cn_bindings c) steps out
                       | _ \<Rightarrow> out) (cn_entries c) out1
      in fold (\<lambda>(_, a) out. case ac_initiator a of
                  None \<Rightarrow> out
                | Some i \<Rightarrow> collect_channel_sequences name (cn_bindings c) (ai_steps i) out)
           (cn_actions c) out2)"

definition compile_channel_sequences :: "CameraManifest \<Rightarrow> GateSequence list" where
  "compile_channel_sequences m = fold connection_channels (cm_connections m) []"

section \<open>Matching\<close>

fun value_to_i64 :: "PropValue \<Rightarrow> int option" where
  "value_to_i64 (PV_I8 x) = Some (sint x)"
| "value_to_i64 (PV_U8 x) = Some (uint x)"
| "value_to_i64 (PV_I16 x) = Some (sint x)"
| "value_to_i64 (PV_U16 x) = Some (uint x)"
| "value_to_i64 (PV_I32 x) = Some (sint x)"
| "value_to_i64 (PV_U32 x) = Some (uint x)"
| "value_to_i64 (PV_I64 x) = Some (sint x)"
| "value_to_i64 (PV_U64 x) = Some (sint x)"
| "value_to_i64 (PV_Str s) = None"

definition property_datatype :: "CameraManifest \<Rightarrow> u16 \<Rightarrow> u16" where
  "property_datatype m code =
     datatype_of (case property m code of None \<Rightarrow> None | Some p \<Rightarrow> pr_ptype p)"

fun first_param :: "u32 list \<Rightarrow> u32 option" where
  "first_param [] = None"
| "first_param (p # ps) = Some p"

fun gate_match_for_manifest ::
  "CameraManifest \<Rightarrow> GateMatcher \<Rightarrow> OperationRequest \<Rightarrow> bytes option \<Rightarrow> bool" where
  "gate_match_for_manifest m (GM_GetProp c) req data_in \<longleftrightarrow>
     oreq_code req = GET_DEVICE_PROP_VALUE \<and> first_param (oreq_params req) = Some (ucast c)"
| "gate_match_for_manifest m (GM_SetProp c value) req data_in \<longleftrightarrow>
     oreq_code req = SET_DEVICE_PROP_VALUE \<and> first_param (oreq_params req) = Some (ucast c) \<and>
     (case data_in of
        None \<Rightarrow> False
      | Some bs \<Rightarrow>
          (case value of
             None \<Rightarrow> True
           | Some expected \<Rightarrow>
               (case run_rd (PropValue_decode (property_datatype m c)) bs of
                  Inl _ \<Rightarrow> False
                | Inr v \<Rightarrow> value_to_i64 v = Some expected)))"
| "gate_match_for_manifest m (GM_SendOp c ps) req data_in \<longleftrightarrow>
     oreq_code req = c \<and> oreq_params req = ps"
| "gate_match_for_manifest m (GM_SuccessfulOperation c) req data_in \<longleftrightarrow> oreq_code req = c"

definition advance_gate_progress :: "GateSequence \<Rightarrow> nat \<Rightarrow> nat \<Rightarrow> CameraState \<Rightarrow> CameraState" where
  "advance_gate_progress sequence i progress s =
     (if length (gs_steps sequence) \<le> progress
      then set_gate_progress (gs_name sequence) i 0 (satisfy_gate (gs_name sequence) s)
      else set_gate_progress (gs_name sequence) i progress s)"

definition step_matches :: "(GateMatcher \<Rightarrow> bool) \<Rightarrow> GateMatcher list \<Rightarrow> nat \<Rightarrow> bool" where
  "step_matches matches steps i \<longleftrightarrow> i < length steps \<and> matches (steps ! i)"

definition advance_sequence ::
  "(GateMatcher \<Rightarrow> bool) \<Rightarrow> nat \<times> GateSequence \<Rightarrow> CameraState \<Rightarrow> CameraState" where
  "advance_sequence matches iq s =
     (let (i, sequence) = iq; name = gs_name sequence
      in if gate_satisfied name s then s
         else
           (let progress = gate_progress name i s
            in if 0 < progress \<and> step_matches matches (gs_steps sequence) progress
               then advance_gate_progress sequence i (progress + 1) s
               else
                 (let s1 = (if 0 < progress then set_gate_progress name i 0 s else s)
                  in if step_matches matches (gs_steps sequence) 0
                     then advance_gate_progress sequence i 1 (clear_gate name s1)
                     else s1)))"

definition advance_sequence_gates ::
  "CameraManifest \<Rightarrow> GateSequence list \<Rightarrow> OperationRequest \<Rightarrow> bytes option
    \<Rightarrow> CameraState \<Rightarrow> CameraState" where
  "advance_sequence_gates m sequences req data_in s =
     fold (advance_sequence (\<lambda>g. gate_match_for_manifest m g req data_in))
       (enumerate 0 sequences) s"

section \<open>What opens a gate\<close>

type_synonym gate_input = "OperationRequest \<times> bytes option"

definition matches_input :: "CameraManifest \<Rightarrow> GateMatcher \<Rightarrow> gate_input \<Rightarrow> bool" where
  "matches_input m g x \<longleftrightarrow> gate_match_for_manifest m g (fst x) (snd x)"

definition advance_input ::
  "CameraManifest \<Rightarrow> GateSequence list \<Rightarrow> gate_input \<Rightarrow> CameraState \<Rightarrow> CameraState" where
  "advance_input m sequences x = advance_sequence_gates m sequences (fst x) (snd x)"

definition ends_with :: "('g \<Rightarrow> 'x \<Rightarrow> bool) \<Rightarrow> 'g list \<Rightarrow> 'x list \<Rightarrow> bool" where
  "ends_with M ms hist \<longleftrightarrow> (\<exists>pre mid. hist = pre @ mid \<and> list_all2 M ms mid)"

definition performed :: "('g \<Rightarrow> 'x \<Rightarrow> bool) \<Rightarrow> 'g list \<Rightarrow> 'x list \<Rightarrow> bool" where
  "performed M ms hist \<longleftrightarrow> (\<exists>pre mid post. hist = pre @ mid @ post \<and> list_all2 M ms mid)"

lemma ends_with_Nil [simp]: "ends_with M [] hist"
  by (auto simp: ends_with_def)

lemma ends_with_step:
  assumes "ends_with M (take p ms) hist" "p < length ms" "M (ms ! p) x"
  shows "ends_with M (take (Suc p) ms) (hist @ [x])"
proof -
  obtain pre mid where "hist = pre @ mid" "list_all2 M (take p ms) mid"
    using assms(1) by (auto simp: ends_with_def)
  then have "hist @ [x] = pre @ (mid @ [x])" "list_all2 M (take p ms @ [ms ! p]) (mid @ [x])"
    using assms(3) by (simp_all add: list_all2_appendI)
  then show ?thesis
    unfolding ends_with_def take_Suc_conv_app_nth [OF assms(2)] by blast
qed

lemma ends_with_performed: "ends_with M ms hist \<Longrightarrow> performed M ms hist"
  unfolding ends_with_def performed_def by (metis append_Nil2)

lemma performed_snoc: "performed M ms hist \<Longrightarrow> performed M ms (hist @ [x])"
  unfolding performed_def by (metis append.assoc)

text \<open>The state of one gate's sequence: satisfied or not, and its progress.\<close>

definition gate_view :: "ustring \<Rightarrow> nat \<Rightarrow> CameraState \<Rightarrow> bool \<times> nat" where
  "gate_view g i s = (gate_satisfied g s, gate_progress g i s)"

lemma gate_ops [simp]:
  "gate_satisfied g (satisfy_gate h s) \<longleftrightarrow> g = h \<or> gate_satisfied g s"
  "gate_satisfied g (set_gate_progress h j n s) = gate_satisfied g s"
  "gate_satisfied g (clear_gate h s) \<longleftrightarrow> g \<noteq> h \<and> gate_satisfied g s"
  "gate_progress g i (satisfy_gate h s) = gate_progress g i s"
  "gate_progress g i (set_gate_progress h j n s) = (if g = h \<and> i = j then n else gate_progress g i s)"
  "gate_progress g i (clear_gate h s) = (if g = h then 0 else gate_progress g i s)"
  by (auto simp: gate_satisfied_def satisfy_gate_def set_gate_progress_def clear_gate_def
      gate_progress_def)

text \<open>One gate as an automaton over the inputs: the specification of \<open>advance_sequence\<close>.\<close>

fun track_step :: "(GateMatcher \<Rightarrow> bool) \<Rightarrow> GateMatcher list \<Rightarrow> bool \<times> nat \<Rightarrow> bool \<times> nat" where
  "track_step matches steps (satisfied, p) =
     (if satisfied then (True, p)
      else
        (let n = (if 0 < p \<and> step_matches matches steps p then Suc p
                  else if step_matches matches steps 0 then 1 else 0)
         in if 0 < n \<and> length steps \<le> n then (True, 0) else (False, n)))"

lemma advance_sequence_own:
  "gate_view (gs_name q) i (advance_sequence matches (i, q) s)
     = track_step matches (gs_steps q) (gate_view (gs_name q) i s)"
  by (simp add: advance_sequence_def gate_view_def Let_def advance_gate_progress_def)

lemma advance_sequence_other:
  "gs_name q \<noteq> g \<Longrightarrow> gate_view g j (advance_sequence matches (i, q) s) = gate_view g j s"
  by (auto simp: advance_sequence_def gate_view_def Let_def advance_gate_progress_def)

lemma fold_advance_other:
  "(\<forall>iq \<in> set iqs. gs_name (snd iq) \<noteq> g) \<Longrightarrow>
   gate_view g j (fold (advance_sequence matches) iqs s) = gate_view g j s"
  by (induction iqs arbitrary: s) (auto simp: advance_sequence_other)

lemma advance_unique_gate:
  assumes "i < length sequences" "sequences ! i = q"
    and "\<And>j. j < length sequences \<Longrightarrow> gs_name (sequences ! j) = gs_name q \<Longrightarrow> j = i"
  shows "gate_view (gs_name q) i (advance_sequence_gates m sequences req data_in s) =
    track_step (\<lambda>g. gate_match_for_manifest m g req data_in) (gs_steps q) (gate_view (gs_name q) i s)"
proof -
  let ?e = "enumerate 0 sequences" and ?f = "advance_sequence (\<lambda>g. gate_match_for_manifest m g req data_in)"
  have e: "?e = take i ?e @ (i, q) # drop (Suc i) ?e"
    using assms(1,2) id_take_nth_drop [of i ?e] by (simp add: nth_enumerate_eq)
  have other: "gs_name (snd iq) \<noteq> gs_name q" if "iq = ?e ! j" "j < length ?e" "j \<noteq> i" for iq j
    using that assms(3) [of j] by (auto simp: nth_enumerate_eq)
  have a: "\<forall>iq \<in> set (take i ?e). gs_name (snd iq) \<noteq> gs_name q"
  proof
    fix iq assume "iq \<in> set (take i ?e)"
    then obtain k where "iq = ?e ! k" "k < length ?e" "k < i"
      by (auto simp: in_set_conv_nth)
    then show "gs_name (snd iq) \<noteq> gs_name q" using other by blast
  qed
  have b: "\<forall>iq \<in> set (drop (Suc i) ?e). gs_name (snd iq) \<noteq> gs_name q"
  proof
    fix iq assume "iq \<in> set (drop (Suc i) ?e)"
    then obtain k where "iq = ?e ! (Suc i + k)" "Suc i + k < length ?e"
      by (auto simp: in_set_conv_nth)
    then show "gs_name (snd iq) \<noteq> gs_name q" using other [of iq "Suc i + k"] by simp
  qed
  have "fold ?f ?e s = fold ?f (drop (Suc i) ?e) (?f (i, q) (fold ?f (take i ?e) s))"
    by (subst e) simp
  then show ?thesis
    by (simp add: advance_sequence_gates_def fold_advance_other [OF b] advance_sequence_own
        fold_advance_other [OF a])
qed

lemma track_step_opens:
  fixes xs :: "gate_input list"
  assumes "list_all2 (matches_input m) (drop p steps) xs" "p < length steps"
  shows "fst (fold (\<lambda>x. track_step (\<lambda>g. matches_input m g x) steps) xs (False, p))"
  using assms
proof (induction xs arbitrary: p rule: list.induct)
  case (Cons x xs)
  then have d: "drop p steps = steps ! p # drop (Suc p) steps"
    by (simp add: Cons_nth_drop_Suc)
  then have m: "step_matches (\<lambda>g. matches_input m g x) steps p"
    and rest: "list_all2 (matches_input m) (drop (Suc p) steps) xs"
    using Cons.prems by (simp_all add: step_matches_def)
  have sat: "fst (fold (\<lambda>x. track_step (\<lambda>g. matches_input m g x) steps) ys (True, n))" for ys n
    by (induction ys) auto
  have "track_step (\<lambda>g. matches_input m g x) steps (False, p)
      = (if length steps \<le> Suc p then (True, 0) else (False, Suc p))"
    using m by (cases p) auto
  then show ?case
    using Cons.IH [OF rest] sat by auto
qed simp

section \<open>Soundness of progress\<close>

definition tracked :: "CameraManifest \<Rightarrow> gate_input list \<Rightarrow> nat \<times> GateSequence \<Rightarrow> CameraState \<Rightarrow> bool" where
  "tracked m hist iq s \<longleftrightarrow>
     gate_satisfied (gs_name (snd iq)) s \<or>
     ends_with (matches_input m) (take (gate_progress (gs_name (snd iq)) (fst iq) s) (gs_steps (snd iq))) hist"

definition opened_soundly :: "CameraManifest \<Rightarrow> GateSequence list \<Rightarrow> gate_input list \<Rightarrow> CameraState \<Rightarrow> bool" where
  "opened_soundly m sequences hist s \<longleftrightarrow>
     (\<forall>g. gate_satisfied g s \<longrightarrow>
        (\<exists>q \<in> set sequences. gs_name q = g \<and> performed (matches_input m) (gs_steps q) hist))"

lemma advance_sequence_keeps:
  assumes "tracked m hist jr s" "jr \<noteq> (i, q)"
  shows "fst jr \<noteq> i \<Longrightarrow> tracked m hist jr (advance_sequence matches (i, q) s)"
  using assms by (auto simp: tracked_def advance_sequence_def Let_def advance_gate_progress_def)

lemma advance_sequence_tracks:
  assumes "tracked m hist (i, q) s" "matches = (\<lambda>g. matches_input m g x)"
  shows "tracked m (hist @ [x]) (i, q) (advance_sequence matches (i, q) s)"
proof (cases "gate_satisfied (gs_name q) s")
  case False
  let ?p = "gate_progress (gs_name q) i s"
  have t: "ends_with (matches_input m) (take ?p (gs_steps q)) hist"
    using assms(1) False by (simp add: tracked_def)
  have first: "ends_with (matches_input m) (take 1 (gs_steps q)) (hist @ [x])"
    if "step_matches matches (gs_steps q) 0"
    using ends_with_step [of "matches_input m" 0 "gs_steps q" hist x] that assms(2)
    by (simp add: step_matches_def)
  show ?thesis
    using False t first ends_with_step [OF t] assms(2)
    by (auto simp: tracked_def advance_sequence_def Let_def advance_gate_progress_def step_matches_def)
qed (simp add: tracked_def advance_sequence_def)

lemma advance_sequence_opens_soundly:
  assumes "opened_soundly m sequences (hist @ [x]) s" "q \<in> set sequences"
    and t: "tracked m hist (i, q) s" and M: "matches = (\<lambda>g. matches_input m g x)"
  shows "opened_soundly m sequences (hist @ [x]) (advance_sequence matches (i, q) s)"
  unfolding opened_soundly_def
proof (intro allI impI)
  fix g
  assume g: "gate_satisfied g (advance_sequence matches (i, q) s)"
  show "\<exists>q \<in> set sequences. gs_name q = g \<and> performed (matches_input m) (gs_steps q) (hist @ [x])"
  proof (cases "gate_satisfied g s")
    case False
    let ?p = "gate_progress (gs_name q) i s"
    have q: "gs_name q = g"
      using False g advance_sequence_other [of q g i matches i s] by (auto simp: gate_view_def)
    then have e: "ends_with (matches_input m) (take ?p (gs_steps q)) hist"
      using False t by (simp add: tracked_def)
    have "\<exists>n. length (gs_steps q) \<le> Suc n \<and> step_matches matches (gs_steps q) n
        \<and> ends_with (matches_input m) (take n (gs_steps q)) hist"
      using g False q e ends_with_Nil [of "matches_input m" hist]
      by (fastforce simp: advance_sequence_def Let_def advance_gate_progress_def split: if_split_asm)
    then obtain n where "length (gs_steps q) \<le> Suc n" "n < length (gs_steps q)"
        "matches_input m (gs_steps q ! n) x" "ends_with (matches_input m) (take n (gs_steps q)) hist"
      using M by (auto simp: step_matches_def)
    then have "ends_with (matches_input m) (gs_steps q) (hist @ [x])"
      using ends_with_step [of "matches_input m" n "gs_steps q" hist x] by simp
    then show ?thesis
      using q assms(2) ends_with_performed by blast
  qed (use assms(1) in \<open>auto simp: opened_soundly_def\<close>)
qed

lemma fold_advance_sound:
  assumes "distinct (map fst iqs)" "\<forall>iq \<in> set iqs. tracked m hist iq s \<and> snd iq \<in> set sequences"
    and "\<forall>jr \<in> D. tracked m (hist @ [x]) jr s \<and> fst jr \<notin> fst ` set iqs"
    and "opened_soundly m sequences (hist @ [x]) s" "matches = (\<lambda>g. matches_input m g x)"
  shows "(\<forall>jr \<in> D \<union> set iqs. tracked m (hist @ [x]) jr (fold (advance_sequence matches) iqs s)) \<and>
    opened_soundly m sequences (hist @ [x]) (fold (advance_sequence matches) iqs s)"
  using assms(1-4)
proof (induction iqs arbitrary: s D)
  case (Cons iq iqs)
  obtain i q where iq: "iq = (i, q)" by (cases iq)
  let ?s = "advance_sequence matches (i, q) s"
  have t: "tracked m hist (i, q) s" and q: "q \<in> set sequences"
    using Cons.prems(2) iq by simp_all
  have o: "opened_soundly m sequences (hist @ [x]) ?s"
    using advance_sequence_opens_soundly [OF Cons.prems(4) q t assms(5)] .
  have rest: "\<forall>jr \<in> set iqs. tracked m hist jr ?s \<and> snd jr \<in> set sequences"
  proof
    fix jr assume jr: "jr \<in> set iqs"
    then have "fst jr \<noteq> i"
      using Cons.prems(1) iq by force
    then show "tracked m hist jr ?s \<and> snd jr \<in> set sequences"
      using advance_sequence_keeps [of m hist jr s i q matches] Cons.prems(2) jr by force
  qed
  have processed: "\<forall>jr \<in> insert (i, q) D. tracked m (hist @ [x]) jr ?s \<and> fst jr \<notin> fst ` set iqs"
  proof
    fix jr assume "jr \<in> insert (i, q) D"
    then consider "jr = (i, q)" | "jr \<in> D" "fst jr \<noteq> i" "fst jr \<notin> fst ` set iqs"
      using Cons.prems(3) iq by auto
    then show "tracked m (hist @ [x]) jr ?s \<and> fst jr \<notin> fst ` set iqs"
    proof cases
      case 1
      then show ?thesis
        using advance_sequence_tracks [OF t assms(5)] Cons.prems(1) iq by auto
    next
      case 2
      then show ?thesis
        using advance_sequence_keeps [of m "hist @ [x]" jr s i q matches] Cons.prems(3) by force
    qed
  qed
  show ?case
    using Cons.IH [OF _ rest processed o] Cons.prems(1) iq by simp
qed simp

definition sound_gates :: "CameraManifest \<Rightarrow> GateSequence list \<Rightarrow> gate_input list \<Rightarrow> CameraState \<Rightarrow> bool" where
  "sound_gates m sequences hist s \<longleftrightarrow>
     (\<forall>iq \<in> set (enumerate 0 sequences). tracked m hist iq s) \<and> opened_soundly m sequences hist s"

lemma sound_gates_fresh:
  "cs_satisfied_gates s = {} \<Longrightarrow> cs_gate_progress s = Map.empty \<Longrightarrow> sound_gates m sequences [] s"
  by (simp add: sound_gates_def tracked_def opened_soundly_def gate_satisfied_def gate_progress_def)

lemma sound_gates_step:
  assumes "sound_gates m sequences hist s"
  shows "sound_gates m sequences (hist @ [x]) (advance_input m sequences x s)"
proof -
  have o: "opened_soundly m sequences (hist @ [x]) s"
    using assms performed_snoc [of "matches_input m" _ hist x] unfolding sound_gates_def opened_soundly_def
    by metis
  have d: "distinct (map fst (enumerate 0 sequences))"
    by simp
  have t: "\<forall>iq \<in> set (enumerate 0 sequences). tracked m hist iq s \<and> snd iq \<in> set sequences"
    using assms unfolding sound_gates_def by (auto dest: set_zip_rightD simp: enumerate_eq_zip)
  have "(\<lambda>g. gate_match_for_manifest m g (fst x) (snd x)) = (\<lambda>g. matches_input m g x)"
    by (simp add: matches_input_def)
  then show ?thesis
    using fold_advance_sound [OF d t _ o refl, of "{}"]
    unfolding sound_gates_def advance_input_def advance_sequence_gates_def by simp
qed

lemma sound_gates_run:
  "sound_gates m sequences hist s \<Longrightarrow>
   sound_gates m sequences (hist @ xs) (fold (advance_input m sequences) xs s)"
proof (induction xs arbitrary: hist s)
  case (Cons x xs)
  then show ?case
    using Cons.IH [OF sound_gates_step [OF Cons.prems, of x]] by simp
qed simp

section \<open>Properties\<close>

definition sample_gate :: GateSequence where
  "sample_gate = \<lparr>gs_name = lit ''g'', gs_steps = [GM_SendOp 0x9001 [], GM_SuccessfulOperation 0x9002]\<rparr>"

definition sample_inputs :: "gate_input list" where
  "sample_inputs = map (\<lambda>c. (\<lparr>oreq_data_phase_info = 1, oreq_code = c, oreq_transaction_id = 0,
      oreq_params = []\<rparr>, None)) [0x9001, 0x9002]"

text \<open>C13: a gate opens only after its sequence was performed. From a state in which no gate is open,
  after any series of successful operations every open gate has a compiled sequence whose steps
  were matched, in order and one after the other without an operation in between, by a part of the
  series.\<close>
theorem gate_opens_only_by_sequence:
  assumes "cs_satisfied_gates s = {}" "cs_gate_progress s = Map.empty"
    "gate_satisfied g (fold (advance_input m sequences) xs s)"
  shows "\<exists>q \<in> set sequences. gs_name q = g \<and> performed (matches_input m) (gs_steps q) xs"
  using sound_gates_run [OF sound_gates_fresh [OF assms(1,2)], of m sequences xs] assms(3)
  by (auto simp: sound_gates_def opened_soundly_def)

theorem gate_opens_only_by_sequence_witness:
  "performed (matches_input sample_manifest) (gs_steps sample_gate) sample_inputs"
proof -
  have "gate_satisfied (lit ''g'')
      (fold (advance_input sample_manifest [sample_gate]) sample_inputs (state_from_manifest sample_manifest))"
    by code_simp
  then show ?thesis
    using gate_opens_only_by_sequence [of "state_from_manifest sample_manifest" "lit ''g''"
        sample_manifest "[sample_gate]" sample_inputs]
    by (simp add: state_from_manifest_def)
qed




end
