(* ===== verification/Transfer_Queue.thy ===== *)
theory Transfer_Queue
  imports Gates "HOL-Library.Product_Lexorder"
begin

text \<open>
  The two object queues of the simulator engine (\<^verbatim>\<open>crates/camera-sim/src/engine.rs\<close>, lines 56 to
  239): the standard queue a client enumerates and drains, and the camera-initiated queue, whose
  head is released once every byte of the object was delivered. A \<^verbatim>\<open>BTreeSet\<close> is a set, a
  \<^verbatim>\<open>usize\<close> a natural number and a byte offset a natural number below \<open>2 ^ 64\<close>.
\<close>

section \<open>The camera-initiated queue\<close>

record CameraInitiatedQueue =
  cq_handles :: "u32 list"
  cq_head :: nat
  cq_generation :: u64
  cq_delivered :: "(nat \<times> nat) list"

definition CameraInitiatedQueue_new :: "u32 list \<Rightarrow> CameraInitiatedQueue" where
  "CameraInitiatedQueue_new hs =
     \<lparr>cq_handles = hs, cq_head = 0, cq_generation = 0, cq_delivered = []\<rparr>"

definition queue_head :: "CameraInitiatedQueue \<Rightarrow> u32 option" where
  "queue_head q = (if cq_head q < length (cq_handles q) then Some (cq_handles q ! cq_head q) else None)"

definition queue_remaining :: "CameraInitiatedQueue \<Rightarrow> nat" where
  "queue_remaining q = length (cq_handles q) - cq_head q"

definition merge_range :: "nat \<times> nat \<Rightarrow> (nat \<times> nat) list \<Rightarrow> (nat \<times> nat) list" where
  "merge_range r merged =
     (if merged \<noteq> [] \<and> fst r \<le> snd (last merged)
      then butlast merged @ [(fst (last merged), max (snd (last merged)) (snd r))]
      else merged @ [r])"

definition record_range :: "nat \<Rightarrow> nat \<Rightarrow> (nat \<times> nat) list \<Rightarrow> (nat \<times> nat) list" where
  "record_range offset stop delivered =
     (if offset < stop then fold merge_range (sort (delivered @ [(offset, stop)])) [] else delivered)"

definition all_delivered :: "nat \<Rightarrow> (nat \<times> nat) list \<Rightarrow> bool" where
  "all_delivered object_size delivered \<longleftrightarrow>
     object_size = 0 \<or>
     (case delivered of [] \<Rightarrow> False | (start, stop) # _ \<Rightarrow> start = 0 \<and> object_size \<le> stop)"

definition acknowledge :: "nat \<Rightarrow> nat \<Rightarrow> nat \<Rightarrow> CameraInitiatedQueue \<Rightarrow> bool \<times> CameraInitiatedQueue" where
  "acknowledge offset len object_size q =
     (let stop = min (sat_add u64_max offset len) object_size;
          delivered = record_range offset stop (cq_delivered q)
      in if all_delivered object_size delivered
         then (True, q\<lparr>cq_head := cq_head q + 1, cq_generation := cq_generation q + 1, cq_delivered := []\<rparr>)
         else (False, q\<lparr>cq_delivered := delivered\<rparr>))"

section \<open>The standard queue\<close>

record TransferQueue =
  tq_connection :: ustring
  tq_handles :: "u32 list"
  tq_available :: "u32 set"
  tq_next_index :: nat
  tq_enqueue_per_shutter :: nat
  tq_shutter_sequence :: "GateMatcher list option"
  tq_shutter_progress :: nat
  tq_shutter_busy :: nat   \<comment> \<open>\<^verbatim>\<open>shutter_busy_responses_remaining\<close>\<close>
  tq_completed :: nat

definition startup_seeded :: "ustring \<Rightarrow> u32 list \<Rightarrow> TransferQueue" where
  "startup_seeded connection hs =
     \<lparr>tq_connection = connection, tq_handles = hs, tq_available = set hs, tq_next_index = length hs,
      tq_enqueue_per_shutter = 0, tq_shutter_sequence = None, tq_shutter_progress = 0,
      tq_shutter_busy = 0, tq_completed = 0\<rparr>"

definition shutter_seeded :: "ustring \<Rightarrow> u32 list \<Rightarrow> nat \<Rightarrow> GateMatcher list \<Rightarrow> TransferQueue" where
  "shutter_seeded connection hs enqueue_per_shutter shutter_sequence =
     \<lparr>tq_connection = connection, tq_handles = hs, tq_available = {}, tq_next_index = 0,
      tq_enqueue_per_shutter = enqueue_per_shutter, tq_shutter_sequence = Some shutter_sequence,
      tq_shutter_progress = 0, tq_shutter_busy = 0, tq_completed = 0\<rparr>"

definition queue_handles :: "TransferQueue \<Rightarrow> u32 list" where
  "queue_handles q = filter (\<lambda>h. h \<in> tq_available q) (tq_handles q)"

definition queue_contains :: "TransferQueue \<Rightarrow> u32 \<Rightarrow> bool" where
  "queue_contains q h \<longleftrightarrow> h \<in> tq_available q"

definition drain :: "u32 \<Rightarrow> TransferQueue \<Rightarrow> bool \<times> TransferQueue" where
  "drain h q =
     (if h \<in> tq_available q
      then (True, q\<lparr>tq_available := tq_available q - {h}, tq_completed := tq_completed q + 1\<rparr>)
      else (False, q))"

fun enqueue_loop :: "nat \<Rightarrow> TransferQueue \<Rightarrow> TransferQueue" where
  "enqueue_loop 0 q = q"
| "enqueue_loop (Suc n) q =
     (if tq_next_index q < length (tq_handles q)
      then enqueue_loop n
             (q\<lparr>tq_available := insert (tq_handles q ! tq_next_index q) (tq_available q),
                tq_next_index := tq_next_index q + 1\<rparr>)
      else q)"

definition enqueue_count :: "nat \<Rightarrow> TransferQueue \<Rightarrow> nat \<times> TransferQueue" where
  "enqueue_count count q =
     (let q' = enqueue_loop count q in (card (tq_available q') - card (tq_available q), q'))"

definition enqueue_next :: "TransferQueue \<Rightarrow> TransferQueue" where
  "enqueue_next q = snd (enqueue_count (tq_enqueue_per_shutter q) q)"

definition pending_enqueue :: "nat \<Rightarrow> TransferQueue \<Rightarrow> nat" where
  "pending_enqueue count q = min count (length (tq_handles q) - tq_next_index q)"

record QueueStats =
  qs_queued :: nat
  qs_completed :: nat
  qs_total :: nat

definition standard_stats :: "TransferQueue \<Rightarrow> QueueStats" where
  "standard_stats q =
     \<lparr>qs_queued = card (tq_available q), qs_completed = tq_completed q, qs_total = length (tq_handles q)\<rparr>"

definition camera_initiated_stats :: "CameraInitiatedQueue \<Rightarrow> QueueStats" where
  "camera_initiated_stats q =
     \<lparr>qs_queued = queue_remaining q, qs_completed = cq_head q, qs_total = length (cq_handles q)\<rparr>"

section \<open>Delivered ranges as a set of bytes\<close>

definition covered :: "(nat \<times> nat) list \<Rightarrow> nat set" where
  "covered rs = (\<Union>r \<in> set rs. {fst r..<snd r})"

definition separated :: "(nat \<times> nat) list \<Rightarrow> bool" where
  "separated rs \<longleftrightarrow> sorted_wrt (\<lambda>a b. snd a < fst b) rs \<and> (\<forall>r \<in> set rs. fst r < snd r)"

lemma covered_simps [simp]:
  "covered [] = {}"
  "covered (r # rs) = {fst r..<snd r} \<union> covered rs"
  "covered (rs @ rs') = covered rs \<union> covered rs'"
  by (auto simp: covered_def)

lemma covered_sort [simp]: "covered (sort rs) = covered rs"
  by (simp add: covered_def)

lemma merge_range_step:
  assumes "separated acc" "fst r < snd r" "acc \<noteq> [] \<Longrightarrow> fst (last acc) \<le> fst r"
  shows "separated (merge_range r acc) \<and> covered (merge_range r acc) = covered acc \<union> {fst r..<snd r}
    \<and> fst (last (merge_range r acc)) \<le> fst r"
proof (cases acc rule: rev_cases)
  case Nil
  then show ?thesis using assms(2) by (simp add: merge_range_def separated_def)
next
  case (snoc bl x)
  show ?thesis
  proof (cases "fst r \<le> snd x")
    case True
    have "{fst x..<snd x} \<union> {fst r..<snd r} = {fst x..<max (snd x) (snd r)}"
      using assms(3) snoc True by (auto simp: max_def)
    then show ?thesis
      using assms snoc True by (auto simp: merge_range_def separated_def sorted_wrt_append)
  next
    case False
    then show ?thesis
      using assms snoc by (fastforce simp: merge_range_def separated_def sorted_wrt_append)
  qed
qed

lemma merge_range_nonempty [simp]: "merge_range r acc \<noteq> []"
  by (simp add: merge_range_def)

lemma fold_merge_range:
  assumes "sorted ys" "\<forall>r \<in> set ys. fst r < snd r" "separated acc"
    "acc \<noteq> [] \<Longrightarrow> \<forall>r \<in> set ys. fst (last acc) \<le> fst r"
  shows "separated (fold merge_range ys acc) \<and> covered (fold merge_range ys acc) = covered acc \<union> covered ys"
  using assms
proof (induction ys arbitrary: acc)
  case (Cons r ys)
  have step: "separated (merge_range r acc)" "covered (merge_range r acc) = covered acc \<union> {fst r..<snd r}"
    "fst (last (merge_range r acc)) \<le> fst r"
    using merge_range_step [of acc r] Cons.prems by auto
  have "\<forall>r' \<in> set ys. fst (last (merge_range r acc)) \<le> fst r'"
    using step(3) Cons.prems(1) by (fastforce simp: less_eq_prod_def)
  then show ?case
    using Cons.IH [OF _ _ step(1)] step(2) Cons.prems(1,2) by auto
qed simp

lemma record_range_covers:
  assumes "separated rs"
  shows "separated (record_range offset stop rs) \<and>
    covered (record_range offset stop rs) = covered rs \<union> {offset..<stop}"
  using fold_merge_range [of "sort (rs @ [(offset, stop)])" "[]"] assms
  by (auto simp: record_range_def separated_def)

lemma all_delivered_iff:
  assumes "separated rs"
  shows "all_delivered n rs \<longleftrightarrow> {0..<n} \<subseteq> covered rs"
proof (cases rs)
  case (Cons r rest)
  have later: "snd r < fst r'" if "r' \<in> set rest" for r'
    using assms that Cons by (simp add: separated_def)
  show ?thesis
  proof (cases "n = 0")
    case False
    show ?thesis
    proof
      assume sub: "{0..<n} \<subseteq> covered rs"
      then have "0 \<in> covered rs" using False by auto
      then have z: "fst r = 0" using Cons later by (fastforce simp: covered_def)
      have "snd r \<notin> covered rs"
        using Cons later by (fastforce simp: covered_def)
      then have "n \<le> snd r" using sub by (meson atLeastLessThan_iff le0 not_le subsetD)
      then show "all_delivered n rs" using Cons z by (simp add: all_delivered_def case_prod_beta)
    qed (auto simp: all_delivered_def Cons case_prod_beta False)
  qed (simp add: all_delivered_def)
qed (simp add: all_delivered_def)

definition delivered_bytes :: "(nat \<times> nat) list \<Rightarrow> nat set" where
  "delivered_bytes acks = (\<Union>a \<in> set acks. {fst a..<fst a + snd a})"

definition run_acks :: "nat \<Rightarrow> (nat \<times> nat) list \<Rightarrow> CameraInitiatedQueue \<Rightarrow> CameraInitiatedQueue" where
  "run_acks n acks q = fold (\<lambda>a q. snd (acknowledge (fst a) (snd a) n q)) acks q"

lemma acknowledge_covers:
  assumes "separated (cq_delivered q)" "n \<le> u64_max" "covered (cq_delivered q) = B \<inter> {0..<n}"
  shows "fst (acknowledge offset len n q) \<longleftrightarrow> {0..<n} \<subseteq> B \<union> {offset..<offset + len}"
    and "\<not> fst (acknowledge offset len n q) \<Longrightarrow>
      (let q' = snd (acknowledge offset len n q)
       in separated (cq_delivered q') \<and> covered (cq_delivered q') = (B \<union> {offset..<offset + len}) \<inter> {0..<n}
          \<and> cq_head q' = cq_head q \<and> cq_generation q' = cq_generation q \<and> cq_handles q' = cq_handles q)"
proof -
  let ?stop = "min (sat_add u64_max offset len) n"
  have "{offset..<?stop} = {offset..<offset + len} \<inter> {0..<n}"
    using assms(2) by (auto simp: sat_add_def)
  then have c: "covered (record_range offset ?stop (cq_delivered q)) = (B \<union> {offset..<offset + len}) \<inter> {0..<n}"
    using record_range_covers [OF assms(1), of offset ?stop] assms(3) by auto
  have s: "separated (record_range offset ?stop (cq_delivered q))"
    using record_range_covers [OF assms(1)] by simp
  show "fst (acknowledge offset len n q) \<longleftrightarrow> {0..<n} \<subseteq> B \<union> {offset..<offset + len}"
    using all_delivered_iff [OF s, of n] c by (auto simp: acknowledge_def Let_def)
  show "\<not> fst (acknowledge offset len n q) \<Longrightarrow>
      (let q' = snd (acknowledge offset len n q)
       in separated (cq_delivered q') \<and> covered (cq_delivered q') = (B \<union> {offset..<offset + len}) \<inter> {0..<n}
          \<and> cq_head q' = cq_head q \<and> cq_generation q' = cq_generation q \<and> cq_handles q' = cq_handles q)"
    using s c by (auto simp: acknowledge_def Let_def split: if_split_asm)
qed

lemma run_acks_covers:
  assumes "cq_delivered q = []" "n \<le> u64_max" "\<not> {0..<n} \<subseteq> delivered_bytes acks"
  shows "separated (cq_delivered (run_acks n acks q))
    \<and> covered (cq_delivered (run_acks n acks q)) = delivered_bytes acks \<inter> {0..<n}
    \<and> cq_head (run_acks n acks q) = cq_head q \<and> cq_generation (run_acks n acks q) = cq_generation q"
  using assms(3)
proof (induction acks rule: rev_induct)
  case Nil
  then show ?case using assms(1) by (simp add: run_acks_def separated_def delivered_bytes_def)
next
  case (snoc a acks)
  let ?q = "run_acks n acks q"
  have b: "delivered_bytes (acks @ [a]) = delivered_bytes acks \<union> {fst a..<fst a + snd a}"
    by (auto simp: delivered_bytes_def)
  then have ih: "separated (cq_delivered ?q)" "covered (cq_delivered ?q) = delivered_bytes acks \<inter> {0..<n}"
    "cq_head ?q = cq_head q" "cq_generation ?q = cq_generation q"
    using snoc by auto
  have "\<not> fst (acknowledge (fst a) (snd a) n ?q)"
    using acknowledge_covers(1) [OF ih(1) assms(2) ih(2)] snoc.prems b by simp
  from acknowledge_covers(2) [OF ih(1) assms(2) ih(2) this] show ?case
    using b ih(3,4) by (simp add: run_acks_def Let_def)
qed

section \<open>Conservation in the standard queue\<close>

definition queue_kept :: "TransferQueue \<Rightarrow> bool" where
  "queue_kept q \<longleftrightarrow>
     distinct (tq_handles q) \<and> tq_next_index q \<le> length (tq_handles q) \<and>
     tq_available q \<subseteq> set (take (tq_next_index q) (tq_handles q)) \<and>
     card (tq_available q) + tq_completed q = tq_next_index q"

lemma queue_kept_seeded:
  assumes "distinct hs"
  shows "queue_kept (startup_seeded c hs)" "queue_kept (shutter_seeded c hs n sq)"
  using assms by (simp_all add: queue_kept_def startup_seeded_def shutter_seeded_def distinct_card)

lemma queue_kept_finite: "queue_kept q \<Longrightarrow> finite (tq_available q)"
  using finite_subset by (auto simp: queue_kept_def)

lemma queue_kept_drain: "queue_kept q \<Longrightarrow> queue_kept (snd (drain h q))"
  using queue_kept_finite [of q] card_Suc_Diff1 [of "tq_available q" h]
  by (auto simp: queue_kept_def drain_def)

lemma enqueue_one:
  assumes "queue_kept q" "tq_next_index q < length (tq_handles q)"
  shows "queue_kept (q\<lparr>tq_available := insert (tq_handles q ! tq_next_index q) (tq_available q),
      tq_next_index := tq_next_index q + 1\<rparr>)"
    and "tq_handles q ! tq_next_index q \<notin> tq_available q"
proof -
  have "tq_handles q ! tq_next_index q \<notin> set (take (tq_next_index q) (tq_handles q))"
    using assms by (auto simp: queue_kept_def in_set_conv_nth nth_eq_iff_index_eq)
  then show new: "tq_handles q ! tq_next_index q \<notin> tq_available q"
    using assms(1) by (auto simp: queue_kept_def)
  then show "queue_kept (q\<lparr>tq_available := insert (tq_handles q ! tq_next_index q) (tq_available q),
      tq_next_index := tq_next_index q + 1\<rparr>)"
    using assms queue_kept_finite [OF assms(1)]
    by (auto simp: queue_kept_def take_Suc_conv_app_nth)
qed

lemma pending_enqueue_Suc:
  "tq_next_index q < length (tq_handles q) \<Longrightarrow>
   pending_enqueue (Suc n) q = Suc (pending_enqueue n
     (q\<lparr>tq_available := insert (tq_handles q ! tq_next_index q) (tq_available q),
        tq_next_index := tq_next_index q + 1\<rparr>))"
  by (simp add: pending_enqueue_def Suc_diff_Suc)

lemma enqueue_loop_kept:
  assumes "queue_kept q"
  shows "queue_kept (enqueue_loop n q) \<and> tq_handles (enqueue_loop n q) = tq_handles q
    \<and> card (tq_available (enqueue_loop n q)) = card (tq_available q) + pending_enqueue n q
    \<and> tq_next_index (enqueue_loop n q) = tq_next_index q + pending_enqueue n q"
  using assms
proof (induction n arbitrary: q)
  case (Suc n)
  show ?case
  proof (cases "tq_next_index q < length (tq_handles q)")
    case True
    then show ?thesis
      using Suc.IH [OF enqueue_one(1) [OF Suc.prems True]] enqueue_one(2) [OF Suc.prems True]
        queue_kept_finite [OF Suc.prems]
      by (simp add: pending_enqueue_Suc)
  qed (use Suc.prems in \<open>simp add: pending_enqueue_def\<close>)
qed (simp add: pending_enqueue_def)

lemma enqueue_loop_available:
  "tq_available (enqueue_loop n q)
     = tq_available q \<union> set (take (pending_enqueue n q) (drop (tq_next_index q) (tq_handles q)))"
proof (induction n arbitrary: q)
  case (Suc n)
  show ?case
  proof (cases "tq_next_index q < length (tq_handles q)")
    case True
    then show ?thesis
      using Suc.IH by (simp add: pending_enqueue_Suc Cons_nth_drop_Suc [symmetric])
  qed (simp add: pending_enqueue_def)
qed (simp add: pending_enqueue_def)

datatype queue_event = Enqueue nat | Drain u32

fun queue_step :: "queue_event \<Rightarrow> TransferQueue \<Rightarrow> TransferQueue" where
  "queue_step (Enqueue n) q = snd (enqueue_count n q)"
| "queue_step (Drain h) q = snd (drain h q)"

lemma queue_step_kept: "queue_kept q \<Longrightarrow> queue_kept (queue_step e q)"
  by (cases e) (simp_all add: enqueue_count_def enqueue_loop_kept queue_kept_drain)

lemma queue_run_kept: "queue_kept q \<Longrightarrow> queue_kept (fold queue_step es q)"
  by (induction es arbitrary: q) (simp_all add: queue_step_kept)

definition taken :: "u32 \<Rightarrow> TransferQueue \<Rightarrow> bool" where
  "taken h q \<longleftrightarrow> h \<notin> tq_available q \<and> h \<in> set (take (tq_next_index q) (tq_handles q))"

lemma taken_step:
  assumes "queue_kept q" "taken h q"
  shows "taken h (queue_step e q)"
proof (cases e)
  case (Enqueue n)
  have "set (take (tq_next_index q) (tq_handles q)) \<inter> set (drop (tq_next_index q) (tq_handles q)) = {}"
    using assms(1) by (simp add: queue_kept_def set_take_disj_set_drop_if_distinct)
  then have "h \<notin> set (take k (drop (tq_next_index q) (tq_handles q)))" for k
    using assms(2) by (auto simp: taken_def dest: in_set_takeD)
  moreover have "h \<in> set (take (tq_next_index q + k) (tq_handles q))" for k
    using assms(2) by (auto simp: taken_def take_add)
  ultimately show ?thesis
    using assms enqueue_loop_kept [OF assms(1), of n] Enqueue
    by (simp add: taken_def enqueue_count_def enqueue_loop_available)
qed (use assms in \<open>auto simp: taken_def drain_def\<close>)

lemma taken_run: "queue_kept q \<Longrightarrow> taken h q \<Longrightarrow> taken h (fold queue_step es q)"
  by (induction es arbitrary: q) (simp_all add: queue_step_kept taken_step)

section \<open>Properties\<close>

text \<open>C16: the camera-initiated queue releases an object exactly when all of it was delivered.
  Whatever ranges were acknowledged before, in any order and with any overlap, without covering
  the object of \<open>n\<close> bytes, the next acknowledgement advances the head, starts a new generation and
  forgets the ranges if and only if all bytes \<open>0..<n\<close> have now been delivered; otherwise head and
  generation stay.\<close>
theorem head_released_when_delivered:
  assumes "cq_delivered q = []" "n \<le> u64_max" "\<not> {0..<n} \<subseteq> delivered_bytes acks"
    "acknowledge offset len n (run_acks n acks q) = (released, q')"
  shows "(released \<longleftrightarrow> {0..<n} \<subseteq> delivered_bytes (acks @ [(offset, len)]))
    \<and> cq_head q' = (if released then cq_head q + 1 else cq_head q)
    \<and> cq_generation q' = (if released then cq_generation q + 1 else cq_generation q)
    \<and> (released \<longrightarrow> cq_delivered q' = [])"
proof -
  note run = run_acks_covers [OF assms(1-3)]
  have b: "delivered_bytes (acks @ [(offset, len)]) = delivered_bytes acks \<union> {offset..<offset + len}"
    by (auto simp: delivered_bytes_def)
  have "released \<longleftrightarrow> {0..<n} \<subseteq> delivered_bytes (acks @ [(offset, len)])"
    using acknowledge_covers(1) [of "run_acks n acks q" n "delivered_bytes acks" offset len] run assms(2,4) b
    by simp
  then show ?thesis
    using assms(4) run by (auto simp: acknowledge_def Let_def split: if_split_asm)
qed

definition sample_queue :: CameraInitiatedQueue where
  "sample_queue = CameraInitiatedQueue_new [7, 8]"

theorem head_released_when_delivered_witness:
  "fst (acknowledge 0 4 10 (run_acks 10 [(6, 9), (3, 3)] sample_queue)) \<and>
   queue_head (snd (acknowledge 0 4 10 (run_acks 10 [(6, 9), (3, 3)] sample_queue))) = Some 8"
proof -
  let ?r = "acknowledge 0 4 10 (run_acks 10 [(6, 9), (3, 3)] sample_queue)"
  have "0 \<notin> delivered_bytes [(6, 9), (3, 3)]" "{0..<10} \<subseteq> delivered_bytes [(6, 9), (3, 3), (0, 4)]"
    by (auto simp: delivered_bytes_def)
  moreover from this have "\<not> {0..<10} \<subseteq> delivered_bytes [(6, 9), (3, 3)]"
    using subsetD [of "{0..<10}" "delivered_bytes [(6, 9), (3, 3)]" 0] by auto
  ultimately have "fst ?r \<and> cq_head (snd ?r) = 1"
    using head_released_when_delivered [of sample_queue 10 "[(6, 9), (3, 3)]" 0 4 "fst ?r" "snd ?r"]
    by (simp add: sample_queue_def CameraInitiatedQueue_new_def)
  moreover have "cq_handles (snd ?r) = [7, 8]"
    by code_simp
  ultimately show ?thesis
    by (simp add: queue_head_def)
qed

text \<open>The standard object queue neither loses nor repeats objects. After any series of enqueues
  and drains of a queue seeded with distinct handles, the objects on offer and those completed add
  up to those made available so far, an enqueue offers exactly as many further objects as the
  preflight announced, and an object that was drained is never offered or drained again.\<close>
theorem transfer_queue_conserves:
  assumes "distinct hs" "q\<^sub>0 = startup_seeded c hs \<or> q\<^sub>0 = shutter_seeded c hs n sq"
    "q = fold queue_step es q\<^sub>0"
  shows "qs_queued (standard_stats q) + qs_completed (standard_stats q) = tq_next_index q
    \<and> tq_next_index q \<le> qs_total (standard_stats q)
    \<and> fst (enqueue_count k q) = pending_enqueue k q
    \<and> (fst (drain h q) \<longrightarrow>
         \<not> queue_contains (fold queue_step es' (snd (drain h q))) h
         \<and> \<not> fst (drain h (fold queue_step es' (snd (drain h q)))))"
proof -
  have k: "queue_kept q"
    using queue_kept_seeded [OF assms(1)] assms(2,3) queue_run_kept by blast
  have "taken h (snd (drain h q))" if "fst (drain h q)"
    using that k by (auto simp: taken_def drain_def queue_kept_def split: if_split_asm)
  then have "taken h (fold queue_step es' (snd (drain h q)))" if "fst (drain h q)"
    using that taken_run [OF queue_kept_drain [OF k]] by blast
  then show ?thesis
    using k enqueue_loop_kept [OF k, of k]
    by (auto simp: standard_stats_def queue_kept_def enqueue_count_def taken_def queue_contains_def
        drain_def [of h "fold queue_step es' _"])
qed

theorem transfer_queue_conserves_witness:
  "fst (drain 5 (fold queue_step [Enqueue 2] (shutter_seeded [] [5, 6, 7] 1 []))) \<and>
   \<not> queue_contains (fold queue_step [Enqueue 9]
        (snd (drain 5 (fold queue_step [Enqueue 2] (shutter_seeded [] [5, 6, 7] 1 []))))) 5"
proof -
  let ?q = "fold queue_step [Enqueue 2] (shutter_seeded [] [5, 6, 7] 1 [])"
  have "fst (drain 5 ?q)"
    by code_simp
  then show ?thesis
    using transfer_queue_conserves [of "[5, 6, 7]" "shutter_seeded [] [5, 6, 7] 1 []" "[]" 1 "[]" ?q
        "[Enqueue 2]" 9 5 "[Enqueue 9]"]
    by simp
qed

end
