(* ===== verification/Lifecycle.thy ===== *)
theory Lifecycle
  imports Prelude
begin

text \<open>
  The dynamic connection lifecycle (\<^verbatim>\<open>crates/camera-config/src/lifecycle.rs\<close>): five layers of
  evidence, the transition that updates them, and the tracker with its bounded trace. The
  sequence number is a \<^verbatim>\<open>u64\<close> with a checked increment; it is a natural number here and the
  check is written out.
\<close>

section \<open>Data\<close>

definition MAX_CONNECTION_LIFECYCLE_TRACE_EVENTS :: nat where
  "MAX_CONNECTION_LIFECYCLE_TRACE_EVENTS = 512"

datatype ConnectionLifecycleSchema = V1

datatype 'a LifecycleEvidence = Unknown | Unconfirmed 'a | Confirmed 'a

datatype NetworkPersonaState = NP_Ready | NP_Exited

datatype CommandListenerState = CL_Ready

datatype ProxyTransportState = PT_Accepted | PT_CommandInitialized | PT_Lost | PT_LocallyClosed

datatype PtpSessionState = PS_Open | PS_Closed

datatype FeatureMode = FM_LiveView | FM_ImageTransfer

datatype FeatureState = FT_Inactive | FT_Active FeatureMode

record ConnectionLifecycleSnapshot =
  lc_schema :: ConnectionLifecycleSchema
  lc_sequence :: nat
  lc_network_persona :: "NetworkPersonaState LifecycleEvidence"
  lc_command_listener :: "CommandListenerState LifecycleEvidence"
  lc_proxy_transport :: "ProxyTransportState LifecycleEvidence"
  lc_ptp_session :: "PtpSessionState LifecycleEvidence"
  lc_feature :: "FeatureState LifecycleEvidence"

definition Snapshot_default :: ConnectionLifecycleSnapshot where
  "Snapshot_default =
     \<lparr>lc_schema = V1, lc_sequence = 0, lc_network_persona = Unknown, lc_command_listener = Unknown,
      lc_proxy_transport = Unknown, lc_ptp_session = Unknown, lc_feature = Unknown\<rparr>"

datatype ConnectionLifecycleTransition =
    NetworkPersonaReady
  | NetworkPersonaExitRequested
  | NetworkPersonaExitConfirmed
  | CommandListenerReady
  | ProxyTransportAccepted
  | CommandInitialized
  | ProxyTransportLost
  | ProxyTransportClosedLocally
  | PtpSessionOpened
  | PtpSessionClosed
  | FeatureEntered FeatureMode
  | FeatureExited

record ConnectionLifecycleTraceEvent =
  le_schema :: ConnectionLifecycleSchema
  le_sequence :: nat
  le_transition :: ConnectionLifecycleTransition
  le_before :: ConnectionLifecycleSnapshot
  le_after :: ConnectionLifecycleSnapshot

datatype ConnectionLifecycleError = SequenceOverflow

section \<open>Operations\<close>

definition mark_open_layers_unconfirmed ::
  "ConnectionLifecycleSnapshot \<Rightarrow> ConnectionLifecycleSnapshot" where
  "mark_open_layers_unconfirmed s =
     (let s1 = (if lc_ptp_session s = Confirmed PS_Open
                then s\<lparr>lc_ptp_session := Unconfirmed PS_Open\<rparr> else s)
      in case lc_feature s1 of
           Confirmed (FT_Active mode) \<Rightarrow> s1\<lparr>lc_feature := Unconfirmed (FT_Active mode)\<rparr>
         | _ \<Rightarrow> s1)"

fun update_layers ::
  "ConnectionLifecycleTransition \<Rightarrow> ConnectionLifecycleSnapshot \<Rightarrow> ConnectionLifecycleSnapshot" where
  "update_layers NetworkPersonaReady s = s\<lparr>lc_network_persona := Confirmed NP_Ready\<rparr>"
| "update_layers NetworkPersonaExitRequested s = s\<lparr>lc_network_persona := Unconfirmed NP_Exited\<rparr>"
| "update_layers NetworkPersonaExitConfirmed s = s\<lparr>lc_network_persona := Confirmed NP_Exited\<rparr>"
| "update_layers CommandListenerReady s = s\<lparr>lc_command_listener := Confirmed CL_Ready\<rparr>"
| "update_layers ProxyTransportAccepted s = s\<lparr>lc_proxy_transport := Confirmed PT_Accepted\<rparr>"
| "update_layers CommandInitialized s =
     s\<lparr>lc_command_listener := Confirmed CL_Ready,
       lc_proxy_transport := Confirmed PT_CommandInitialized\<rparr>"
| "update_layers ProxyTransportLost s =
     mark_open_layers_unconfirmed (s\<lparr>lc_proxy_transport := Confirmed PT_Lost\<rparr>)"
| "update_layers ProxyTransportClosedLocally s =
     mark_open_layers_unconfirmed (s\<lparr>lc_proxy_transport := Confirmed PT_LocallyClosed\<rparr>)"
| "update_layers PtpSessionOpened s = s\<lparr>lc_ptp_session := Confirmed PS_Open\<rparr>"
| "update_layers PtpSessionClosed s =
     s\<lparr>lc_ptp_session := Confirmed PS_Closed, lc_feature := Confirmed FT_Inactive\<rparr>"
| "update_layers (FeatureEntered mode) s = s\<lparr>lc_feature := Confirmed (FT_Active mode)\<rparr>"
| "update_layers FeatureExited s = s\<lparr>lc_feature := Confirmed FT_Inactive\<rparr>"

definition apply_connection_lifecycle_transition ::
  "ConnectionLifecycleSnapshot \<Rightarrow> ConnectionLifecycleTransition \<Rightarrow>
   ConnectionLifecycleError + ConnectionLifecycleTraceEvent" where
  "apply_connection_lifecycle_transition prior t =
     (if lc_sequence prior + 1 > u64_max then Inl SequenceOverflow
      else let after = update_layers t (prior\<lparr>lc_sequence := lc_sequence prior + 1\<rparr>)
           in Inr \<lparr>le_schema = V1, le_sequence = lc_sequence prior + 1, le_transition = t,
                   le_before = prior, le_after = after\<rparr>)"

record ConnectionLifecycleTracker =
  lt_snapshot :: ConnectionLifecycleSnapshot
  lt_trace :: "ConnectionLifecycleTraceEvent list"

definition Tracker_default :: ConnectionLifecycleTracker where
  "Tracker_default = \<lparr>lt_snapshot = Snapshot_default, lt_trace = []\<rparr>"

definition tracker_apply ::
  "ConnectionLifecycleTransition \<Rightarrow> ConnectionLifecycleTracker \<Rightarrow>
   (ConnectionLifecycleError + ConnectionLifecycleTraceEvent) \<times> ConnectionLifecycleTracker" where
  "tracker_apply t k =
     (case apply_connection_lifecycle_transition (lt_snapshot k) t of
        Inl e \<Rightarrow> (Inl e, k)
      | Inr ev \<Rightarrow>
          (let pushed = lt_trace k @ [ev];
               kept = (if MAX_CONNECTION_LIFECYCLE_TRACE_EVENTS < length pushed
                       then tl pushed else pushed)
           in (Inr (last kept), \<lparr>lt_snapshot = le_after ev, lt_trace = kept\<rparr>)))"

section \<open>Histories\<close>

definition tracker_run :: "ConnectionLifecycleTransition list \<Rightarrow> ConnectionLifecycleTracker" where
  "tracker_run ts = fold (\<lambda>t k. snd (tracker_apply t k)) ts Tracker_default"

text \<open>The unbounded log: every event with the snapshots around it.\<close>

primrec full_log ::
  "ConnectionLifecycleSnapshot \<Rightarrow> ConnectionLifecycleTransition list \<Rightarrow>
   ConnectionLifecycleTraceEvent list" where
  "full_log s [] = []"
| "full_log s (t # ts) =
     (let after = update_layers t (s\<lparr>lc_sequence := lc_sequence s + 1\<rparr>)
      in \<lparr>le_schema = V1, le_sequence = lc_sequence s + 1, le_transition = t, le_before = s,
          le_after = after\<rparr> # full_log after ts)"

definition layers_after ::
  "ConnectionLifecycleSnapshot \<Rightarrow> ConnectionLifecycleTransition list \<Rightarrow> ConnectionLifecycleSnapshot" where
  "layers_after s ts =
     fold (\<lambda>t s. update_layers t (s\<lparr>lc_sequence := lc_sequence s + 1\<rparr>)) ts s"

definition last_n :: "nat \<Rightarrow> 'a list \<Rightarrow> 'a list" where
  "last_n n xs = drop (length xs - n) xs"

lemma mark_sequence [simp]: "lc_sequence (mark_open_layers_unconfirmed s) = lc_sequence s"
  by (simp add: mark_open_layers_unconfirmed_def Let_def split: LifecycleEvidence.split FeatureState.split)

lemma update_layers_sequence [simp]: "lc_sequence (update_layers t s) = lc_sequence s"
  by (cases t) simp_all

lemma layers_after_simps [simp]:
  "layers_after s [] = s"
  "layers_after s (ts @ [t]) =
     update_layers t ((layers_after s ts)\<lparr>lc_sequence := lc_sequence (layers_after s ts) + 1\<rparr>)"
  by (simp_all add: layers_after_def)

lemma layers_after_sequence [simp]: "lc_sequence (layers_after s ts) = lc_sequence s + length ts"
  by (induction ts rule: rev_induct) simp_all

lemma full_log_snoc:
  "full_log s (ts @ [t]) = full_log s ts @
     [\<lparr>le_schema = V1, le_sequence = lc_sequence s + length ts + 1, le_transition = t,
       le_before = layers_after s ts, le_after = layers_after s (ts @ [t])\<rparr>]"
  by (induction ts arbitrary: s) (simp_all add: Let_def layers_after_def)

lemma length_full_log [simp]: "length (full_log s ts) = length ts"
  by (induction ts arbitrary: s) (simp_all add: Let_def)

lemma last_n_snoc:
  "0 < n \<Longrightarrow>
   last_n n (xs @ [x]) = (if n < length (last_n n xs @ [x]) then tl (last_n n xs @ [x]) else last_n n xs @ [x])"
  by (auto simp: last_n_def Suc_diff_le drop_Suc tl_drop)

lemma tracker_apply_fits:
  assumes "lc_sequence (lt_snapshot k) < u64_max" "lt_trace k = last_n 512 log"
  shows "snd (tracker_apply t k) =
    (let after = update_layers t ((lt_snapshot k)\<lparr>lc_sequence := lc_sequence (lt_snapshot k) + 1\<rparr>)
     in \<lparr>lt_snapshot = after,
         lt_trace = last_n 512 (log @ [\<lparr>le_schema = V1, le_sequence = lc_sequence (lt_snapshot k) + 1,
           le_transition = t, le_before = lt_snapshot k, le_after = after\<rparr>])\<rparr>)"
  using assms
  by (simp add: tracker_apply_def apply_connection_lifecycle_transition_def last_n_snoc Let_def
      MAX_CONNECTION_LIFECYCLE_TRACE_EVENTS_def)

lemma tracker_run_log:
  "length ts \<le> u64_max \<Longrightarrow>
   lt_snapshot (tracker_run ts) = layers_after Snapshot_default ts \<and>
   lt_trace (tracker_run ts) = last_n 512 (full_log Snapshot_default ts)"
proof (induction ts rule: rev_induct)
  case Nil
  then show ?case
    by (simp add: tracker_run_def Tracker_default_def last_n_def)
next
  case (snoc t ts)
  let ?k = "tracker_run ts"
  have "lc_sequence (lt_snapshot ?k) = length ts"
    using snoc by (simp add: Snapshot_default_def)
  moreover have "tracker_run (ts @ [t]) = snd (tracker_apply t ?k)"
    by (simp add: tracker_run_def)
  ultimately show ?case
    using snoc tracker_apply_fits [of ?k "full_log Snapshot_default ts" t]
    by (simp add: full_log_snoc Let_def)
qed

text \<open>\<open>since P Q ts\<close>: some transition satisfied \<open>P\<close> and none after it satisfied \<open>Q\<close>.\<close>

definition since :: "('a \<Rightarrow> bool) \<Rightarrow> ('a \<Rightarrow> bool) \<Rightarrow> 'a list \<Rightarrow> bool" where
  "since P Q ts \<longleftrightarrow> (\<exists>us x vs. ts = us @ x # vs \<and> P x \<and> \<not> list_ex Q vs)"

lemma since_Nil [simp]: "\<not> since P Q []"
  by (simp add: since_def)

lemma since_snoc [simp]: "since P Q (ts @ [t]) \<longleftrightarrow> P t \<or> (\<not> Q t \<and> since P Q ts)"
proof
  assume "since P Q (ts @ [t])"
  then obtain us x vs where d: "ts @ [t] = us @ x # vs" "P x" "\<not> list_ex Q vs"
    by (auto simp: since_def)
  show "P t \<or> (\<not> Q t \<and> since P Q ts)"
  proof (cases vs rule: rev_cases)
    case Nil
    then show ?thesis using d by simp
  next
    case (snoc ws w)
    then have "ts = us @ x # ws" "w = t"
      using d(1) by simp_all
    then show ?thesis
      using d snoc by (auto simp: since_def)
  qed
next
  assume "P t \<or> (\<not> Q t \<and> since P Q ts)"
  then show "since P Q (ts @ [t])"
  proof
    assume "P t"
    then show ?thesis
      unfolding since_def by (intro exI [of _ ts] exI [of _ t] exI [of _ "[]"]) simp
  next
    assume "\<not> Q t \<and> since P Q ts"
    then obtain us x vs where "ts = us @ x # vs" "P x" "\<not> list_ex Q vs" "\<not> Q t"
      by (auto simp: since_def)
    then show ?thesis
      unfolding since_def by (intro exI [of _ us] exI [of _ x] exI [of _ "vs @ [t]"]) simp
  qed
qed

definition ends_transport :: "ConnectionLifecycleTransition \<Rightarrow> bool" where
  "ends_transport t \<longleftrightarrow> t = ProxyTransportLost \<or> t = ProxyTransportClosedLocally"

definition ends_session :: "ConnectionLifecycleTransition \<Rightarrow> bool" where
  "ends_session t \<longleftrightarrow> t = PtpSessionClosed \<or> ends_transport t"

definition moves_feature :: "ConnectionLifecycleTransition \<Rightarrow> bool" where
  "moves_feature t \<longleftrightarrow> ends_session t \<or> t = FeatureExited \<or> (\<exists>m. t = FeatureEntered m)"

lemma session_confirmed_iff:
  "lc_ptp_session (layers_after Snapshot_default ts) = Confirmed PS_Open \<longleftrightarrow>
     since (\<lambda>t. t = PtpSessionOpened) ends_session ts"
proof (induction ts rule: rev_induct)
  case (snoc t ts)
  then show ?case
    by (cases t)
      (auto simp: ends_session_def ends_transport_def mark_open_layers_unconfirmed_def Let_def
        split: LifecycleEvidence.split FeatureState.split)
qed (simp add: Snapshot_default_def)

lemma feature_confirmed_iff:
  "lc_feature (layers_after Snapshot_default ts) = Confirmed (FT_Active m) \<longleftrightarrow>
     since (\<lambda>t. t = FeatureEntered m) moves_feature ts"
proof (induction ts rule: rev_induct)
  case (snoc t ts)
  then show ?case
    by (cases t)
      (auto simp: moves_feature_def ends_session_def ends_transport_def
        mark_open_layers_unconfirmed_def Let_def split: LifecycleEvidence.split FeatureState.split)
qed (simp add: Snapshot_default_def)

lemma listener_confirmed_iff:
  "lc_command_listener (layers_after Snapshot_default ts) = Confirmed CL_Ready \<longleftrightarrow>
     CommandListenerReady \<in> set ts \<or> CommandInitialized \<in> set ts"
proof (induction ts rule: rev_induct)
  case (snoc t ts)
  then show ?case
    by (cases t)
      (auto simp: mark_open_layers_unconfirmed_def Let_def
        split: LifecycleEvidence.split FeatureState.split)
qed (simp add: Snapshot_default_def)

section \<open>Properties\<close>

text \<open>C33: the lifecycle tracker keeps exactly the last 512 events of the full history. After
  any series of at most \<open>2 ^ 64 - 1\<close> transitions the snapshot is that of the whole series, the
  trace is the tail of the complete log, which runs each event from the snapshot the previous
  one ended with, the sequence number counts the transitions, and a further transition is refused, with nothing changed, exactly when the sequence number is used up.\<close>
theorem lifecycle_trace_is_recent_log:
  assumes "length ts \<le> u64_max"
  shows "lt_snapshot (tracker_run ts) = layers_after Snapshot_default ts
    \<and> lt_trace (tracker_run ts) = last_n MAX_CONNECTION_LIFECYCLE_TRACE_EVENTS (full_log Snapshot_default ts)
    \<and> lc_sequence (lt_snapshot (tracker_run ts)) = length ts
    \<and> (tracker_apply t (tracker_run ts) = (Inl SequenceOverflow, tracker_run ts)
        \<longleftrightarrow> length ts = u64_max)"
proof -
  have seq: "lc_sequence (lt_snapshot (tracker_run ts)) = length ts"
    using tracker_run_log [OF assms] by (simp add: Snapshot_default_def)
  then have "tracker_apply t (tracker_run ts) = (Inl SequenceOverflow, tracker_run ts)
      \<longleftrightarrow> length ts = u64_max"
    using assms
    by (auto simp: tracker_apply_def apply_connection_lifecycle_transition_def Let_def)
  then show ?thesis
    using tracker_run_log [OF assms] seq by (simp add: MAX_CONNECTION_LIFECYCLE_TRACE_EVENTS_def)
qed

theorem lifecycle_trace_is_recent_log_witness:
  "lc_sequence (lt_snapshot (tracker_run [CommandInitialized, PtpSessionOpened])) = 2
   \<and> length (lt_trace (tracker_run [CommandInitialized, PtpSessionOpened])) = 2"
proof
  show "lc_sequence (lt_snapshot (tracker_run [CommandInitialized, PtpSessionOpened])) = 2"
    using lifecycle_trace_is_recent_log [of "[CommandInitialized, PtpSessionOpened]" FeatureExited,
        THEN conjunct2, THEN conjunct2, THEN conjunct1]
    by simp
qed code_simp



end
