(* ===== verification/Media_Store.thy ===== *)
theory Media_Store
  imports Rust_Text Ptp_Dataset "HOL-Library.List_Lexorder"
begin

text \<open>
  The card model (\<^verbatim>\<open>crates/camera-media-store/src/lib.rs\<close>): object handles, object information,
  bounded reads and the extraction of embedded thumbnails.

  The operating system's file system is a parameter: \<open>file_system\<close> gives the contents of a
  regular file, and a scan starts from the list of paths, directory flags and sizes that the
  directory walk collected. A path is its list of components below the root, each a byte string,
  ordered as \<^verbatim>\<open>PathBuf\<close> orders paths, component by component. Offsets and lengths are natural
  numbers: every sum in the modelled code is of values below \<open>2 ^ 33\<close> or of file positions.
\<close>

section \<open>Data\<close>

type_synonym path = "bytes list"
type_synonym file_system = "path \<Rightarrow> bytes option"

definition SIZE_CEILING :: nat where
  "SIZE_CEILING = u32_max"

definition RAF :: u16 where "RAF = 0xb103"
definition MOV :: u16 where "MOV = 0x300d"
definition HEIF :: u16 where "HEIF = 0x3818"
definition EXIF_JPEG :: u16 where "EXIF_JPEG = 0x3801"
definition UNDEFINED :: u16 where "UNDEFINED = 0x3000"
definition ASSOCIATION :: u16 where "ASSOCIATION = 0x3001"

datatype MediaError = ME_Io | UnknownHandle u32 | RootEscape path | NoPreview

datatype ByteSource =
    Memory bytes
  | FileRange path nat nat      \<comment> \<open>path, offset, length\<close>
  | Generated nat u64           \<comment> \<open>length, seed\<close>

fun source_len :: "ByteSource \<Rightarrow> nat" where
  "source_len (Memory b) = length b"
| "source_len (FileRange p off n) = n"
| "source_len (Generated n seed) = n"

definition generated_byte :: "u64 \<Rightarrow> nat \<Rightarrow> u8" where
  "generated_byte seed i = ucast (word_of_nat i * 2654435761 + seed :: u64)"

text \<open>\<^verbatim>\<open>seek\<close> followed by \<^verbatim>\<open>read_full\<close> into a buffer of \<open>n\<close> bytes, cut to what was there.\<close>

definition read_window :: "bytes \<Rightarrow> nat \<Rightarrow> nat \<Rightarrow> bytes" where
  "read_window file off n = take n (drop off file)"

fun source_read :: "file_system \<Rightarrow> ByteSource \<Rightarrow> MediaError + bytes" where
  "source_read fs (Memory b) = Inr b"
| "source_read fs (FileRange p off n) =
     (case fs p of None \<Rightarrow> Inl ME_Io | Some file \<Rightarrow> Inr (read_window file off n))"
| "source_read fs (Generated n seed) = Inr (map (generated_byte seed) [0..<n])"

definition read_chunk :: "file_system \<Rightarrow> ByteSource \<Rightarrow> nat \<Rightarrow> nat \<Rightarrow> MediaError + bytes" where
  "read_chunk fs src chunk_offset limit =
     (let total = source_len src
      in if total \<le> chunk_offset \<or> limit = 0 then Inr []
         else (let want = min (total - chunk_offset) limit
               in case src of
                    Memory b \<Rightarrow> Inr (subslice chunk_offset (chunk_offset + want) b)
                  | FileRange p off n \<Rightarrow>
                      (case fs p of
                         None \<Rightarrow> Inl ME_Io
                       | Some file \<Rightarrow> Inr (read_window file (off + chunk_offset) want))
                  | Generated n seed \<Rightarrow>
                      Inr (map (generated_byte seed) [chunk_offset..<chunk_offset + want])))"

record Entry =
  en_handle :: u32
  en_path :: path
  en_parent :: u32
  en_is_dir :: bool
  en_size :: nat
  en_format :: u16

record ObjectQuery =
  q_parent :: "u32 option"
  q_format :: "u16 option"

definition ObjectQuery_default :: ObjectQuery where
  "ObjectQuery_default = \<lparr>q_parent = None, q_format = None\<rparr>"

record ScanSummary =
  ss_objects :: nat
  ss_bytes :: nat

text \<open>The entries in handle order.\<close>

record MediaStore =
  by_handle :: "(u32 \<times> Entry) list"

section \<open>Scanning\<close>

definition ascii_lower :: "nat \<Rightarrow> nat" where
  "ascii_lower c = (if 65 \<le> c \<and> c \<le> 90 then c + 32 else c)"

text \<open>\<^verbatim>\<open>Path::extension\<close>: what follows the last dot of the file name, unless the name has
  no dot or only a leading one.\<close>

definition extension :: "bytes \<Rightarrow> bytes option" where
  "extension name =
     (let tail = takeWhile (\<lambda>b. b \<noteq> 46) (rev name);
          stem = drop (length tail + 1) (rev name)
      in if length tail = length name \<or> stem = [] then None else Some (rev tail))"

definition format_of :: "path \<Rightarrow> u16" where
  "format_of p =
     (case (if p = [] then None else extension (last p)) of
        None \<Rightarrow> UNDEFINED
      | Some e \<Rightarrow>
          (case from_utf8 e of
             None \<Rightarrow> UNDEFINED
           | Some s \<Rightarrow>
               (let x = map ascii_lower s
                in if x = lit ''jpg'' \<or> x = lit ''jpeg'' then EXIF_JPEG
                   else if x = lit ''raf'' then RAF
                   else if x = lit ''mov'' then MOV
                   else if x = lit ''heif'' \<or> x = lit ''heic'' then HEIF
                   else UNDEFINED)))"

fun bt_insert :: "'k::linorder \<Rightarrow> 'v \<Rightarrow> ('k \<times> 'v) list \<Rightarrow> ('k \<times> 'v) list" where
  "bt_insert k v [] = [(k, v)]"
| "bt_insert k v ((k', v') # r) =
     (if k < k' then (k, v) # (k', v') # r
      else if k = k' then (k, v) # r
      else (k', v') # bt_insert k v r)"

definition assign_handles :: "(path \<times> bool \<times> nat) list \<Rightarrow> (path \<times> u32) list" where
  "assign_handles ps = map (\<lambda>(i, p). (fst p, word_of_nat i + 1)) (enumerate 0 ps)"

definition scan_entry :: "(path \<Rightarrow> u32 option) \<Rightarrow> path \<times> bool \<times> nat \<Rightarrow> Entry" where
  "scan_entry handle_of x =
     (case x of (p, is_dir, sz) \<Rightarrow>
        \<lparr>en_handle = the (handle_of p), en_path = p,
         en_parent = (case (if p = [] then None else handle_of (butlast p)) of None \<Rightarrow> 0 | Some h \<Rightarrow> h),
         en_is_dir = is_dir, en_size = sz,
         en_format = (if is_dir then ASSOCIATION else format_of p)\<rparr>)"

definition scan :: "(path \<times> bool \<times> nat) list \<Rightarrow> MediaStore \<times> ScanSummary" where
  "scan collected =
     (let paths = sort_key fst collected;
          handle_of = map_of (rev (assign_handles paths));
          entries = map (scan_entry handle_of) paths
      in (\<lparr>by_handle = fold (\<lambda>e m. bt_insert (en_handle e) e m) entries []\<rparr>,
          \<lparr>ss_objects = length paths,
           ss_bytes = sum_list (map (\<lambda>(_, is_dir, sz). if is_dir then 0 else sz) paths)\<rparr>))"

section \<open>Queries\<close>

definition entry :: "MediaStore \<Rightarrow> u32 \<Rightarrow> MediaError + Entry" where
  "entry st h = ok_or (map_of (by_handle st) h) (UnknownHandle h)"

definition handles :: "MediaStore \<Rightarrow> ObjectQuery \<Rightarrow> u32 list" where
  "handles st q =
     map en_handle
       (filter (\<lambda>e. case q_format q of None \<Rightarrow> True | Some f \<Rightarrow> en_format e = f)
         (filter (\<lambda>e. case q_parent q of None \<Rightarrow> True | Some p \<Rightarrow> en_parent e = p)
           (map snd (by_handle st))))"

definition file_name_text :: "path \<Rightarrow> ustring" where
  "file_name_text p =
     (if p = [] then [] else case from_utf8 (last p) of None \<Rightarrow> [] | Some s \<Rightarrow> s)"

definition object_size :: "MediaStore \<Rightarrow> u32 \<Rightarrow> MediaError + nat" where
  "object_size st h = res_bind (entry st h) (\<lambda>e. Inr (en_size e))"

definition reports_size_sentinel :: "MediaStore \<Rightarrow> u32 \<Rightarrow> MediaError + bool" where
  "reports_size_sentinel st h = res_bind (entry st h) (\<lambda>e. Inr (SIZE_CEILING \<le> en_size e))"

definition read_range :: "MediaStore \<Rightarrow> u32 \<Rightarrow> nat \<Rightarrow> nat \<Rightarrow> MediaError + ByteSource" where
  "read_range st h off n =
     res_bind (entry st h) (\<lambda>e. Inr (FileRange (en_path e) off (min n (en_size e - off))))"

section \<open>Embedded thumbnails\<close>

record FileSpan =
  sp_offset :: nat
  sp_len :: nat

definition RAF_HEADER_LEN :: nat where "RAF_HEADER_LEN = 0x5c"
definition RAF_PREVIEW_OFFSET_AT :: nat where "RAF_PREVIEW_OFFSET_AT = 0x54"
definition RAF_PREVIEW_LENGTH_AT :: nat where "RAF_PREVIEW_LENGTH_AT = 0x58"

definition read_at :: "bytes \<Rightarrow> nat \<Rightarrow> nat \<Rightarrow> MediaError + bytes" where
  "read_at file off n =
     (let buf = read_window file off n in if length buf \<noteq> n then Inl NoPreview else Inr buf)"

definition be_dec :: "bytes \<Rightarrow> nat" where
  "be_dec bs = le_dec (rev bs)"

definition raf_header_preview :: "bytes \<Rightarrow> MediaError + FileSpan option" where
  "raf_header_preview file =
     (if length file < RAF_HEADER_LEN then Inr None
      else res_bind (read_at file 0 RAF_HEADER_LEN) (\<lambda>header.
        if take 8 header \<noteq> map word_of_nat (lit ''FUJIFILM'') then Inr None
        else
          (let off = be_dec (subslice RAF_PREVIEW_OFFSET_AT (RAF_PREVIEW_OFFSET_AT + 4) header);
               n = be_dec (subslice RAF_PREVIEW_LENGTH_AT (RAF_PREVIEW_LENGTH_AT + 4) header)
           in if off = 0 \<or> n = 0 then Inr None
              else if off + n > u64_max then Inl NoPreview
              else if length file < off + n then Inr None
              else Inr (Some \<lparr>sp_offset = off, sp_len = n\<rparr>))))"

datatype TiffEndian = Little | Big

definition slice_get :: "bytes \<Rightarrow> nat \<Rightarrow> nat \<Rightarrow> bytes option" where
  "slice_get bs a b = (if a \<le> b \<and> b \<le> length bs then Some (subslice a b bs) else None)"

definition from_header :: "bytes \<Rightarrow> TiffEndian option" where
  "from_header tiff =
     (case slice_get tiff 0 2 of
        None \<Rightarrow> None
      | Some b \<Rightarrow> if b = [0x49, 0x49] then Some Little
                  else if b = [0x4d, 0x4d] then Some Big else None)"

definition tiff_num :: "bytes \<Rightarrow> nat \<Rightarrow> nat \<Rightarrow> TiffEndian \<Rightarrow> nat option" where
  "tiff_num tiff off n endian =
     map_option (case endian of Little \<Rightarrow> le_dec | Big \<Rightarrow> be_dec) (slice_get tiff off (off + n))"

definition tiff_u16 :: "bytes \<Rightarrow> nat \<Rightarrow> TiffEndian \<Rightarrow> nat option" where
  "tiff_u16 tiff off endian = tiff_num tiff off 2 endian"

definition tiff_u32 :: "bytes \<Rightarrow> nat \<Rightarrow> TiffEndian \<Rightarrow> nat option" where
  "tiff_u32 tiff off endian = tiff_num tiff off 4 endian"

definition ifd_next :: "bytes \<Rightarrow> nat \<Rightarrow> TiffEndian \<Rightarrow> nat option" where
  "ifd_next tiff ifd endian =
     Option.bind (tiff_u16 tiff ifd endian) (\<lambda>count.
     Option.bind (tiff_u32 tiff (ifd + 2 + count * 12) endian) (\<lambda>next.
       if next \<noteq> 0 then Some next else None))"

definition ifd_entry_u32 :: "bytes \<Rightarrow> nat \<Rightarrow> TiffEndian \<Rightarrow> nat option" where
  "ifd_entry_u32 tiff ent endian =
     Option.bind (tiff_u16 tiff (ent + 2) endian) (\<lambda>field_type.
     Option.bind (tiff_u32 tiff (ent + 4) endian) (\<lambda>count.
       if count \<noteq> 1 then None
       else if field_type = 3 then tiff_u16 tiff (ent + 8) endian
       else if field_type = 4 then tiff_u32 tiff (ent + 8) endian
       else None))"

fun ifd_entries ::
  "bytes \<Rightarrow> nat \<Rightarrow> TiffEndian \<Rightarrow> nat list \<Rightarrow> nat option \<times> nat option \<Rightarrow> (nat option \<times> nat option) option" where
  "ifd_entries tiff ifd endian [] acc = Some acc"
| "ifd_entries tiff ifd endian (i # is) acc =
     (let ent = ifd + 2 + i * 12
      in Option.bind (tiff_u16 tiff ent endian) (\<lambda>tag.
           if tag = 0x0201 then
             Option.bind (ifd_entry_u32 tiff ent endian) (\<lambda>v.
               ifd_entries tiff ifd endian is (Some v, snd acc))
           else if tag = 0x0202 then
             Option.bind (ifd_entry_u32 tiff ent endian) (\<lambda>v.
               ifd_entries tiff ifd endian is (fst acc, Some v))
           else ifd_entries tiff ifd endian is acc))"

definition ifd_jpeg_thumbnail :: "bytes \<Rightarrow> nat \<Rightarrow> TiffEndian \<Rightarrow> (nat \<times> nat) option" where
  "ifd_jpeg_thumbnail tiff ifd endian =
     Option.bind (tiff_u16 tiff ifd endian) (\<lambda>count.
     Option.bind (ifd_entries tiff ifd endian [0..<count] (None, None)) (\<lambda>(off, n).
     Option.bind off (\<lambda>o1. Option.bind n (\<lambda>n1. Some (o1, n1)))))"

definition exif_thumbnail_span :: "bytes \<Rightarrow> FileSpan option" where
  "exif_thumbnail_span app1 =
     (if take 6 app1 \<noteq> map word_of_nat (lit ''Exif'') @ [0, 0] then None
      else
        (let tiff = drop 6 app1
         in Option.bind (from_header tiff) (\<lambda>endian.
            Option.bind (tiff_u16 tiff 2 endian) (\<lambda>magic.
              if magic \<noteq> 42 then None
              else
                Option.bind (tiff_u32 tiff 4 endian) (\<lambda>ifd0.
                Option.bind (ifd_next tiff ifd0 endian) (\<lambda>ifd1.
                Option.bind (ifd_jpeg_thumbnail tiff ifd1 endian) (\<lambda>(off, n).
                  if n = 0 then None
                  else
                    Option.bind (slice_get tiff off (off + n)) (\<lambda>thumb.
                      if take 2 thumb \<noteq> [0xff, 0xd8] then None
                      else Some \<lparr>sp_offset = 6 + off, sp_len = n\<rparr>))))))))"

text \<open>The fill bytes before a marker, and the marker loop.\<close>

function skip_fill :: "bytes \<Rightarrow> nat \<Rightarrow> nat \<Rightarrow> u8 \<Rightarrow> MediaError + nat \<times> u8" where
  "skip_fill f jpeg_end p marker_id =
     (if marker_id = 0xff \<and> p < jpeg_end
      then res_bind (read_at f p 1) (\<lambda>b. skip_fill f jpeg_end (p + 1) (hd b))
      else Inr (p, marker_id))"
  by auto
termination
  by (relation "measure (\<lambda>(f, jpeg_end, p, marker_id). jpeg_end - p)") auto

declare skip_fill.simps [simp del]

lemma skip_fill_forward: "skip_fill f jpeg_end p m = Inr (p', m') \<Longrightarrow> p \<le> p'"
proof (induction f jpeg_end p m rule: skip_fill.induct)
  case (1 f jpeg_end p m)
  show ?case
  proof (cases "m = 0xff \<and> p < jpeg_end")
    case True
    then obtain b where "read_at f p 1 = Inr b" "skip_fill f jpeg_end (p + 1) (hd b) = Inr (p', m')"
      using 1(2) by (auto simp: skip_fill.simps [of _ _ p] res_bind_Inr_iff)
    then show ?thesis
      using 1(1) [OF True] by fastforce
  next
    case False
    then show ?thesis
      using 1(2) by (auto simp: skip_fill.simps [of _ _ p])
  qed
qed

definition thumbnail_in_segment :: "nat \<Rightarrow> nat \<Rightarrow> bytes \<Rightarrow> FileSpan option" where
  "thumbnail_in_segment jpeg_end data_offset app1 =
     (case exif_thumbnail_span app1 of
        None \<Rightarrow> None
      | Some span \<Rightarrow>
          (let off = data_offset + sp_offset span
           in if off + sp_len span \<le> jpeg_end then Some \<lparr>sp_offset = off, sp_len = sp_len span\<rparr>
              else None))"

function jpeg_markers :: "bytes \<Rightarrow> nat \<Rightarrow> nat \<Rightarrow> MediaError + FileSpan option" where
  "jpeg_markers f jpeg_end p0 =
     (if p0 + 4 \<le> jpeg_end then
        (case read_at f p0 2 of
           Inl e \<Rightarrow> Inl e
         | Inr marker \<Rightarrow>
             if marker ! 0 \<noteq> 0xff then Inr None
             else
               (case skip_fill f jpeg_end (p0 + 2) (marker ! 1) of
                  Inl e \<Rightarrow> Inl e
                | Inr (p, marker_id) \<Rightarrow>
                    if marker_id = 0xd9 \<or> marker_id = 0xda then Inr None
                    else if marker_id = 0x01 \<or> (0xd0 \<le> marker_id \<and> marker_id \<le> 0xd7)
                      then jpeg_markers f jpeg_end p
                    else if p + 2 > jpeg_end then Inr None
                    else
                      (case read_at f p 2 of
                         Inl e \<Rightarrow> Inl e
                       | Inr len_bytes \<Rightarrow>
                           (let seg = be_dec len_bytes
                            in if seg < 2 then Inr None
                               else if p + seg > jpeg_end then Inr None
                               else if marker_id = 0xe1 then
                                 (case read_at f (p + 2) (seg - 2) of
                                    Inl e \<Rightarrow> Inl e
                                  | Inr app1 \<Rightarrow>
                                      (case thumbnail_in_segment jpeg_end (p + 2) app1 of
                                         Some span \<Rightarrow> Inr (Some span)
                                       | None \<Rightarrow> jpeg_markers f jpeg_end (p + seg)))
                               else jpeg_markers f jpeg_end (p + seg)))))
      else Inr None)"
  by auto
termination
  by (relation "measure (\<lambda>(f, jpeg_end, p). jpeg_end - p)") (auto dest!: skip_fill_forward)

declare jpeg_markers.simps [simp del]

definition jpeg_exif_thumbnail :: "bytes \<Rightarrow> FileSpan \<Rightarrow> MediaError + FileSpan option" where
  "jpeg_exif_thumbnail f jpeg =
     res_bind (read_at f (sp_offset jpeg) 2) (\<lambda>soi.
       if soi \<noteq> [0xff, 0xd8] then Inr None
       else if sp_offset jpeg + sp_len jpeg > u64_max then Inl NoPreview
       else jpeg_markers f (sp_offset jpeg + sp_len jpeg) (sp_offset jpeg + 2))"

definition extract_raf_thumbnail :: "file_system \<Rightarrow> path \<Rightarrow> MediaError + ByteSource" where
  "extract_raf_thumbnail fs p =
     res_bind (ok_or (fs p) ME_Io) (\<lambda>f.
     res_bind (raf_header_preview f) (\<lambda>r.
     res_bind (ok_or r NoPreview) (\<lambda>preview.
     res_bind (jpeg_exif_thumbnail f preview) (\<lambda>t.
     res_bind (ok_or t NoPreview) (\<lambda>thumbnail.
       Inr (FileRange p (sp_offset thumbnail) (sp_len thumbnail)))))))"

definition thumbnail :: "file_system \<Rightarrow> MediaStore \<Rightarrow> u32 \<Rightarrow> MediaError + ByteSource" where
  "thumbnail fs st h =
     res_bind (entry st h) (\<lambda>e.
       if en_format e = RAF then extract_raf_thumbnail fs (en_path e)
       else if en_format e = EXIF_JPEG then Inr (FileRange (en_path e) 0 (en_size e))
       else Inr (Generated 0 0))"

definition object_info :: "MediaStore \<Rightarrow> u32 \<Rightarrow> MediaError + ObjectInfo" where
  "object_info st h =
     res_bind (entry st h) (\<lambda>e.
       Inr \<lparr>oi_storage_id = 0x00010001, oi_object_format = en_format e, oi_protection_status = 0,
            oi_object_compressed_size = word_of_nat (min (en_size e) SIZE_CEILING),
            oi_thumb_format = 0, oi_thumb_compressed_size = 0, oi_thumb_pix_width = 0,
            oi_thumb_pix_height = 0, oi_image_pix_width = 0, oi_image_pix_height = 0,
            oi_image_bit_depth = 0, oi_parent_object = en_parent e,
            oi_association_type = (if en_is_dir e then 1 else 0), oi_association_desc = 0,
            oi_sequence_number = 0, oi_filename = file_name_text (en_path e), oi_capture_date = [],
            oi_modification_date = [], oi_keywords = []\<rparr>)"

section \<open>Thumbnails lie inside the file\<close>

lemma read_at_Inr_iff:
  "read_at f off n = Inr b \<longleftrightarrow> b = take n (drop off f) \<and> (n = 0 \<or> off + n \<le> length f)"
  by (auto simp: read_at_def read_window_def Let_def)

lemma exif_thumbnail_span_bounds:
  assumes "exif_thumbnail_span app1 = Some span"
  shows "sp_offset span + sp_len span \<le> length app1 \<and> 2 \<le> sp_len span
    \<and> take 2 (drop (sp_offset span) app1) = [0xff, 0xd8]"
proof -
  from assms obtain off n thumb where
    span: "span = \<lparr>sp_offset = 6 + off, sp_len = n\<rparr>"
    and get: "slice_get (drop 6 app1) off (off + n) = Some thumb"
    and soi: "take 2 thumb = [0xff, 0xd8]" and prefix: "take 6 app1 = map word_of_nat (lit ''Exif'') @ [0, 0]"
    by (auto simp: exif_thumbnail_span_def Let_def bind_eq_Some_conv split: if_splits)
  from arg_cong [OF prefix, of length] have len6: "6 \<le> length app1"
    by (simp add: lit_def)
  from get have thumb: "thumb = take n (drop (6 + off) app1)" "6 + off + n \<le> length app1"
    using len6 by (auto simp: slice_get_def subslice_def add.commute split: if_splits)
  have "2 \<le> length thumb"
    using arg_cong [OF soi, of length] by simp
  then have "2 \<le> n"
    using thumb by simp
  then show ?thesis
    using thumb soi by (simp add: span min_def)
qed

lemma thumbnail_in_segment_bounds:
  assumes "thumbnail_in_segment jpeg_end d app1 = Some span" "read_at f d n = Inr app1"
  shows "d \<le> sp_offset span \<and> 2 \<le> sp_len span \<and> sp_offset span + sp_len span \<le> jpeg_end
    \<and> sp_offset span + sp_len span \<le> length f \<and> take 2 (drop (sp_offset span) f) = [0xff, 0xd8]"
proof -
  from assms(1) obtain s where s: "exif_thumbnail_span app1 = Some s"
    "span = \<lparr>sp_offset = d + sp_offset s, sp_len = sp_len s\<rparr>" "d + sp_offset s + sp_len s \<le> jpeg_end"
    by (auto simp: thumbnail_in_segment_def Let_def split: option.splits if_splits)
  have app1: "app1 = take n (drop d f)"
    using assms(2) by (simp add: read_at_Inr_iff)
  note b = exif_thumbnail_span_bounds [OF s(1)]
  have "2 \<le> n - sp_offset s"
    using b unfolding app1 by auto
  then have "take 2 (drop (sp_offset s) (take n (drop d f))) = take 2 (drop (d + sp_offset s) f)"
    by (simp add: drop_take min_def add.commute)
  then show ?thesis
    using s b unfolding app1 by auto
qed

definition inside :: "bytes \<Rightarrow> nat \<Rightarrow> nat \<Rightarrow> FileSpan \<Rightarrow> bool" where
  "inside f lo hi span \<longleftrightarrow>
     lo \<le> sp_offset span \<and> 2 \<le> sp_len span \<and> sp_offset span + sp_len span \<le> hi
     \<and> sp_offset span + sp_len span \<le> length f \<and> take 2 (drop (sp_offset span) f) = [0xff, 0xd8]"

lemma inside_mono: "inside f lo hi span \<Longrightarrow> lo' \<le> lo \<Longrightarrow> inside f lo' hi span"
  by (auto simp: inside_def)

lemma thumbnail_in_segment_inside:
  "thumbnail_in_segment jpeg_end d app1 = Some span \<Longrightarrow> read_at f d n = Inr app1 \<Longrightarrow> lo \<le> d \<Longrightarrow>
     inside f lo jpeg_end span"
  using thumbnail_in_segment_bounds [of jpeg_end d app1 span f n] by (simp add: inside_def)

lemma jpeg_markers_bounds:
  "jpeg_markers f jpeg_end p0 = Inr (Some span) \<Longrightarrow> inside f p0 jpeg_end span"
proof (induction "jpeg_end - p0" arbitrary: p0 rule: less_induct)
  case less
  have rec: "inside f p0 jpeg_end span"
    if "jpeg_markers f jpeg_end p = Inr (Some span)" "Suc (Suc p0) \<le> p" "p0 + 4 \<le> jpeg_end" for p
    using less(1) [of p] that inside_mono [of f p jpeg_end span p0] by fastforce
  show ?case
    using less(2)
    by (subst (asm) jpeg_markers.simps)
      (auto simp: Let_def split: if_splits sum.splits prod.splits option.splits
        dest!: skip_fill_forward dest: rec thumbnail_in_segment_inside [where lo = p0])
qed

lemma extract_raf_thumbnail_inside:
  assumes "extract_raf_thumbnail fs p = Inr src"
  obtains f off n where "fs p = Some f" "src = FileRange p off n" "off + n \<le> length f"
    "2 \<le> n" "take 2 (drop off f) = [0xff, 0xd8]"
proof -
  from assms obtain f preview t where f: "fs p = Some f"
    and t: "jpeg_exif_thumbnail f preview = Inr (Some t)"
    and src: "src = FileRange p (sp_offset t) (sp_len t)"
    by (auto simp: extract_raf_thumbnail_def res_bind_Inr_iff)
  from t have "jpeg_markers f (sp_offset preview + sp_len preview) (sp_offset preview + 2) = Inr (Some t)"
    by (auto simp: jpeg_exif_thumbnail_def res_bind_Inr_iff split: if_splits)
  from jpeg_markers_bounds [OF this] have "sp_offset t + sp_len t \<le> length f" "2 \<le> sp_len t"
    "take 2 (drop (sp_offset t) f) = [0xff, 0xd8]"
    by (simp_all add: inside_def)
  then show ?thesis
    using that [OF f src] by blast
qed

section \<open>Scanned stores\<close>

lemma map_of_rev_distinct: "distinct (map fst xs) \<Longrightarrow> map_of (rev xs) = map_of xs"
  by (rule ext) (metis distinct_rev map_of_eq_None_iff map_of_eq_Some_iff not_Some_eq rev_map set_rev)

lemma bt_insert_last: "\<forall>k' \<in> fst ` set m. k' < k \<Longrightarrow> bt_insert k v m = m @ [(k, v)]"
  by (induction m) auto

lemma fold_bt_insert_sorted:
  assumes "sorted_wrt (<) (map g (ys @ xs))"
  shows "fold (\<lambda>e m. bt_insert (g e) e m) xs (map (\<lambda>e. (g e, e)) ys) = map (\<lambda>e. (g e, e)) (ys @ xs)"
  using assms
proof (induction xs arbitrary: ys)
  case (Cons x xs)
  have "bt_insert (g x) x (map (\<lambda>e. (g e, e)) ys) = map (\<lambda>e. (g e, e)) (ys @ [x])"
    using Cons.prems by (subst bt_insert_last) (auto simp: sorted_wrt_append)
  then show ?case
    using Cons.IH [of "ys @ [x]"] Cons.prems by simp
qed simp

lemma assign_handles_nth:
  "i < length ps \<Longrightarrow> assign_handles ps ! i = (fst (ps ! i), word_of_nat (Suc i))"
  by (simp add: assign_handles_def nth_enumerate_eq add.commute)

lemma map_fst_assign [simp]: "map fst (assign_handles ps) = map fst ps"
  by (rule nth_equalityI) (simp_all add: assign_handles_def nth_enumerate_eq)

lemma length_assign [simp]: "length (assign_handles ps) = length ps"
  by (simp add: assign_handles_def)

lemma handle_of_nth:
  assumes "distinct (map fst ps)" "i < length ps"
  shows "map_of (rev (assign_handles ps)) (fst (ps ! i)) = Some (word_of_nat (Suc i))"
proof -
  have "(fst (ps ! i), word_of_nat (Suc i)) \<in> set (assign_handles ps)"
    using assms(2) assign_handles_nth [of i ps] nth_mem [of i "assign_handles ps"] by simp
  then show ?thesis
    using assms(1) by (simp add: map_of_rev_distinct)
qed

lemma word_of_nat_less:
  "i < j \<Longrightarrow> j < 2 ^ 32 \<Longrightarrow> (word_of_nat i :: u32) < word_of_nat j"
  by (simp add: word_less_nat_alt unat_of_nat)

lemma word_of_nat_inject:
  assumes "(word_of_nat i :: u32) = word_of_nat j" "i < 2 ^ 32" "j < 2 ^ 32"
  shows "i = j"
proof -
  have bounds: "i < 2 ^ LENGTH(32)" "j < 2 ^ LENGTH(32)"
    using assms(2,3) by simp_all
  show ?thesis
    using unat_of_nat_fits [OF bounds(1)] unat_of_nat_fits [OF bounds(2)] assms(1) by metis
qed

lemma scan_by_handle:
  assumes "distinct (map fst collected)" "length collected < 2 ^ 32 - 1"
  defines "paths \<equiv> sort_key fst collected"
  shows "by_handle (fst (scan collected)) =
    map (\<lambda>i. (word_of_nat (Suc i), scan_entry (map_of (rev (assign_handles paths))) (paths ! i)))
      [0..<length collected]"
proof -
  let ?H = "map_of (rev (assign_handles paths))"
  let ?es = "map (scan_entry ?H) paths"
  have d: "distinct (map fst paths)" and l: "length paths = length collected"
    using assms by (simp_all add: distinct_map distinct_sort)
  have h: "en_handle (?es ! i) = word_of_nat (Suc i)" if "i < length paths" for i
    using handle_of_nth [OF d that] that by (cases "paths ! i") (simp add: scan_entry_def)
  have "map en_handle ?es = map (\<lambda>i. word_of_nat (Suc i)) [0..<length collected]"
    by (rule nth_equalityI) (use h l in \<open>simp_all del: of_nat_Suc\<close>)
  moreover have "sorted_wrt (<) (map (\<lambda>i. word_of_nat (Suc i) :: u32) [0..<length collected])"
    using assms(2) by (auto simp: sorted_wrt_iff_nth_less simp del: of_nat_Suc intro!: word_of_nat_less)
  ultimately have "sorted_wrt (<) (map en_handle ?es)"
    by simp
  then have "by_handle (fst (scan collected)) = map (\<lambda>e. (en_handle e, e)) ?es"
    using fold_bt_insert_sorted [of en_handle "[]" ?es] by (simp add: scan_def Let_def paths_def)
  also have "\<dots> = map (\<lambda>i. (word_of_nat (Suc i), scan_entry ?H (paths ! i))) [0..<length collected]"
    by (rule nth_equalityI) (use h l in \<open>simp_all del: of_nat_Suc\<close>)
  finally show ?thesis .
qed

lemma sort_key_same_set:
  assumes "set xs = set ys" "distinct (map fst xs)" "distinct (map fst ys)"
  shows "sort_key fst xs = sort_key fst ys"
proof (rule map_sorted_distinct_set_unique [of fst])
  show "inj_on fst (set (sort_key fst xs) \<union> set (sort_key fst ys))"
    using assms by (simp add: distinct_map)
qed (use assms in \<open>simp_all add: distinct_map distinct_sort\<close>)

lemma scan_entry_simps [simp]:
  "en_path (scan_entry H x) = fst x" "en_is_dir (scan_entry H x) = fst (snd x)"
  "en_size (scan_entry H x) = snd (snd x)"
  by (simp_all add: scan_entry_def split: prod.split)

lemma scan_handles:
  assumes "distinct (map fst collected)" "length collected < 2 ^ 32 - 1"
  shows "handles (fst (scan collected)) ObjectQuery_default =
    map (\<lambda>i. word_of_nat (Suc i)) [0..<length collected]"
proof -
  let ?paths = "sort_key fst collected"
  have d: "distinct (map fst ?paths)"
    using assms(1) by (simp add: distinct_map distinct_sort)
  have "en_handle (scan_entry (map_of (rev (assign_handles ?paths))) (?paths ! i)) = word_of_nat (Suc i)"
    if "i < length collected" for i
    using handle_of_nth [OF d, of i] that by (cases "?paths ! i") (simp add: scan_entry_def)
  then show ?thesis
    using scan_by_handle [OF assms]
    by (auto simp: handles_def ObjectQuery_default_def comp_def simp del: of_nat_Suc)
qed

lemma scan_lookup:
  assumes "distinct (map fst collected)" "length collected < 2 ^ 32 - 1" "i < length collected"
  shows "entry (fst (scan collected)) (word_of_nat (Suc i)) =
    Inr (scan_entry (map_of (rev (assign_handles (sort_key fst collected)))) (sort_key fst collected ! i))"
proof -
  let ?kvs = "by_handle (fst (scan collected))"
  have "inj_on (\<lambda>i. word_of_nat (Suc i) :: u32) {0..<length collected}"
    by (rule inj_onI, drule word_of_nat_inject) (use assms(2) in auto)
  then have "distinct (map fst ?kvs)"
    by (simp add: scan_by_handle [OF assms(1,2)] comp_def distinct_map del: of_nat_Suc)
  moreover have "(word_of_nat (Suc i),
      scan_entry (map_of (rev (assign_handles (sort_key fst collected)))) (sort_key fst collected ! i)) \<in> set ?kvs"
    using assms(3) by (auto simp: scan_by_handle [OF assms(1,2)] simp del: of_nat_Suc)
  ultimately show ?thesis
    by (simp add: entry_def del: of_nat_Suc)
qed

lemma butlast_less: "p \<noteq> [] \<Longrightarrow> butlast p < (p :: path)"
  by (induction p) auto

lemma parent_before:
  fixes collected :: "(path \<times> 'a) list"
  assumes "distinct (map fst collected)" "i < length collected"
    and "fst (sort_key fst collected ! i) \<noteq> []"
    and "butlast (fst (sort_key fst collected ! i)) \<in> fst ` set collected"
  obtains j where "j < i" "fst (sort_key fst collected ! j) = butlast (fst (sort_key fst collected ! i))"
proof -
  let ?ps = "sort_key fst collected"
  have "butlast (fst (?ps ! i)) \<in> fst ` set ?ps"
    using assms(4) by simp
  then obtain x where "x \<in> set ?ps" "fst x = butlast (fst (?ps ! i))"
    by (elim imageE) simp
  then obtain j where j: "j < length ?ps" "fst (?ps ! j) = butlast (fst (?ps ! i))"
    unfolding in_set_conv_nth by blast
  have "j < i"
  proof (rule ccontr)
    assume "\<not> j < i"
    then have "fst (?ps ! i) \<le> fst (?ps ! j)"
      using j(1) sorted_nth_mono [of "map fst ?ps" i j] assms(2) by simp
    then show False
      using butlast_less [OF assms(3)] j(2) by simp
  qed
  then show thesis
    using that j(2) by blast
qed

text \<open>What a store looks like after a scan: the entry behind each handle and its parent.\<close>

definition scanned_at :: "(path \<times> bool \<times> nat) list \<Rightarrow> nat \<Rightarrow> Entry \<Rightarrow> bool" where
  "scanned_at collected i e \<longleftrightarrow>
     (en_path e, en_is_dir e, en_size e) = sort_key fst collected ! i
     \<and> (if en_path e \<noteq> [] \<and> butlast (en_path e) \<in> fst ` set collected
        then \<exists>j < i. fst (sort_key fst collected ! j) = butlast (en_path e)
               \<and> en_parent e = word_of_nat (Suc j)
        else en_parent e = 0)"

lemma scan_entry_scanned:
  assumes "distinct (map fst collected)" "i < length collected"
  shows "scanned_at collected i
    (scan_entry (map_of (rev (assign_handles (sort_key fst collected)))) (sort_key fst collected ! i))"
proof -
  let ?ps = "sort_key fst collected"
  let ?H = "map_of (rev (assign_handles ?ps))"
  have d: "distinct (map fst ?ps)"
    using assms(1) by (simp add: distinct_map distinct_sort)
  obtain p b n where x: "?ps ! i = (p, b, n)"
    by (cases "?ps ! i")
  show ?thesis
  proof (cases "p \<noteq> [] \<and> butlast p \<in> fst ` set collected")
    case True
    then obtain j where j: "j < i" "fst (?ps ! j) = butlast p"
      using parent_before [OF assms] x by auto
    then have "?H (butlast p) = Some (word_of_nat (Suc j))"
      using handle_of_nth [OF d, of j] assms(2) by simp
    then show ?thesis
      using True j x by (auto simp: scanned_at_def scan_entry_def simp del: of_nat_Suc)
  next
    case False
    have "?H (butlast p) = None" if "p \<noteq> []"
    proof -
      have "fst ` set (assign_handles ?ps) = fst ` set collected"
        by (simp only: set_map [symmetric] map_fst_assign) simp
      then show ?thesis
        using False that by (simp add: map_of_eq_None_iff)
    qed
    then show ?thesis
      using False x by (auto simp: scanned_at_def scan_entry_def)
  qed
qed

section \<open>Streaming\<close>

lemma concat_windows:
  "concat (map (\<lambda>k. take limit (drop (k * limit) xs)) [0..<m]) = take (m * limit) xs"
proof (induction m)
  case (Suc m)
  then show ?case
    using take_add [of "m * limit" limit xs] by (simp add: add.commute)
qed simp

lemma read_chunk_window:
  assumes "source_read fs src = Inr bs"
  shows "read_chunk fs src co limit = Inr (take limit (drop co bs))"
proof (cases src)
  case (Memory b)
  then show ?thesis
    using assms by (simp add: read_chunk_def Let_def subslice_def min_def)
next
  case (FileRange p off n)
  then obtain f where "fs p = Some f" "bs = take n (drop off f)"
    using assms by (auto simp: read_window_def split: option.splits)
  then show ?thesis
    using FileRange by (simp add: read_chunk_def Let_def read_window_def drop_take min.commute add.commute)
next
  case (Generated n seed)
  then have bs: "bs = map (generated_byte seed) [0..<n]"
    using assms by simp
  show ?thesis
    using Generated by (simp add: read_chunk_def Let_def bs take_map drop_map min_def)
qed

section \<open>Properties\<close>

text \<open>C36: object handles are stable. Whatever order the directory walk delivered the entries
  in, scanning the same distinct paths (fewer than \<open>2 ^ 32 - 1\<close>) yields the same store: the handles
  are 1 to the number of entries, in path order, each handle leads to its entry with the size
  that was collected, and a parent handle belongs to the enclosing directory, is smaller than
  the entry's own, and is 0 at the top.\<close>
theorem scan_assigns_stable_handles:
  assumes "distinct (map fst collected)" "distinct (map fst collected')" "set collected' = set collected"
    and "length collected < 2 ^ 32 - 1"
  shows "scan collected' = scan collected
    \<and> handles (fst (scan collected)) ObjectQuery_default
        = map (\<lambda>i. word_of_nat (Suc i)) [0..<length collected]
    \<and> (\<forall>i < length collected. \<exists>e. entry (fst (scan collected)) (word_of_nat (Suc i)) = Inr e
          \<and> scanned_at collected i e)"
proof (intro conjI allI impI)
  have "sort_key fst collected' = sort_key fst collected"
    using assms by (intro sort_key_same_set) simp_all
  then show "scan collected' = scan collected"
    by (simp add: scan_def)
  show "handles (fst (scan collected)) ObjectQuery_default
        = map (\<lambda>i. word_of_nat (Suc i)) [0..<length collected]"
    by (rule scan_handles [OF assms(1,4)])
  show "\<exists>e. entry (fst (scan collected)) (word_of_nat (Suc i)) = Inr e \<and> scanned_at collected i e"
    if "i < length collected" for i
    using scan_lookup [OF assms(1,4) that] scan_entry_scanned [OF assms(1) that] by blast
qed

definition sample_walk :: "(path \<times> bool \<times> nat) list" where
  "sample_walk = [([map word_of_nat (lit ''DCIM''), map word_of_nat (lit ''A.JPG'')], False, 9),
                  ([map word_of_nat (lit ''DCIM'')], True, 0)]"

theorem scan_assigns_stable_handles_witness:
  "scan (rev sample_walk) = scan sample_walk
   \<and> object_size (fst (scan sample_walk)) 2 = Inr 9
   \<and> map_sum id en_parent (entry (fst (scan sample_walk)) 2) = Inr 1"
proof (intro conjI)
  have "distinct (map fst sample_walk)" "length sample_walk < 2 ^ 32 - 1"
    by code_simp+
  then show "scan (rev sample_walk) = scan sample_walk"
    using scan_assigns_stable_handles [of sample_walk "rev sample_walk", THEN conjunct1]
    by (simp add: rev_map [symmetric])
qed code_simp+

text \<open>C37: an embedded thumbnail never reaches outside its file. When extraction from a raw
  file succeeds, the byte range it returns lies within the file, is read in full, has at least
  two bytes and starts with the JPEG start-of-image marker.\<close>
theorem raf_thumbnail_inside_file:
  assumes "extract_raf_thumbnail fs p = Inr src"
  shows "\<exists>f off n. fs p = Some f \<and> src = FileRange p off n \<and> off + n \<le> length f
    \<and> source_read fs src = Inr (subslice off (off + n) f)
    \<and> take 2 (subslice off (off + n) f) = [0xff, 0xd8]"
proof -
  obtain f off n where r: "fs p = Some f" "src = FileRange p off n" "off + n \<le> length f"
    "2 \<le> n" "take 2 (drop off f) = [0xff, 0xd8]"
    using extract_raf_thumbnail_inside [OF assms] .
  then show ?thesis
    by (intro exI [of _ f] exI [of _ off] exI [of _ n]) (simp add: read_window_def subslice_def min_def)
qed

definition sample_raf :: bytes where
  "sample_raf = map word_of_nat (lit ''FUJIFILM'') @ replicate 76 0 @ [0, 0, 0, 92, 0, 0, 0, 58,
     0xff, 0xd8, 0xff, 0xe1, 0, 54,
     0x45, 0x78, 0x69, 0x66, 0x00, 0x00, 0x49, 0x49, 0x2a, 0x00, 0x08, 0x00, 0x00, 0x00,
     0x00, 0x00, 0x0e, 0x00, 0x00, 0x00, 0x02, 0x00, 0x01, 0x02, 0x04, 0x00, 0x01, 0x00,
     0x00, 0x00, 0x2c, 0x00, 0x00, 0x00, 0x02, 0x02, 0x04, 0x00, 0x01, 0x00, 0x00, 0x00,
     0x02, 0x00, 0x00, 0x00, 0x00, 0x00, 0x00, 0x00, 0xff, 0xd8]"

theorem raf_thumbnail_inside_file_witness:
  "extract_raf_thumbnail (\<lambda>p. Some sample_raf) [] = Inr (FileRange [] 148 2)
   \<and> 150 \<le> length sample_raf"
proof -
  have r: "extract_raf_thumbnail (\<lambda>p. Some sample_raf) [] = Inr (FileRange [] 148 2)"
    by code_simp
  then show ?thesis
    using raf_thumbnail_inside_file [OF r] by auto
qed

text \<open>Streaming an object in chunks of any positive size delivers the same bytes as
  reading it at once: every chunk succeeds with at most that many bytes, and enough chunks
  concatenate to the whole.\<close>
theorem chunked_read_is_whole_read:
  assumes "source_read fs src = Inr bs" "0 < limit" "length bs \<le> m * limit"
  shows "(\<forall>k. \<exists>c. read_chunk fs src (k * limit) limit = Inr c \<and> length c \<le> limit)
    \<and> concat (map (\<lambda>k. projr (read_chunk fs src (k * limit) limit)) [0..<m]) = bs"
  using assms(3) by (simp add: read_chunk_window [OF assms(1)] concat_windows)

theorem chunked_read_is_whole_read_witness:
  "concat (map (\<lambda>k. projr (read_chunk (\<lambda>p. Some [1, 2, 3, 4, 5]) (FileRange [] 1 3) (k * 2) 2)) [0..<2])
     = [2, 3, 4]"
  using chunked_read_is_whole_read [of "\<lambda>p. Some [1, 2, 3, 4, 5]" "FileRange [] 1 3" "[2, 3, 4]" 2 2]
  by (simp add: read_window_def)

end
