(* ===== verification/Engine_State.thy ===== *)
theory Engine_State
  imports Transfer_Queue Lifecycle Media_Store
begin

text \<open>
  The responder engine's state and everything around the dispatch of one operation
  (\<^verbatim>\<open>crates/camera-sim/src/engine.rs\<close>): construction, the lifecycle wrappers, sessions, queries
  over the manifest in the current context, object enumeration, queue configuration, responder
  mutations, the refusal latch and the auxiliary descriptor budget; and the link between the BLE
  and the PTP/IP side (\<^verbatim>\<open>crates/camera-sim/src/link.rs\<close>).

  A call that may panic returns an option: \<^const>\<open>None\<close> is the panic of
  \<^verbatim>\<open>record_lifecycle\<close> when the lifecycle sequence number is exhausted. Error texts are values of
  \<open>EngineError\<close>.
\<close>

section \<open>The link\<close>

record CameraLink =
  lk_prep_written :: bool
  lk_armed :: bool
  lk_device_name :: "ustring option"

definition CameraLink_default :: CameraLink where
  "CameraLink_default = \<lparr>lk_prep_written = False, lk_armed = True, lk_device_name = None\<rparr>"

definition note_prep_write :: "CameraLink \<Rightarrow> CameraLink" where
  "note_prep_write l = l\<lparr>lk_prep_written := True\<rparr>"

definition launch_ap :: "CameraLink \<Rightarrow> CameraLink" where
  "launch_ap l = l\<lparr>lk_armed := lk_prep_written l\<rparr>"

definition is_armed :: "CameraLink \<Rightarrow> bool" where
  "is_armed l = lk_armed l"

definition note_device_name :: "ustring \<Rightarrow> CameraLink \<Rightarrow> CameraLink" where
  "note_device_name name l = l\<lparr>lk_device_name := Some name\<rparr>"

section \<open>Replies and the engine\<close>

abbreviation OK :: u16 where "OK \<equiv> 0x2001"
abbreviation GENERAL_ERROR :: u16 where "GENERAL_ERROR \<equiv> 0x2002"
abbreviation SESSION_NOT_OPEN :: u16 where "SESSION_NOT_OPEN \<equiv> 0x2003"
abbreviation OPERATION_NOT_SUPPORTED :: u16 where "OPERATION_NOT_SUPPORTED \<equiv> 0x2005"
abbreviation INVALID_OBJECT_HANDLE :: u16 where "INVALID_OBJECT_HANDLE \<equiv> 0x2009"
abbreviation DEVICE_PROP_NOT_SUPPORTED :: u16 where "DEVICE_PROP_NOT_SUPPORTED \<equiv> 0x200a"
abbreviation INVALID_PARAMETER :: u16 where "INVALID_PARAMETER \<equiv> 0x201d"
abbreviation SESSION_ALREADY_OPEN :: u16 where "SESSION_ALREADY_OPEN \<equiv> 0x201e"
abbreviation ACCESS_DENIED :: u16 where "ACCESS_DENIED \<equiv> 0x200f"
abbreviation DEVICE_BUSY :: u16 where "DEVICE_BUSY \<equiv> 0x2019"

definition STORAGE_ID :: u32 where "STORAGE_ID = 0x00010001"
definition LIVE_VIEW_ARMING_BLOCKED :: u16 where "LIVE_VIEW_ARMING_BLOCKED = 0xa002"

record StreamCompletion =
  sc_generation :: u64
  sc_handle :: u32
  sc_offset :: nat
  sc_len :: nat
  sc_object_size :: nat

datatype Reply =
    Response OperationResponse
  | Data bytes OperationResponse
  | DataStream ByteSource OperationResponse "StreamCompletion option"
  | NoResponse
  | CloseReply

datatype CameraQueueTarget = CT_None | CT_Head u32 | CT_Invalid

record TransferQueueStats =
  ts_standard :: "QueueStats option"
  ts_camera_initiated :: "QueueStats option"

record Engine =
  eng_manifest :: CameraManifest
  eng_gate_sequences :: "GateSequence list"
  eng_store :: MediaStore
  eng_state :: CameraState
  eng_lifecycle :: ConnectionLifecycleTracker
  eng_connection :: ustring
  eng_transfer_queue :: "TransferQueue option"
  eng_live_view_stream_connection :: "ustring option"
  eng_camera_initiated_queue :: "CameraInitiatedQueue option"
  eng_transfer_active :: bool   \<comment> \<open>\<^verbatim>\<open>camera_initiated_transfer_active\<close>\<close>
  eng_probe_armed :: bool   \<comment> \<open>\<^verbatim>\<open>camera_initiated_pre_mode_probe_armed\<close>\<close>
  eng_faults :: FaultSet
  eng_applied_fault :: "AppliedFault option"
  eng_link :: CameraLink
  eng_ap_one_shot_latch :: bool
  eng_ap_held_term :: bool
  eng_aux_budget :: "nat option"
  eng_aux_used :: nat
  eng_aux_managed :: nat

definition response :: "u32 \<Rightarrow> u16 \<Rightarrow> u32 list \<Rightarrow> OperationResponse" where
  "response tid code ps = \<lparr>oresp_code = code, oresp_transaction_id = tid, oresp_params = ps\<rparr>"

definition ok_reply :: "u32 \<Rightarrow> Reply" where
  "ok_reply tid = Response (response tid OK [])"

definition err_reply :: "u32 \<Rightarrow> u16 \<Rightarrow> Reply" where
  "err_reply tid code = Response (response tid code [])"

definition data_reply :: "u32 \<Rightarrow> bytes \<Rightarrow> Reply" where
  "data_reply tid bs = Data bs (response tid OK [])"

definition data_stream :: "u32 \<Rightarrow> ByteSource \<Rightarrow> Reply" where
  "data_stream tid src = DataStream src (response tid OK []) None"

fun reply_is_ok :: "Reply \<Rightarrow> bool" where
  "reply_is_ok (Response r) = (oresp_code r = OK)"
| "reply_is_ok (Data bs r) = (oresp_code r = OK)"
| "reply_is_ok (DataStream src r c) = (oresp_code r = OK)"
| "reply_is_ok NoResponse = False"
| "reply_is_ok CloseReply = False"

text \<open>\<^verbatim>\<open>modify_state\<close> updates the camera state in place.\<close>

definition modify_state :: "(CameraState \<Rightarrow> CameraState) \<Rightarrow> Engine \<Rightarrow> Engine" where
  "modify_state f e = e\<lparr>eng_state := f (eng_state e)\<rparr>"

section \<open>Media\<close>

definition media_format :: "CameraManifest \<Rightarrow> u16 \<Rightarrow> MediaFormat option" where
  "media_format m code =
     (case cm_media m of None \<Rightarrow> None | Some formats \<Rightarrow> find_code formats code)"

definition object_format_is_movie :: "CameraManifest \<Rightarrow> u16 \<Rightarrow> bool" where
  "object_format_is_movie m code =
     (case media_format m code of None \<Rightarrow> False | Some f \<Rightarrow> mf_is_movie f)"

definition format_of_object :: "MediaStore \<Rightarrow> u32 \<Rightarrow> u16 option" where
  "format_of_object st h =
     (case object_info st h of Inl _ \<Rightarrow> None | Inr oi \<Rightarrow> Some (oi_object_format oi))"

definition camera_initiated_media_handles :: "CameraManifest \<Rightarrow> MediaStore \<Rightarrow> u32 list" where
  "camera_initiated_media_handles m st =
     filter (\<lambda>h. case format_of_object st h of
               None \<Rightarrow> False
             | Some f \<Rightarrow> f \<noteq> ASSOCIATION \<and>
                 (case media_format m f of
                    None \<Rightarrow> False
                  | Some mf \<Rightarrow> mf_is_photos_compatible mf \<and> \<not> mf_is_movie mf))
       (handles st ObjectQuery_default)"

definition store_file_handles :: "MediaStore \<Rightarrow> u32 list" where
  "store_file_handles st =
     filter (\<lambda>h. case format_of_object st h of None \<Rightarrow> False | Some f \<Rightarrow> f \<noteq> ASSOCIATION)
       (handles st ObjectQuery_default)"

definition standard_object_queue_handles :: "CameraManifest \<Rightarrow> MediaStore \<Rightarrow> u32 list" where
  "standard_object_queue_handles m st =
     filter (\<lambda>h. case format_of_object st h of None \<Rightarrow> False | Some f \<Rightarrow> \<not> object_format_is_movie m f)
       (store_file_handles st)"

definition sync_camera_initiated_counts :: "Engine \<Rightarrow> Engine" where
  "sync_camera_initiated_counts e =
     (case cm_camera_initiated_transfer (eng_manifest e) of
        None \<Rightarrow> e
      | Some t \<Rightarrow>
          (case (parse_hex_code (ct_count_member t), eng_camera_initiated_queue e) of
             (Some code, Some q) \<Rightarrow>
               modify_state (set_value code
                 (typed (property_datatype (eng_manifest e) code)
                    (int (min (queue_remaining q) u32_max)))) e
           | _ \<Rightarrow> e))"

definition DEFAULT_CONNECTION :: ustring where
  "DEFAULT_CONNECTION = lit ''app''"

definition Engine_new :: "CameraManifest \<Rightarrow> MediaStore \<Rightarrow> Engine" where
  "Engine_new m st =
     sync_camera_initiated_counts
       \<lparr>eng_manifest = m,
        eng_gate_sequences = compile_gate_sequences m @ compile_channel_sequences m,
        eng_store = st, eng_state = state_from_manifest m, eng_lifecycle = Tracker_default,
        eng_connection = DEFAULT_CONNECTION, eng_transfer_queue = None,
        eng_live_view_stream_connection = None,
        eng_camera_initiated_queue =
          (if cm_camera_initiated_transfer m = None then None
           else Some (CameraInitiatedQueue_new (camera_initiated_media_handles m st))),
        eng_transfer_active = False, eng_probe_armed = False, eng_faults = FaultSet_default,
        eng_applied_fault = None, eng_link = CameraLink_default, eng_ap_one_shot_latch = False,
        eng_ap_held_term = False, eng_aux_budget = None, eng_aux_used = 0, eng_aux_managed = 0\<rparr>"

section \<open>Lifecycle and session\<close>

definition bind_connection :: "ustring \<Rightarrow> Engine \<Rightarrow> Engine" where
  "bind_connection connection e = e\<lparr>eng_connection := connection\<rparr>"

definition record_lifecycle :: "ConnectionLifecycleTransition \<Rightarrow> Engine \<Rightarrow> Engine option" where
  "record_lifecycle t e =
     (case tracker_apply t (eng_lifecycle e) of
        (Inl _, _) \<Rightarrow> None
      | (Inr _, k) \<Rightarrow> Some (e\<lparr>eng_lifecycle := k\<rparr>))"

definition record_feature_mode :: "FeatureMode option \<Rightarrow> Engine \<Rightarrow> Engine option" where
  "record_feature_mode fm e =
     record_lifecycle (case fm of Some mode \<Rightarrow> FeatureEntered mode | None \<Rightarrow> FeatureExited) e"

definition clear_session :: "Engine \<Rightarrow> Engine" where
  "clear_session e =
     (modify_state (\<lambda>s. (reset_gates s)\<lparr>cs_active_mode := None, cs_session_open := False,
                         cs_phase := Closed\<rparr>) e)\<lparr>eng_probe_armed := False\<rparr>"

definition transport_lost :: "Engine \<Rightarrow> Engine option" where
  "transport_lost e = map_option clear_session (record_lifecycle ProxyTransportLost e)"

definition channel_ready :: "SocketRole \<Rightarrow> Engine \<Rightarrow> bool" where
  "channel_ready role e =
     (let gate = channel_gate_name (eng_connection e) role
      in \<not> list_ex (\<lambda>q. gs_name q = gate) (eng_gate_sequences e) \<or> gate_satisfied gate (eng_state e))"

definition accepts_init :: "Engine \<Rightarrow> bool" where
  "accepts_init e = is_armed (eng_link e)"

section \<open>Faults, refusals and descriptors\<close>

definition install_fault :: "FaultSpec \<Rightarrow> Engine \<Rightarrow> (FaultError + nat) \<times> Engine" where
  "install_fault spec e =
     (case try_insert spec (eng_faults e) of (r, f) \<Rightarrow> (r, e\<lparr>eng_faults := f\<rparr>))"

definition remove_fault :: "nat \<Rightarrow> Engine \<Rightarrow> bool \<times> Engine" where
  "remove_fault n e = (case fault_remove n (eng_faults e) of (r, f) \<Rightarrow> (r, e\<lparr>eng_faults := f\<rparr>))"

definition clear_faults :: "Engine \<Rightarrow> Engine" where
  "clear_faults e = e\<lparr>eng_faults := fault_clear (eng_faults e), eng_applied_fault := None\<rparr>"

definition take_applied_fault :: "Engine \<Rightarrow> AppliedFault option \<times> Engine" where
  "take_applied_fault e = (eng_applied_fault e, e\<lparr>eng_applied_fault := None\<rparr>)"

definition ap_should_refuse :: "Engine \<Rightarrow> (u16 \<times> u16) option \<times> Engine" where
  "ap_should_refuse e =
     (if eng_ap_held_term e then (Some (0x0080, 2), e)
      else if eng_ap_one_shot_latch e then (Some (0x0080, 2), e\<lparr>eng_ap_one_shot_latch := False\<rparr>)
      else (None, e))"

definition ap_refusal_active :: "Engine \<Rightarrow> bool" where
  "ap_refusal_active e \<longleftrightarrow> eng_ap_held_term e \<or> eng_ap_one_shot_latch e"

datatype EngineError =
    AuxNotConfigured | EMFILE | NoManagedConnection
  | NotInManifest u16 | NoEnumDescriptor u16 | EnumValueMismatch u16 | EnumEmpty u16
  | NoCurrentValue u16 | CurrentTypeMismatch u16 | CurrentNotInEnum u16
  | QueueNotConfigured | QueueOtherConnection ustring ustring | NotShutterDriven ustring
  | NoLiveViewStream ustring | ConnectionNotPresent ustring | NoStandardEnumeration ustring
  | NoShutterAction ustring | NoObjectsAvailable ustring | NoInitiatorBinding ustring
  | EnqueueExceedsMax nat nat | ShutterNotMatchable ustring
  | ParameterNotNumeric ustring | ParameterExceeds ustring | InvalidTarget ustring
  | UnknownTarget u16 | TargetNotScalar u16 | ValueDoesNotFit u16

definition aux_available :: "Engine \<Rightarrow> nat option" where
  "aux_available e = map_option (\<lambda>b. b - eng_aux_used e) (eng_aux_budget e)"

definition aux_orphan_leak :: "Engine \<Rightarrow> (EngineError + unit) \<times> Engine" where
  "aux_orphan_leak e =
     (case eng_aux_budget e of
        None \<Rightarrow> (Inl AuxNotConfigured, e)
      | Some budget \<Rightarrow>
          if budget \<le> eng_aux_used e then (Inl EMFILE, e)
          else (Inr (), e\<lparr>eng_aux_used := eng_aux_used e + 1\<rparr>))"

definition aux_managed_open :: "Engine \<Rightarrow> (EngineError + nat) \<times> Engine" where
  "aux_managed_open e =
     (case eng_aux_budget e of
        None \<Rightarrow> (Inl AuxNotConfigured, e)
      | Some budget \<Rightarrow>
          if budget \<le> eng_aux_used e then (Inl EMFILE, e)
          else (Inr (eng_aux_used e + 1),
                e\<lparr>eng_aux_used := eng_aux_used e + 1, eng_aux_managed := eng_aux_managed e + 1\<rparr>))"

definition aux_managed_close :: "Engine \<Rightarrow> (EngineError + unit) \<times> Engine" where
  "aux_managed_close e =
     (if eng_aux_managed e = 0 then (Inl NoManagedConnection, e)
      else (Inr (), e\<lparr>eng_aux_managed := eng_aux_managed e - 1, eng_aux_used := eng_aux_used e - 1\<rparr>))"

definition aux_reset_state :: "Engine \<Rightarrow> Engine" where
  "aux_reset_state e = e\<lparr>eng_aux_used := 0, eng_aux_managed := 0\<rparr>"

section \<open>Context queries\<close>

definition observed_view :: "Engine \<Rightarrow> PropView" where
  "observed_view e code =
     (case cs_props (eng_state e) code of None \<Rightarrow> None | Some v \<Rightarrow> value_to_i64 v)"

definition disposition_mode :: "Engine \<Rightarrow> ustring option" where
  "disposition_mode e = cs_active_mode (eng_state e)"

definition property_is_valueless :: "Engine \<Rightarrow> u16 \<Rightarrow> bool" where
  "property_is_valueless e code =
     (case property (eng_manifest e) code of
        None \<Rightarrow> False
      | Some p \<Rightarrow> pr_dispositions p \<noteq> [] \<and>
          is_valueless p (eng_connection e) (disposition_mode e) (observed_view e))"

definition property_is_write_silent :: "Engine \<Rightarrow> u16 \<Rightarrow> bool" where
  "property_is_write_silent e code =
     (case property (eng_manifest e) code of
        None \<Rightarrow> False
      | Some p \<Rightarrow> pr_dispositions p \<noteq> [] \<and>
          is_write_silent_refusal p (eng_connection e) (disposition_mode e) (observed_view e))"

definition operation_is_silent :: "Engine \<Rightarrow> u16 \<Rightarrow> bool" where
  "operation_is_silent e code =
     (case operation (eng_manifest e) code of
        None \<Rightarrow> False
      | Some opn \<Rightarrow> op_dispositions opn \<noteq> [] \<and>
          is_silent_refusal opn (eng_connection e) (disposition_mode e) (observed_view e))"

definition availability_response :: "Availability \<Rightarrow> u16 option" where
  "availability_response a =
     (case a of Available \<Rightarrow> None | Blocked \<Rightarrow> Some GENERAL_ERROR | _ \<Rightarrow> Some OPERATION_NOT_SUPPORTED)"

definition operation_availability_error :: "Engine \<Rightarrow> u16 \<Rightarrow> u16 option" where
  "operation_availability_error e code =
     (case operation (eng_manifest e) code of
        None \<Rightarrow> None
      | Some _ \<Rightarrow>
          availability_response
            (case cs_active_mode (eng_state e) of
               Some mode \<Rightarrow>
                 if code \<in> {GET_DEVICE_PROP_DESC, GET_DEVICE_PROP_VALUE, SET_DEVICE_PROP_VALUE}
                 then operation_available_predetect (eng_manifest e) (eng_connection e) code (observed_view e)
                 else operation_available (eng_manifest e) (eng_connection e) mode code (observed_view e)
             | None \<Rightarrow>
                 operation_available_predetect (eng_manifest e) (eng_connection e) code (observed_view e)))"

definition connection_models_live_view_stream :: "Engine \<Rightarrow> ustring \<Rightarrow> bool" where
  "connection_models_live_view_stream e connection =
     (case action (eng_manifest e) connection StartLiveView of
        None \<Rightarrow> False | Some a \<Rightarrow> action_sends_op a INITIATE_OPEN_CAPTURE)"

definition matches_live_view_arming_write :: "Engine \<Rightarrow> u16 \<Rightarrow> int \<Rightarrow> bool" where
  "matches_live_view_arming_write e code v =
     (case action (eng_manifest e) (eng_connection e) StartLiveView of
        None \<Rightarrow> False
      | Some a \<Rightarrow>
          (case ac_initiator a of
             None \<Rightarrow> False
           | Some i \<Rightarrow>
               list_ex (\<lambda>s. (case st_set_prop s of None \<Rightarrow> None | Some h \<Rightarrow> parse_hex_code h) = Some code \<and>
                            (case st_value s of None \<Rightarrow> None | Some sv \<Rightarrow> set_prop_literal sv) = Some v)
                 (ai_steps i)))"

definition pending_queue_blocks_live_view_arming :: "Engine \<Rightarrow> bool" where
  "pending_queue_blocks_live_view_arming e =
     (case eng_transfer_queue e of
        None \<Rightarrow> False
      | Some q \<Rightarrow> tq_connection q = eng_connection e \<and> tq_available q \<noteq> {})"

definition stale_stream_blocks_live_view_arming :: "Engine \<Rightarrow> bool" where
  "stale_stream_blocks_live_view_arming e \<longleftrightarrow>
     eng_live_view_stream_connection e = Some (eng_connection e)"

definition object_handle_available :: "Engine \<Rightarrow> u32 \<Rightarrow> bool" where
  "object_handle_available e h =
     (case eng_transfer_queue e of None \<Rightarrow> True | Some q \<Rightarrow> queue_contains q h)"

definition enumerated_object_handles :: "Engine \<Rightarrow> u32 list" where
  "enumerated_object_handles e =
     (case eng_transfer_queue e of None \<Rightarrow> store_file_handles (eng_store e) | Some q \<Rightarrow> queue_handles q)"

section \<open>Property values\<close>

definition in_bounds :: "int \<Rightarrow> int \<Rightarrow> int \<Rightarrow> bool" where
  "in_bounds lo hi v \<longleftrightarrow> lo \<le> v \<and> v \<le> hi"

definition scalar_fits_property :: "ustring option \<Rightarrow> int \<Rightarrow> bool" where
  "scalar_fits_property ty v =
     (if ty = Some (lit ''u8'') then in_bounds 0 (2 ^ 8 - 1) v
      else if ty = Some (lit ''u16'') then in_bounds 0 (2 ^ 16 - 1) v
      else if ty = Some (lit ''u32'') then in_bounds 0 (2 ^ 32 - 1) v
      else if ty = Some (lit ''u64'') then 0 \<le> v
      else if ty = Some (lit ''i8'') then in_bounds (- (2 ^ 7)) (2 ^ 7 - 1) v
      else if ty = Some (lit ''i16'') then in_bounds (- (2 ^ 15)) (2 ^ 15 - 1) v
      else if ty = Some (lit ''i32'') then in_bounds (- (2 ^ 31)) (2 ^ 31 - 1) v
      else ty = Some (lit ''i64''))"

definition property_transition_value :: "ustring option \<Rightarrow> int \<Rightarrow> PropValue option" where
  "property_transition_value ty v =
     (if ty = Some (lit ''u8'') then
        if in_bounds 0 (2 ^ 8 - 1) v then Some (PV_U8 (word_of_int v)) else None
      else if ty = Some (lit ''u16'') then
        if in_bounds 0 (2 ^ 16 - 1) v then Some (PV_U16 (word_of_int v)) else None
      else if ty = Some (lit ''u32'') then
        if in_bounds 0 (2 ^ 32 - 1) v then Some (PV_U32 (word_of_int v)) else None
      else if ty = Some (lit ''u64'') then
        if 0 \<le> v then Some (PV_U64 (word_of_int v)) else None
      else if ty = Some (lit ''i8'') then
        if in_bounds (- (2 ^ 7)) (2 ^ 7 - 1) v then Some (PV_I8 (word_of_int v)) else None
      else if ty = Some (lit ''i16'') then
        if in_bounds (- (2 ^ 15)) (2 ^ 15 - 1) v then Some (PV_I16 (word_of_int v)) else None
      else if ty = Some (lit ''i32'') then
        if in_bounds (- (2 ^ 31)) (2 ^ 31 - 1) v then Some (PV_I32 (word_of_int v)) else None
      else if ty = Some (lit ''i64'') then Some (PV_I64 (word_of_int v))
      else None)"

fun record_value_zero :: "RecordValueEncoding \<Rightarrow> PropValue" where
  "record_value_zero (RVE_Fixed w) = PV_U32 0"
| "record_value_zero (RVE_Signed w) = (if w = 1 then PV_I8 0 else if w = 2 then PV_I16 0 else PV_I32 0)"
| "record_value_zero RVE_PtpString = PV_Str []"

definition position_of :: "('a \<Rightarrow> bool) \<Rightarrow> 'a list \<Rightarrow> nat option" where
  "position_of P xs =
     (let n = length (takeWhile (\<lambda>x. \<not> P x) xs) in if n < length xs then Some n else None)"

definition advance_property_to_next_enum :: "u16 \<Rightarrow> Engine \<Rightarrow> (EngineError + PropValue) \<times> Engine" where
  "advance_property_to_next_enum code e =
     (case property (eng_manifest e) code of
        None \<Rightarrow> (Inl (NotInManifest code), e)
      | Some p \<Rightarrow>
          (case pr_descriptor p of
             None \<Rightarrow> (Inl (NoEnumDescriptor code), e)
           | Some d \<Rightarrow>
               if d_form d \<noteq> lit ''enum'' then (Inl (NoEnumDescriptor code), e)
               else
                 (let dt = datatype_of (pr_ptype p)
                  in case collect_options (map (typed_descriptor_value dt) (d_values d)) of
                       None \<Rightarrow> (Inl (EnumValueMismatch code), e)
                     | Some [] \<Rightarrow> (Inl (EnumEmpty code), e)
                     | Some vs \<Rightarrow>
                         (case cs_props (eng_state e) code of
                            None \<Rightarrow> (Inl (NoCurrentValue code), e)
                          | Some current \<Rightarrow>
                              if PropValue_datatype_code current \<noteq> dt
                              then (Inl (CurrentTypeMismatch code), e)
                              else
                                (case position_of (\<lambda>v. v = current) vs of
                                   None \<Rightarrow> (Inl (CurrentNotInEnum code), e)
                                 | Some i \<Rightarrow>
                                     (let nxt = vs ! ((i + 1) mod length vs)
                                      in (Inr nxt, modify_state (arm_effect code nxt 0) e)))))))"

section \<open>Queue configuration\<close>

definition transfer_queue_stats :: "Engine \<Rightarrow> TransferQueueStats" where
  "transfer_queue_stats e =
     \<lparr>ts_standard = map_option standard_stats (eng_transfer_queue e),
      ts_camera_initiated = map_option camera_initiated_stats (eng_camera_initiated_queue e)\<rparr>"

definition enqueue_standard_objects :: "nat \<Rightarrow> Engine \<Rightarrow> (EngineError + nat) \<times> Engine" where
  "enqueue_standard_objects count e =
     (case eng_transfer_queue e of
        None \<Rightarrow> (Inl QueueNotConfigured, e)
      | Some q \<Rightarrow>
          (case enqueue_count count q of (n, q') \<Rightarrow> (Inr n, e\<lparr>eng_transfer_queue := Some q'\<rparr>)))"

definition pending_standard_object_enqueue :: "nat \<Rightarrow> Engine \<Rightarrow> EngineError + nat" where
  "pending_standard_object_enqueue count e =
     (case eng_transfer_queue e of
        None \<Rightarrow> Inl QueueNotConfigured | Some q \<Rightarrow> Inr (pending_enqueue count q))"

definition preseed_standard_object_queue :: "ustring \<Rightarrow> nat \<Rightarrow> Engine \<Rightarrow> (EngineError + nat) \<times> Engine" where
  "preseed_standard_object_queue connection count e =
     (case eng_transfer_queue e of
        None \<Rightarrow> (Inl QueueNotConfigured, e)
      | Some q \<Rightarrow>
          if tq_connection q \<noteq> connection
          then (Inl (QueueOtherConnection (tq_connection q) connection), e)
          else (case enqueue_count count q of (n, q') \<Rightarrow> (Inr n, e\<lparr>eng_transfer_queue := Some q'\<rparr>)))"

definition preseed_shutter_busy_responses ::
  "ustring \<Rightarrow> nat \<Rightarrow> Engine \<Rightarrow> (EngineError + unit) \<times> Engine" where
  "preseed_shutter_busy_responses connection attempts e =
     (case eng_transfer_queue e of
        None \<Rightarrow> (Inl QueueNotConfigured, e)
      | Some q \<Rightarrow>
          if tq_connection q \<noteq> connection
          then (Inl (QueueOtherConnection (tq_connection q) connection), e)
          else if tq_shutter_sequence q = None then (Inl (NotShutterDriven connection), e)
          else (Inr (), e\<lparr>eng_transfer_queue := Some (q\<lparr>tq_shutter_busy := attempts\<rparr>)\<rparr>))"

definition preseed_stale_live_view_stream :: "ustring \<Rightarrow> Engine \<Rightarrow> (EngineError + unit) \<times> Engine" where
  "preseed_stale_live_view_stream connection e =
     (if \<not> connection_models_live_view_stream e connection then (Inl (NoLiveViewStream connection), e)
      else (Inr (), e\<lparr>eng_live_view_stream_connection := Some connection\<rparr>))"

definition max_objects_available :: "Action \<Rightarrow> nat option" where
  "max_objects_available a =
     (case List.map_filter ae_objects_available (ac_triggers a) of
        [] \<Rightarrow> None
      | o1 # os \<Rightarrow> Some (fold max (map oa_max os) (oa_max o1)))"

definition shutter_queue :: "Engine \<Rightarrow> ustring \<Rightarrow> Connection \<Rightarrow> nat \<Rightarrow> EngineError + TransferQueue" where
  "shutter_queue e connection c shutter_enqueue_count =
     res_bind (ok_or (map_of (cn_actions c) Shutter) (NoShutterAction connection)) (\<lambda>shutter.
     res_bind (ok_or (max_objects_available shutter) (NoObjectsAvailable connection)) (\<lambda>limit.
     res_bind (ok_or (ac_initiator shutter) (NoInitiatorBinding connection)) (\<lambda>initiator.
       if limit < shutter_enqueue_count then Inl (EnqueueExceedsMax shutter_enqueue_count limit)
       else
         res_bind (ok_or (matcher_sequence_for_steps (ai_steps initiator)) (ShutterNotMatchable connection))
           (\<lambda>sq. Inr (shutter_seeded connection
                       (standard_object_queue_handles (eng_manifest e) (eng_store e))
                       shutter_enqueue_count sq)))))"

definition configure_standard_object_queue ::
  "ustring \<Rightarrow> nat \<Rightarrow> Engine \<Rightarrow> (EngineError + unit) \<times> Engine" where
  "configure_standard_object_queue connection shutter_enqueue_count e =
     (case map_of (cm_connections (eng_manifest e)) connection of
        None \<Rightarrow> (Inl (ConnectionNotPresent connection), e)
      | Some c \<Rightarrow>
          if \<not> (case map_of (cn_actions c) EnumerateObjects of
                  None \<Rightarrow> False | Some a \<Rightarrow> action_sends_op a GET_OBJECT_HANDLES)
          then if shutter_enqueue_count = 0 then (Inr (), e)
               else (Inl (NoStandardEnumeration connection), e)
          else if shutter_enqueue_count = 0
          then (Inr (), e\<lparr>eng_transfer_queue := Some (startup_seeded connection
                           (standard_object_queue_handles (eng_manifest e) (eng_store e)))\<rparr>)
          else (case shutter_queue e connection c shutter_enqueue_count of
                  Inl x \<Rightarrow> (Inl x, e)
                | Inr q \<Rightarrow> (Inr (), e\<lparr>eng_transfer_queue := Some q\<rparr>)))"

text \<open>The completion of a streamed range: a token of another generation or head is ignored.\<close>

definition complete_stream :: "StreamCompletion \<Rightarrow> Engine \<Rightarrow> bool \<times> Engine" where
  "complete_stream c e =
     (case eng_camera_initiated_queue e of
        None \<Rightarrow> (False, e)
      | Some q \<Rightarrow>
          if cq_generation q \<noteq> sc_generation c \<or> queue_head q \<noteq> Some (sc_handle c) then (False, e)
          else
            (case acknowledge (sc_offset c) (sc_len c) (sc_object_size c) q of
               (advanced, q') \<Rightarrow>
                 (let e' = e\<lparr>eng_camera_initiated_queue := Some q'\<rparr>
                  in (advanced, if advanced then sync_camera_initiated_counts e' else e'))))"

section \<open>Responder mutations\<close>

datatype ActionArgumentValue = AV_U64 u64 | AV_String ustring

record PreparedPropertyTransition =
  pp_target :: u16
  pp_initial :: "int option"
  pp_terminal :: int
  pp_settle_after_polls :: nat

datatype PreparedResponderMutation =
    PR_EnqueueObjects nat nat
  | PR_PropertyTransition PreparedPropertyTransition

definition numeric_parameter ::
  "(ustring \<times> ActionArgumentValue) list \<Rightarrow> ustring \<Rightarrow> EngineError + nat" where
  "numeric_parameter parameters name =
     (case map_of parameters name of
        Some (AV_U64 v) \<Rightarrow> Inr (unat v) | _ \<Rightarrow> Inl (ParameterNotNumeric name))"

fun resolve_terminal ::
  "(ustring \<times> ActionArgumentValue) list \<Rightarrow> PropertyTransitionTerminal \<Rightarrow> EngineError + int" where
  "resolve_terminal parameters (TT_Fixed v) = Inr v"
| "resolve_terminal parameters (TT_Parameter name) =
     res_bind (numeric_parameter parameters name) (\<lambda>v.
       if v < 2 ^ 63 then Inr (int v) else Inl (ParameterExceeds name))"

fun prepare_responder_mutation ::
  "Engine \<Rightarrow> ResponderMutation \<Rightarrow> (ustring \<times> ActionArgumentValue) list \<Rightarrow>
   EngineError + PreparedResponderMutation" where
  "prepare_responder_mutation e (RMU_EnqueueObjects count_param) parameters =
     res_bind (numeric_parameter parameters count_param) (\<lambda>count.
       if u32_max < count then Inl (ParameterExceeds count_param)
       else res_bind (pending_standard_object_enqueue count e) (\<lambda>affected.
              Inr (PR_EnqueueObjects count affected)))"
| "prepare_responder_mutation e (RMU_PropertyTransition target initial terminal settle) parameters =
     res_bind (ok_or (parse_hex_code target) (InvalidTarget target)) (\<lambda>code.
     res_bind (ok_or (property (eng_manifest e) code) (UnknownTarget code)) (\<lambda>p.
       if pr_payload p \<noteq> None then Inl (TargetNotScalar code)
       else res_bind (resolve_terminal parameters terminal) (\<lambda>v.
         if (case initial of None \<Rightarrow> False | Some i \<Rightarrow> \<not> scalar_fits_property (pr_ptype p) i) \<or>
            \<not> scalar_fits_property (pr_ptype p) v
         then Inl (ValueDoesNotFit code)
         else Inr (PR_PropertyTransition
                \<lparr>pp_target = code, pp_initial = initial, pp_terminal = v,
                 pp_settle_after_polls = settle\<rparr>))))"

definition eq_ignore_ascii_case :: "ustring \<Rightarrow> ustring \<Rightarrow> bool" where
  "eq_ignore_ascii_case a b \<longleftrightarrow> map ascii_lower a = map ascii_lower b"

definition announces_objects :: "CameraManifest \<Rightarrow> bool" where
  "announces_objects m \<longleftrightarrow> list_ex (\<lambda>k. eq_ignore_ascii_case k (lit ''0x4002'')) (cm_events m)"

text \<open>The events for the last \<open>added\<close> handles a queue made available.\<close>

definition push_object_events :: "nat \<Rightarrow> TransferQueue \<Rightarrow> CameraState \<Rightarrow> CameraState" where
  "push_object_events added q s =
     fold (\<lambda>h. push_event_with_params 0x4002 [h])
       (subslice (tq_next_index q - added) (tq_next_index q) (tq_handles q)) s"

text \<open>\<^const>\<open>None\<close> is the panic of the two \<^verbatim>\<open>expect\<close> calls on values that were not prepared.\<close>

fun apply_responder_mutation ::
  "PreparedResponderMutation \<Rightarrow> Engine \<Rightarrow> ((EngineError + unit) \<times> Engine) option" where
  "apply_responder_mutation (PR_EnqueueObjects count affected) e =
     Some (case enqueue_standard_objects count e of
        (Inl x, e') \<Rightarrow> (Inl x, e')
      | (Inr applied, e') \<Rightarrow>
          (Inr (),
           if 0 < applied \<and> announces_objects (eng_manifest e') then
             (case eng_transfer_queue e' of
                None \<Rightarrow> e' | Some q \<Rightarrow> modify_state (push_object_events applied q) e')
           else e'))"
| "apply_responder_mutation (PR_PropertyTransition t) e =
     (let ty = (case property (eng_manifest e) (pp_target t) of None \<Rightarrow> None | Some p \<Rightarrow> pr_ptype p);
          initial = (case pp_initial t of
                       None \<Rightarrow> Some e
                     | Some i \<Rightarrow> map_option (\<lambda>v. modify_state (set_value (pp_target t) v) e)
                                   (property_transition_value ty i))
      in case (initial, property_transition_value ty (pp_terminal t)) of
           (Some e1, Some v) \<Rightarrow>
             Some (Inr (), modify_state (arm_effect (pp_target t) v (pp_settle_after_polls t)) e1)
         | _ \<Rightarrow> None)"

end
