(* ===== verification/Engine.thy ===== *)
theory Engine
  imports Engine_State
begin

text \<open>
  The dispatch of one operation by the responder engine
  (\<^verbatim>\<open>crates/camera-sim/src/engine.rs\<close>, \<^verbatim>\<open>on_operation\<close> and the functions it calls). The file
  system that thumbnails are extracted from is a parameter. A dispatch returns the reply and the
  new engine; \<^const>\<open>None\<close> is the panic on an exhausted lifecycle sequence.
\<close>

section \<open>Camera-initiated transfers\<close>

definition camera_queue_head :: "Engine \<Rightarrow> CameraQueueTarget" where
  "camera_queue_head e =
     (case eng_camera_initiated_queue e of
        None \<Rightarrow> CT_Invalid
      | Some q \<Rightarrow> (case queue_head q of None \<Rightarrow> CT_Invalid | Some h \<Rightarrow> CT_Head h))"

definition probe_context :: "Engine \<Rightarrow> CameraInitiatedTransfer \<Rightarrow> bool" where
  "probe_context e t \<longleftrightarrow>
     eng_transfer_active e \<and> ct_handoff_connection t = eng_connection e \<and>
     cs_phase (eng_state e) = SessionOpen \<and> AfterCountBeforeModeEntry \<in> set (ct_metadata_phases t)"

definition prepare_camera_initiated_pre_mode_probe :: "OperationRequest \<Rightarrow> Engine \<Rightarrow> Engine" where
  "prepare_camera_initiated_pre_mode_probe req e =
     (case cm_camera_initiated_transfer (eng_manifest e) of
        None \<Rightarrow> e\<lparr>eng_probe_armed := False\<rparr>
      | Some t \<Rightarrow>
          if \<not> probe_context e t \<or> parse_hex_code (ct_metadata_operation t) \<noteq> Some (oreq_code req)
          then e\<lparr>eng_probe_armed := False\<rparr> else e)"

definition is_camera_initiated_count_read :: "OperationRequest \<Rightarrow> Engine \<Rightarrow> bool" where
  "is_camera_initiated_count_read req e =
     (case cm_camera_initiated_transfer (eng_manifest e) of
        None \<Rightarrow> False
      | Some t \<Rightarrow>
          probe_context e t \<and> oreq_code req = GET_DEVICE_PROP_VALUE \<and>
          map_option ucast (parse_hex_code (ct_count_property t)) = first_param (oreq_params req))"

definition metadata_phase :: "Engine \<Rightarrow> CameraInitiatedMetadataPhase option" where
  "metadata_phase e =
     (if cs_phase (eng_state e) = SessionOpen
      then if eng_probe_armed e then Some AfterCountBeforeModeEntry else None
      else if cs_phase (eng_state e) = QueuedReceive then Some AfterModeEntry else None)"

definition camera_initiated_metadata_target :: "Engine \<Rightarrow> u16 \<Rightarrow> u32 \<Rightarrow> CameraQueueTarget" where
  "camera_initiated_metadata_target e code index =
     (case cm_camera_initiated_transfer (eng_manifest e) of
        None \<Rightarrow> CT_None
      | Some t \<Rightarrow>
          if \<not> eng_transfer_active e \<or> ct_handoff_connection t \<noteq> eng_connection e \<or>
             parse_hex_code (ct_metadata_operation t) \<noteq> Some code
          then CT_None
          else
            (case metadata_phase e of
               None \<Rightarrow> CT_None
             | Some ph \<Rightarrow>
                 if ct_head_index t \<noteq> index then CT_Invalid
                 else if ph \<in> set (ct_metadata_phases t) then camera_queue_head e
                 else CT_Invalid))"

definition camera_initiated_data_target :: "Engine \<Rightarrow> u16 \<Rightarrow> u32 \<Rightarrow> CameraQueueTarget" where
  "camera_initiated_data_target e code index =
     (if \<not> eng_transfer_active e \<or> cs_phase (eng_state e) \<noteq> QueuedReceive then CT_None
      else
        (case cm_camera_initiated_transfer (eng_manifest e) of
           None \<Rightarrow> CT_Invalid
         | Some t \<Rightarrow>
             if parse_hex_code (ct_data_operation t) \<noteq> Some code then CT_None
             else if ct_head_index t \<noteq> index then CT_Invalid
             else camera_queue_head e))"

definition object_info_reply :: "Engine \<Rightarrow> u32 \<Rightarrow> u32 \<Rightarrow> Reply" where
  "object_info_reply e tid h =
     (case object_info (eng_store e) h of
        Inl _ \<Rightarrow> err_reply tid INVALID_OBJECT_HANDLE
      | Inr oi \<Rightarrow>
          (case wr_run (ObjectInfo_encode oi) of
             Inl _ \<Rightarrow> err_reply tid GENERAL_ERROR | Inr bs \<Rightarrow> data_reply tid bs))"

fun camera_initiated_metadata_reply :: "Engine \<Rightarrow> u32 \<Rightarrow> CameraQueueTarget \<Rightarrow> Reply" where
  "camera_initiated_metadata_reply e tid (CT_Head h) = object_info_reply e tid h"
| "camera_initiated_metadata_reply e tid _ = err_reply tid INVALID_OBJECT_HANDLE"

definition param :: "OperationRequest \<Rightarrow> nat \<Rightarrow> u32" where
  "param req i = (if i < length (oreq_params req) then oreq_params req ! i else 0)"

definition wide_offset :: "OperationRequest \<Rightarrow> nat" where
  "wide_offset req = unat (param req 1) + unat (param req 3) * 2 ^ 32"

definition returned_len :: "ByteSource \<Rightarrow> u32" where
  "returned_len src = word_of_nat (min (source_len src) u32_max)"

fun camera_initiated_data_reply :: "Engine \<Rightarrow> OperationRequest \<Rightarrow> CameraQueueTarget \<Rightarrow> Reply" where
  "camera_initiated_data_reply e req (CT_Head h) =
     (case read_range (eng_store e) h (wide_offset req) (unat (param req 2)) of
        Inl _ \<Rightarrow> err_reply (oreq_transaction_id req) INVALID_OBJECT_HANDLE
      | Inr src \<Rightarrow>
          DataStream src (response (oreq_transaction_id req) OK [returned_len src])
            (case (eng_camera_initiated_queue e, object_size (eng_store e) h) of
               (Some q, Inr object_bytes) \<Rightarrow>
                 Some \<lparr>sc_generation = cq_generation q, sc_handle = h, sc_offset = wide_offset req,
                       sc_len = source_len src, sc_object_size = object_bytes\<rparr>
             | _ \<Rightarrow> None))"
| "camera_initiated_data_reply e req _ = err_reply (oreq_transaction_id req) INVALID_OBJECT_HANDLE"

definition names_operation :: "ustring option \<Rightarrow> u16 \<Rightarrow> bool" where
  "names_operation h code \<longleftrightarrow> (case h of None \<Rightarrow> None | Some s \<Rightarrow> parse_hex_code s) = Some code"

definition camera_initiated_operation_reply ::
  "OperationRequest \<Rightarrow> Engine \<Rightarrow> (Reply \<times> Engine) option" where
  "camera_initiated_operation_reply req e =
     (let t = cm_camera_initiated_transfer (eng_manifest e);
          index = param req 0;
          metadata = camera_initiated_metadata_target e (oreq_code req) index;
          data = camera_initiated_data_target e (oreq_code req) index
      in if names_operation (map_option ct_metadata_operation t) (oreq_code req) \<and> metadata \<noteq> CT_None
         then
           (let e' = (if cs_phase (eng_state e) = SessionOpen then e\<lparr>eng_probe_armed := False\<rparr> else e)
            in Some (camera_initiated_metadata_reply e' (oreq_transaction_id req) metadata, e'))
         else if names_operation (map_option ct_data_operation t) (oreq_code req) \<and> data \<noteq> CT_None
         then Some (camera_initiated_data_reply e req data, e)
         else None)"

section \<open>Gates and the shutter queue\<close>

definition operation_gate_reply :: "Engine \<Rightarrow> u16 \<Rightarrow> Reply option" where
  "operation_gate_reply e code =
     (case operation (eng_manifest e) code of
        None \<Rightarrow> None
      | Some opn \<Rightarrow>
          (case op_requires_gate opn of
             None \<Rightarrow> None
           | Some g \<Rightarrow> if gate_satisfied g (eng_state e) then None else Some NoResponse))"

definition property_gate_reply :: "Engine \<Rightarrow> u16 \<Rightarrow> Reply option" where
  "property_gate_reply e code =
     (case property (eng_manifest e) code of
        None \<Rightarrow> None
      | Some p \<Rightarrow>
          (case pr_requires_gate p of
             None \<Rightarrow> None
           | Some g \<Rightarrow> if gate_satisfied g (eng_state e) then None else Some NoResponse))"

fun sends_initiate_capture :: "GateMatcher \<Rightarrow> bool" where
  "sends_initiate_capture (GM_SendOp code ps) = (code = INITIATE_CAPTURE)"
| "sends_initiate_capture _ = False"

definition shutter_busy_reply :: "OperationRequest \<Rightarrow> Engine \<Rightarrow> (Reply \<times> Engine) option" where
  "shutter_busy_reply req e =
     (if oreq_code req \<noteq> INITIATE_CAPTURE then None
      else
        (case eng_transfer_queue e of
           None \<Rightarrow> None
         | Some q \<Rightarrow>
             if tq_connection q \<noteq> eng_connection e \<or> tq_shutter_busy q = 0 then None
             else
               (case tq_shutter_sequence q of
                  None \<Rightarrow> None
                | Some sq \<Rightarrow>
                    if \<not> list_ex sends_initiate_capture (take (tq_shutter_progress q) sq) then None
                    else Some (err_reply (oreq_transaction_id req) DEVICE_BUSY,
                               e\<lparr>eng_transfer_queue := Some (q\<lparr>tq_shutter_busy := tq_shutter_busy q - 1\<rparr>)\<rparr>))))"

definition advance_transfer_queue :: "OperationRequest \<Rightarrow> bytes option \<Rightarrow> Engine \<Rightarrow> Engine" where
  "advance_transfer_queue req data_in e =
     (case eng_transfer_queue e of
        None \<Rightarrow> e
      | Some q \<Rightarrow>
          (case tq_shutter_sequence q of
             None \<Rightarrow> e
           | Some sq \<Rightarrow>
               (let matches = (\<lambda>g. gate_match_for_manifest (eng_manifest e) g req data_in);
                    progress = (if step_matches matches sq (tq_shutter_progress q)
                                then tq_shutter_progress q + 1
                                else if step_matches matches sq 0 then 1 else 0)
                in if length sq \<le> progress
                   then
                     (let q' = enqueue_next (q\<lparr>tq_shutter_progress := 0\<rparr>);
                          added = card (tq_available q') - card (tq_available q);
                          e' = e\<lparr>eng_transfer_queue := Some q'\<rparr>
                      in if 0 < added \<and> announces_objects (eng_manifest e)
                         then modify_state (push_object_events added q') e' else e')
                   else e\<lparr>eng_transfer_queue := Some (q\<lparr>tq_shutter_progress := progress\<rparr>)\<rparr>)))"

section \<open>Effects and events of an operation\<close>

definition effect_value :: "u32 list \<Rightarrow> OpEffect \<Rightarrow> (u16 \<times> int \<times> nat) option" where
  "effect_value params ef =
     (case parse_hex_code (oe_set_prop ef) of
        None \<Rightarrow> None
      | Some target \<Rightarrow>
          (case oe_from_param ef of
             None \<Rightarrow> Some (target, oe_value ef, oe_settle_after_polls ef)
           | Some src \<Rightarrow>
               if ps_index src < length params
               then
                 (let raw = ucast (params ! ps_index src) :: u64;
                      mask = (case ps_mask src of None \<Rightarrow> - 1 | Some k \<Rightarrow> k)
                  in Some (target, sint (and (drop_bit (ps_shift src mod 64) raw) mask),
                           oe_settle_after_polls ef))
               else None))"

definition arm_one :: "CameraManifest \<Rightarrow> u16 \<times> int \<times> nat \<Rightarrow> CameraState \<Rightarrow> CameraState" where
  "arm_one m x s = (case x of (target, v, settle) \<Rightarrow> arm_effect target (typed (property_datatype m target) v) settle s)"

definition apply_op_effects :: "u16 \<Rightarrow> u32 list \<Rightarrow> Engine \<Rightarrow> Engine" where
  "apply_op_effects code params e =
     (case operation (eng_manifest e) code of
        None \<Rightarrow> e
      | Some opn \<Rightarrow>
          modify_state (fold (arm_one (eng_manifest e)) (List.map_filter (effect_value params) (op_effects opn))) e)"

definition emit_param :: "u32 list \<Rightarrow> EmitParam \<Rightarrow> u32 option" where
  "emit_param params p =
     (case p of
        RequestParam i \<Rightarrow> if i < length params then Some (params ! i) else None
      | EmitLiteral v \<Rightarrow> Some v)"

fun emit_event :: "u32 list \<Rightarrow> OperationEmit \<Rightarrow> CameraState \<Rightarrow> CameraState" where
  "emit_event params (Bare h) s =
     (case parse_hex_code h of None \<Rightarrow> s | Some c \<Rightarrow> push_event c s)"
| "emit_event params (Detailed h ps) s =
     (case (parse_hex_code h, collect_options (map (emit_param params) ps)) of
        (Some c, Some []) \<Rightarrow> push_event c s
      | (Some c, Some resolved) \<Rightarrow> push_event_with_params c resolved s
      | _ \<Rightarrow> s)"

definition apply_op_emits :: "u16 \<Rightarrow> u32 list \<Rightarrow> Engine \<Rightarrow> Engine" where
  "apply_op_emits code params e =
     (case operation (eng_manifest e) code of
        None \<Rightarrow> e | Some opn \<Rightarrow> modify_state (fold (emit_event params) (op_emits opn)) e)"

definition apply_successful_operation ::
  "OperationRequest \<Rightarrow> bytes option \<Rightarrow> bool \<Rightarrow> Engine \<Rightarrow> Engine" where
  "apply_successful_operation req data_in silent e =
     (let e1 = (if is_camera_initiated_count_read req e then e\<lparr>eng_probe_armed := True\<rparr> else e);
          e2 = modify_state (advance_sequence_gates (eng_manifest e1) (eng_gate_sequences e1) req data_in) e1;
          e3 = (if silent then e2
                else apply_op_emits (oreq_code req) (oreq_params req)
                       (apply_op_effects (oreq_code req) (oreq_params req) e2))
      in advance_transfer_queue req data_in e3)"

section \<open>Modes and property writes\<close>

definition declared_phase :: "CameraManifest \<Rightarrow> ustring option \<Rightarrow> Phase option" where
  "declared_phase m path =
     (case path of
        None \<Rightarrow> None
      | Some p \<Rightarrow>
          (case map_of (cm_modes m) p of
             None \<Rightarrow> None | Some md \<Rightarrow> map_option phase_of_workflow (md_phase md)))"

definition receives_in :: "Engine \<Rightarrow> ustring option \<Rightarrow> bool" where
  "receives_in e detected =
     (case (detected, cm_camera_initiated_transfer (eng_manifest e)) of
        (Some mode, Some t) \<Rightarrow> ct_handoff_connection t = eng_connection e \<and> ct_mode t = mode
      | _ \<Rightarrow> False)"

definition current_feature :: "Engine \<Rightarrow> FeatureMode option" where
  "current_feature e =
     (case lc_feature (lt_snapshot (eng_lifecycle e)) of
        Confirmed (FT_Active mode) \<Rightarrow> Some mode | _ \<Rightarrow> None)"

definition refresh_detected_mode :: "Engine \<Rightarrow> Engine option" where
  "refresh_detected_mode e =
     (let detected = detect_mode (eng_manifest e) (observed_view e);
          previous = cs_active_mode (eng_state e);
          transfer = receives_in e detected;
          e1 = modify_state (\<lambda>s. s\<lparr>cs_active_mode := detected,
                 cs_phase := (if transfer then QueuedReceive
                              else if cs_phase s = QueuedReceive then SessionOpen else cs_phase s)\<rparr>) e
      in if previous = detected then Some e1
         else
           (let old = declared_phase (eng_manifest e) previous;
                new = declared_phase (eng_manifest e) detected;
                e2 = (case new of
                        Some ph \<Rightarrow> if transfer then e1 else modify_state (\<lambda>s. s\<lparr>cs_phase := ph\<rparr>) e1
                      | None \<Rightarrow> e1);
                e3 = (if old = Some ImageImport \<and> new \<noteq> Some ImageImport
                      then modify_state reset_gates e2 else e2);
                feature = (if transfer \<or> new = Some ImageImport then Some FM_ImageTransfer
                           else if new = Some LiveView \<or> new = Some Streaming then Some FM_LiveView
                           else None)
            in if current_feature e3 \<noteq> feature then record_feature_mode feature e3 else Some e3))"

definition normalized_property_write :: "Engine \<Rightarrow> u16 \<Rightarrow> u16 \<Rightarrow> PropValue \<Rightarrow> PropValue" where
  "normalized_property_write e code dt v =
     (case value_to_i64 v of
        None \<Rightarrow> v
      | Some raw \<Rightarrow>
          (case value_profile_for (eng_manifest e) code (eng_connection e) (manifest_mode_path (eng_state e)) of
             None \<Rightarrow> v
           | Some profile \<Rightarrow>
               (case profile_row_for_write profile raw of
                  None \<Rightarrow> v
                | Some row \<Rightarrow>
                    typed dt (case vr_write_store_raw row of Some r \<Rightarrow> r | None \<Rightarrow> vr_raw row))))"

definition arming_blocked :: "Engine \<Rightarrow> u16 \<Rightarrow> PropValue \<Rightarrow> bool" where
  "arming_blocked e code v =
     (case value_to_i64 v of
        None \<Rightarrow> False
      | Some x \<Rightarrow> matches_live_view_arming_write e code x \<and>
          (pending_queue_blocks_live_view_arming e \<or> stale_stream_blocks_live_view_arming e))"

definition set_prop :: "u32 \<Rightarrow> u16 \<Rightarrow> bytes option \<Rightarrow> Engine \<Rightarrow> (Reply \<times> Engine) option" where
  "set_prop tid code data_in e =
     (case property (eng_manifest e) code of
        None \<Rightarrow> Some (err_reply tid DEVICE_PROP_NOT_SUPPORTED, e)
      | Some p \<Rightarrow>
          if pr_access p \<noteq> Some ReadWrite then Some (err_reply tid ACCESS_DENIED, e)
          else if property_is_valueless e code then Some (err_reply tid DEVICE_PROP_NOT_SUPPORTED, e)
          else
            (case data_in of
               None \<Rightarrow> Some (err_reply tid INVALID_PARAMETER, e)
             | Some bs \<Rightarrow>
                 (case run_rd (PropValue_decode (datatype_of (pr_ptype p))) bs of
                    Inl _ \<Rightarrow> Some (err_reply tid INVALID_PARAMETER, e)
                  | Inr v \<Rightarrow>
                      if arming_blocked e code v then Some (err_reply tid LIVE_VIEW_ARMING_BLOCKED, e)
                      else if property_is_write_silent e code then Some (ok_reply tid, e)
                      else
                        (let v' = normalized_property_write e code (datatype_of (pr_ptype p)) v
                         in map_option (\<lambda>e'. (ok_reply tid, e'))
                              (refresh_detected_mode (modify_state (set_value code v') e))))))"

section \<open>Vendor operations\<close>

definition vendor_step :: "u16 \<Rightarrow> u32 \<Rightarrow> Engine \<Rightarrow> Engine" where
  "vendor_step code direction e =
     (case property (eng_manifest e) code of
        None \<Rightarrow> e
      | Some p \<Rightarrow>
          (case pr_descriptor p of
             None \<Rightarrow> e
           | Some d \<Rightarrow>
               if d_values d = [] then e
               else
                 (let dt = datatype_of (pr_ptype p);
                      cur = (case cs_props (eng_state e) code of
                               None \<Rightarrow> None
                             | Some v \<Rightarrow> position_of (\<lambda>x. typed_descriptor_value dt x = Some v) (d_values d));
                      i = (case cur of None \<Rightarrow> 0 | Some j \<Rightarrow> j);
                      n = (if direction \<noteq> 0 then min (i + 1) (length (d_values d) - 1) else i - 1)
                  in case typed_descriptor_value dt (d_values d ! n) of
                       None \<Rightarrow> e
                     | Some v \<Rightarrow> modify_state (set_value code v) e)))"

definition param_at :: "u32 list \<Rightarrow> nat \<Rightarrow> u32 option" where
  "param_at params i = (if i < length params then Some (params ! i) else None)"

definition object_size_op :: "Engine \<Rightarrow> u32 \<Rightarrow> Operation \<Rightarrow> u32 list \<Rightarrow> Reply" where
  "object_size_op e tid opn params =
     (case op_object_size opn of
        None \<Rightarrow> err_reply tid GENERAL_ERROR
      | Some h \<Rightarrow>
          if list_ex (\<lambda>p. param_at params (pe_index p) \<noteq> Some (pe_equals p)) (os_required_params h)
          then err_reply tid INVALID_PARAMETER
          else
            (case param_at params (os_handle_param h) of
               None \<Rightarrow> err_reply tid INVALID_PARAMETER
             | Some handle \<Rightarrow>
                 (case object_size (eng_store e) handle of
                    Inl _ \<Rightarrow> err_reply tid INVALID_OBJECT_HANDLE
                  | Inr n \<Rightarrow>
                      data_reply tid (case os_encoding h of
                        U32Le \<Rightarrow> le_enc 4 (n mod 2 ^ 32) | U64Le \<Rightarrow> le_enc 8 n))))"

definition dispatch_manifest_op :: "u32 \<Rightarrow> u16 \<Rightarrow> u32 list \<Rightarrow> Engine \<Rightarrow> Reply \<times> Engine" where
  "dispatch_manifest_op tid code params e =
     (case operation_availability_error e code of
        Some x \<Rightarrow> (err_reply tid x, e)
      | None \<Rightarrow>
          (case operation (eng_manifest e) code of
             None \<Rightarrow> (err_reply tid OPERATION_NOT_SUPPORTED, e)
           | Some opn \<Rightarrow>
               (case op_handler opn of
                  Some PropertyStep \<Rightarrow>
                    (case (case op_property opn of None \<Rightarrow> None | Some h \<Rightarrow> parse_hex_code h) of
                       None \<Rightarrow> (err_reply tid GENERAL_ERROR, e)
                     | Some pc \<Rightarrow>
                         if property_is_write_silent e pc then (ok_reply tid, e)
                         else if property_is_valueless e pc
                         then (err_reply tid DEVICE_PROP_NOT_SUPPORTED, e)
                         else (ok_reply tid,
                               vendor_step pc (case params of [] \<Rightarrow> 0 | d # _ \<Rightarrow> d) e))
                | Some ObjectSize \<Rightarrow> (object_size_op e tid opn params, e)
                | None \<Rightarrow> (ok_reply tid, e))))"

section \<open>Reads\<close>

definition written :: "wr \<Rightarrow> bytes" where
  "written w = snd (w [])"

definition handle_array :: "u32 list \<Rightarrow> bytes" where
  "handle_array hs = written (wr_ptp_array wr_u32 hs)"

definition computed_property_reply :: "Engine \<Rightarrow> u32 \<Rightarrow> u16 \<Rightarrow> Reply option" where
  "computed_property_reply e tid code =
     (case property (eng_manifest e) code of
        None \<Rightarrow> None
      | Some p \<Rightarrow>
          (case pr_computed p of
             None \<Rightarrow> None
           | Some ObjectCount \<Rightarrow>
               Some (data_reply tid (written (wr_u32 (word_of_nat (length (enumerated_object_handles e))))))
           | Some ObjectHandles \<Rightarrow> Some (data_reply tid (handle_array (enumerated_object_handles e)))))"

definition member_property_code :: "RecordMember \<Rightarrow> u16 option" where
  "member_property_code member = parse_hex_code (member_code member)"

definition literal_value :: "RecordValueLiteral \<Rightarrow> PropValue" where
  "literal_value l =
     (case l of RL_Unsigned v \<Rightarrow> PV_U32 v | RL_Signed v \<Rightarrow> PV_I32 v | RL_String s \<Rightarrow> PV_Str s)"

definition accepted :: "RecordValueEncoding \<Rightarrow> PropValue option \<Rightarrow> PropValue option" where
  "accepted enc v =
     (case v of None \<Rightarrow> None | Some x \<Rightarrow> if accepts_value enc x then Some x else None)"

definition member_value :: "Engine \<Rightarrow> nat \<Rightarrow> u16 \<Rightarrow> RecordMember \<Rightarrow> PropValue" where
  "member_value e value_w code member =
     (let enc = member_encoding value_w member;
          stored = accepted enc (cs_props (eng_state e) code);
          chosen = (case stored of
                      Some v \<Rightarrow> Some v
                    | None \<Rightarrow> map_option literal_value (simulator_value member))
      in case accepted enc chosen of Some v \<Rightarrow> v | None \<Rightarrow> record_value_zero enc)"

definition member_record :: "Engine \<Rightarrow> nat \<Rightarrow> RecordMember \<Rightarrow> (u16 \<times> PropValue) option" where
  "member_record e value_w member =
     (case member_property_code member of
        None \<Rightarrow> None
      | Some code \<Rightarrow>
          if property_is_valueless e code then None
          else Some (code, member_value e value_w code member))"

definition payload_of :: "CameraManifest \<Rightarrow> u16 \<Rightarrow> Payload option" where
  "payload_of m code = (case property m code of None \<Rightarrow> None | Some p \<Rightarrow> pr_payload p)"

definition record_stream_property :: "Engine \<Rightarrow> u16 \<Rightarrow> RecordStreamError + bytes" where
  "record_stream_property e code =
     (case payload_of (eng_manifest e) code of
        None \<Rightarrow> res_bind (descriptor_new D212 []) (typed_record_stream [])
      | Some payload \<Rightarrow>
          (case record_widths payload of
             (count_w, code_w, value_w) \<Rightarrow>
               res_bind (layout_new count_w code_w value_w) (\<lambda>lay.
               res_bind (descriptor_new lay
                   (List.map_filter
                      (\<lambda>m. map_option (\<lambda>c. (c, member_encoding value_w m)) (member_property_code m))
                      (pl_members payload)))
                 (typed_record_stream (List.map_filter (member_record e value_w) (pl_members payload))))))"

definition device_info :: "Engine \<Rightarrow> DeviceInfo" where
  "device_info e =
     (let m = eng_manifest e
      in \<lparr>di_standard_version = 100, di_vendor_extension_id = 0xff, di_vendor_extension_version = 0,
          di_vendor_extension_desc = [], di_functional_mode = 0,
          di_operations_supported =
            filter (\<lambda>c. c \<in> {OPEN_SESSION, CLOSE_SESSION, GET_DEVICE_INFO} \<or>
                        operation_availability_error e c = None)
              (List.map_filter (\<lambda>k. parse_hex_code (fst k)) (cm_operations m)),
          di_events_supported = [],
          di_device_properties_supported =
            filter (\<lambda>c. \<not> property_is_valueless e c)
              (List.map_filter (\<lambda>k. parse_hex_code (fst k)) (cm_properties m)),
          di_capture_formats = [], di_image_formats = [],
          di_manufacturer = ci_manufacturer (cm_camera m), di_model = ci_model (cm_camera m),
          di_device_version = ci_firmware (cm_camera m),
          di_serial_number = (case map_of (ci_identities (cm_camera m)) (lit ''serialNumber'') of
                                None \<Rightarrow> [] | Some s \<Rightarrow> s)\<rparr>)"

definition device_info_bytes :: "Engine \<Rightarrow> bytes" where
  "device_info_bytes e = written (DeviceInfo_encode (device_info e))"

definition get_prop_desc :: "u32 \<Rightarrow> u16 \<Rightarrow> Engine \<Rightarrow> Reply" where
  "get_prop_desc tid code e =
     (case property_gate_reply e code of
        Some r \<Rightarrow> r
      | None \<Rightarrow>
          if property_is_valueless e code \<or> operation_availability_error e code \<noteq> None
          then err_reply tid DEVICE_PROP_NOT_SUPPORTED
          else
            (case build_prop_desc (eng_manifest e) (eng_state e) code of
               None \<Rightarrow> err_reply tid DEVICE_PROP_NOT_SUPPORTED
             | Some d \<Rightarrow> data_reply tid (written (DevicePropDesc_encode d))))"

definition settle_reads :: "u16 \<Rightarrow> Engine \<Rightarrow> Engine" where
  "settle_reads code e =
     modify_state
       (fold resolve_pending
          (code # (case payload_of (eng_manifest e) code of
                     None \<Rightarrow> [] | Some pl \<Rightarrow> List.map_filter member_property_code (pl_members pl)))) e"

definition stored_value_reply :: "u32 \<Rightarrow> u16 \<Rightarrow> Engine \<Rightarrow> Reply" where
  "stored_value_reply tid code e =
     (case cs_props (eng_state e) code of
        Some v \<Rightarrow> data_reply tid (written (PropValue_encode v))
      | None \<Rightarrow>
          (case property (eng_manifest e) code of
             Some p \<Rightarrow> data_reply tid (written (PropValue_encode (default_prop_value (datatype_of (pr_ptype p)))))
           | None \<Rightarrow> err_reply tid DEVICE_PROP_NOT_SUPPORTED))"

text \<open>The first component tells whether the handler returned past the effects of a successful
  operation.\<close>

definition get_prop_value :: "u32 \<Rightarrow> u16 \<Rightarrow> Engine \<Rightarrow> bool \<times> Reply \<times> Engine" where
  "get_prop_value tid code e =
     (case property_gate_reply e code of
        Some r \<Rightarrow> (True, r, e)
      | None \<Rightarrow>
          (case (if eng_transfer_queue e = None then None else computed_property_reply e tid code) of
             Some r \<Rightarrow> (True, r, e)
           | None \<Rightarrow>
               if property_is_valueless e code then (True, err_reply tid DEVICE_PROP_NOT_SUPPORTED, e)
               else
                 (let e' = settle_reads code e
                  in (False,
                      (if payload_of (eng_manifest e') code \<noteq> None
                       then (case record_stream_property e' code of
                               Inr bs \<Rightarrow> data_reply tid bs | Inl _ \<Rightarrow> err_reply tid GENERAL_ERROR)
                       else case computed_property_reply e' tid code of
                              Some r \<Rightarrow> r | None \<Rightarrow> stored_value_reply tid code e'),
                      e'))))"

section \<open>Dispatch\<close>

definition open_session :: "OperationRequest \<Rightarrow> Engine \<Rightarrow> (Reply \<times> Engine) option" where
  "open_session req e =
     (let tid = oreq_transaction_id req
      in if cs_session_open (eng_state e) then Some (err_reply tid SESSION_ALREADY_OPEN, e)
         else if param req 0 = 0 then Some (err_reply tid INVALID_PARAMETER, e)
         else map_option (\<lambda>e'. (ok_reply tid, e'))
                (record_lifecycle PtpSessionOpened
                  ((modify_state (\<lambda>s. (reset_gates s)\<lparr>cs_active_mode := None, cs_session_open := True,
                                      cs_phase := SessionOpen\<rparr>) e)\<lparr>eng_probe_armed := False\<rparr>)))"

definition close_session :: "OperationRequest \<Rightarrow> Engine \<Rightarrow> (Reply \<times> Engine) option" where
  "close_session req e =
     map_option (\<lambda>e'. (ok_reply (oreq_transaction_id req), clear_session e'))
       (record_lifecycle PtpSessionClosed e)"

definition get_partial_object :: "OperationRequest \<Rightarrow> Engine \<Rightarrow> Reply" where
  "get_partial_object req e =
     (case read_range (eng_store e) (param req 0) (wide_offset req) (unat (param req 2)) of
        Inl _ \<Rightarrow> err_reply (oreq_transaction_id req) INVALID_OBJECT_HANDLE
      | Inr src \<Rightarrow> DataStream src (response (oreq_transaction_id req) OK [returned_len src]) None)"

definition get_object :: "OperationRequest \<Rightarrow> Engine \<Rightarrow> Reply" where
  "get_object req e =
     (let tid = oreq_transaction_id req; h = param req 0
      in if \<not> object_handle_available e h then err_reply tid INVALID_OBJECT_HANDLE
         else
           (let n = (case object_size (eng_store e) h of Inl _ \<Rightarrow> 0 | Inr k \<Rightarrow> k)
            in case read_range (eng_store e) h 0 (min n SIZE_CEILING) of
                 Inl _ \<Rightarrow> err_reply tid INVALID_OBJECT_HANDLE | Inr src \<Rightarrow> data_stream tid src))"

definition get_thumb :: "file_system \<Rightarrow> OperationRequest \<Rightarrow> Engine \<Rightarrow> Reply" where
  "get_thumb fs req e =
     (if \<not> object_handle_available e (param req 0)
      then err_reply (oreq_transaction_id req) INVALID_OBJECT_HANDLE
      else
        (case Media_Store.thumbnail fs (eng_store e) (param req 0) of
           Inl _ \<Rightarrow> err_reply (oreq_transaction_id req) INVALID_OBJECT_HANDLE
         | Inr src \<Rightarrow> data_stream (oreq_transaction_id req) src))"

definition delete_object :: "OperationRequest \<Rightarrow> Engine \<Rightarrow> Reply \<times> Engine" where
  "delete_object req e =
     (let tid = oreq_transaction_id req; h = param req 0
      in case eng_transfer_queue e of
           Some q \<Rightarrow>
             (case drain h q of
                (True, q') \<Rightarrow> (ok_reply tid, e\<lparr>eng_transfer_queue := Some q'\<rparr>)
              | (False, q') \<Rightarrow> (err_reply tid INVALID_OBJECT_HANDLE, e))
         | None \<Rightarrow>
             (case object_info (eng_store e) h of
                Inr _ \<Rightarrow> (ok_reply tid, e) | Inl _ \<Rightarrow> (err_reply tid INVALID_OBJECT_HANDLE, e)))"

definition initiate_open_capture :: "OperationRequest \<Rightarrow> Engine \<Rightarrow> Reply \<times> Engine" where
  "initiate_open_capture req e =
     (if cs_phase (eng_state e) \<in> {LiveView, Streaming}
      then
        (let e' = modify_state (\<lambda>s. s\<lparr>cs_phase := Streaming\<rparr>) e
         in (ok_reply (oreq_transaction_id req),
             if connection_models_live_view_stream e (eng_connection e)
             then e'\<lparr>eng_live_view_stream_connection := Some (eng_connection e)\<rparr> else e'))
      else (err_reply (oreq_transaction_id req) GENERAL_ERROR, e))"

definition terminate_open_capture :: "OperationRequest \<Rightarrow> Engine \<Rightarrow> Reply \<times> Engine" where
  "terminate_open_capture req e =
     (ok_reply (oreq_transaction_id req),
      if eng_live_view_stream_connection e = Some (eng_connection e)
      then e\<lparr>eng_live_view_stream_connection := None\<rparr> else e)"

definition finished :: "Reply \<Rightarrow> Engine \<Rightarrow> (bool \<times> Reply \<times> Engine) option" where
  "finished r e = Some (False, r, e)"

text \<open>The match on the operation code.\<close>

definition handle_operation ::
  "file_system \<Rightarrow> OperationRequest \<Rightarrow> bytes option \<Rightarrow> Engine \<Rightarrow> (bool \<times> Reply \<times> Engine) option" where
  "handle_operation fs req data_in e =
     (let code = oreq_code req; tid = oreq_transaction_id req
      in if code = OPEN_SESSION then map_option (Pair False) (open_session req e)
         else if code = CLOSE_SESSION then map_option (Pair False) (close_session req e)
         else if code = GET_DEVICE_INFO then finished (data_reply tid (device_info_bytes e)) e
         else if code = GET_STORAGE_IDS then finished (data_reply tid (handle_array [STORAGE_ID])) e
         else if code = GET_OBJECT_HANDLES
         then finished (data_reply tid (handle_array (enumerated_object_handles e))) e
         else if code = GET_OBJECT_INFO
         then finished (if object_handle_available e (param req 0) then object_info_reply e tid (param req 0)
                        else err_reply tid INVALID_OBJECT_HANDLE) e
         else if code = GET_THUMB then finished (get_thumb fs req e) e
         else if code = GET_PARTIAL_OBJECT then finished (get_partial_object req e) e
         else if code = GET_OBJECT then finished (get_object req e) e
         else if code = DELETE_OBJECT then Some (False, delete_object req e)
         else if code = GET_DEVICE_PROP_DESC
         then finished (get_prop_desc tid (ucast (param req 0)) e) e
         else if code = GET_DEVICE_PROP_VALUE then Some (get_prop_value tid (ucast (param req 0)) e)
         else if code = SET_DEVICE_PROP_VALUE
         then map_option (Pair False) (set_prop tid (ucast (param req 0)) data_in e)
         else if code = TERMINATE_OPEN_CAPTURE \<and> connection_models_live_view_stream e (eng_connection e)
         then Some (False, terminate_open_capture req e)
         else if code = INITIATE_OPEN_CAPTURE then Some (False, initiate_open_capture req e)
         else Some (False, dispatch_manifest_op tid code (oreq_params req) e))"

definition complete_operation ::
  "OperationRequest \<Rightarrow> bytes option \<Rightarrow> bool \<Rightarrow> Reply \<Rightarrow> Engine \<Rightarrow> Reply \<times> Engine" where
  "complete_operation req data_in silent r e =
     (r, if reply_is_ok r then apply_successful_operation req data_in silent e else e)"

definition availability_refusal :: "OperationRequest \<Rightarrow> Engine \<Rightarrow> u16 option" where
  "availability_refusal req e =
     (if oreq_code req \<in> {OPEN_SESSION, CLOSE_SESSION, GET_DEVICE_INFO} then None
      else operation_availability_error e (oreq_code req))"

definition dispatch_operation ::
  "file_system \<Rightarrow> OperationRequest \<Rightarrow> bytes option \<Rightarrow> Engine \<Rightarrow> (Reply \<times> Engine) option" where
  "dispatch_operation fs req data_in e\<^sub>0 =
     (let tid = oreq_transaction_id req;
          silent = operation_is_silent e\<^sub>0 (oreq_code req);
          e = prepare_camera_initiated_pre_mode_probe req e\<^sub>0
      in if \<not> cs_session_open (eng_state e) \<and> oreq_code req \<noteq> OPEN_SESSION \<and> oreq_code req \<noteq> GET_DEVICE_INFO
         then Some (err_reply tid SESSION_NOT_OPEN, e)
         else case operation_gate_reply e (oreq_code req) of Some r \<Rightarrow> Some (r, e)
       | None \<Rightarrow>
         (case shutter_busy_reply req e of Some x \<Rightarrow> Some x
       | None \<Rightarrow>
         (case camera_initiated_operation_reply req e of
            Some (r, e') \<Rightarrow> Some (complete_operation req data_in silent r e')
       | None \<Rightarrow>
         (case availability_refusal req e of Some x \<Rightarrow> Some (err_reply tid x, e)
       | None \<Rightarrow>
         (if silent then Some (ok_reply tid, e)
          else
            (case handle_operation fs req data_in e of
               None \<Rightarrow> None
             | Some (early, r, e') \<Rightarrow>
                 Some (if early then (r, e') else complete_operation req data_in silent r e')))))))"

section \<open>Faults around the dispatch\<close>

fun truncate_source :: "nat \<Rightarrow> ByteSource \<Rightarrow> ByteSource" where
  "truncate_source n (Memory bs) = Memory (take n bs)"
| "truncate_source n (FileRange p off k) = FileRange p off n"
| "truncate_source n (Generated k seed) = Generated n seed"

fun truncate_reply_data :: "nat \<Rightarrow> Reply \<Rightarrow> Reply" where
  "truncate_reply_data keep (Data bs r) = Data (take keep bs) r"
| "truncate_reply_data keep (DataStream src r c) =
     DataStream (truncate_source (min keep (source_len src)) src) r None"
| "truncate_reply_data keep reply = reply"

fun replace_reply_data :: "bytes \<Rightarrow> Reply \<Rightarrow> Reply" where
  "replace_reply_data bs (Data _ r) = Data bs r"
| "replace_reply_data bs (DataStream _ r _) = Data bs r"
| "replace_reply_data bs reply = reply"

definition replace_property_readback :: "Engine \<Rightarrow> OperationRequest \<Rightarrow> int \<Rightarrow> Reply \<Rightarrow> Reply" where
  "replace_property_readback e req v reply =
     (if oreq_code req \<noteq> GET_DEVICE_PROP_VALUE then reply
      else
        (case first_param (oreq_params req) of
           None \<Rightarrow> reply
         | Some c \<Rightarrow>
             if 2 ^ 16 \<le> unat c then reply
             else
               (case property (eng_manifest e) (ucast c) of
                  None \<Rightarrow> reply
                | Some p \<Rightarrow>
                    (case property_transition_value (pr_ptype p) v of
                       None \<Rightarrow> reply
                     | Some pv \<Rightarrow>
                         (case reply of
                            Data _ r \<Rightarrow>
                              (case wr_run (PropValue_encode pv) of Inl _ \<Rightarrow> reply | Inr bs \<Rightarrow> Data bs r)
                          | _ \<Rightarrow> reply)))))"

fun mutate_reply :: "Engine \<Rightarrow> OperationRequest \<Rightarrow> FaultMutation \<Rightarrow> Reply \<Rightarrow> Reply" where
  "mutate_reply e req (Suppress DR_Response) (Response r) = NoResponse"
| "mutate_reply e req (TruncateData keep) reply = truncate_reply_data (unat keep) reply"
| "mutate_reply e req (ReplaceData bs) reply = replace_reply_data bs reply"
| "mutate_reply e req (PropertyReadback v) reply = replace_property_readback e req (sint v) reply"
| "mutate_reply e req _ reply = reply"

definition on_operation ::
  "file_system \<Rightarrow> OperationRequest \<Rightarrow> bytes option \<Rightarrow> Engine \<Rightarrow> (Reply \<times> Engine) option" where
  "on_operation fs req data_in e =
     (case apply_fault (oreq_code req) (oreq_params req) (eng_faults e) of
        (applied, f) \<Rightarrow>
        (case take_applied_mutation f of
           (mutation, f') \<Rightarrow>
             (let e1 = e\<lparr>eng_faults := f'\<rparr>;
                  answered = (case mutation of
                     Some (FailResponse c) \<Rightarrow> Some (err_reply (oreq_transaction_id req) c, e1)
                   | Some (Close FS_Command) \<Rightarrow> Some (CloseReply, e1)
                   | _ \<Rightarrow> dispatch_operation fs req data_in e1)
              in case answered of
                   None \<Rightarrow> None
                 | Some (r, e2) \<Rightarrow>
                     Some (case mutation of None \<Rightarrow> r | Some mu \<Rightarrow> mutate_reply e2 req mu r,
                           e2\<lparr>eng_applied_fault := applied\<rparr>))))"

definition on_operation_with_connection_lifecycle ::
  "file_system \<Rightarrow> ConnectionLifecycleTracker \<Rightarrow> OperationRequest \<Rightarrow> bytes option \<Rightarrow> Engine
    \<Rightarrow> (Reply \<times> ConnectionLifecycleTracker \<times> Engine) option" where
  "on_operation_with_connection_lifecycle fs lifecycle req data_in e =
     map_option (\<lambda>(r, e'). (r, eng_lifecycle e', e'\<lparr>eng_lifecycle := eng_lifecycle e\<rparr>))
       (on_operation fs req data_in (e\<lparr>eng_lifecycle := lifecycle\<rparr>))"

end
