(* ===== verification/Engine_Safety.thy ===== *)
theory Engine_Safety
  imports Engine
begin

text \<open>
  Invariants of the responder engine: every operation keeps the stored and pending values at their
  declared datatypes and both object queues consistent, and no operation panics while the
  lifecycle sequence number is not exhausted.
\<close>

section \<open>The invariant\<close>

definition queues_ok :: "Engine \<Rightarrow> bool" where
  "queues_ok e \<longleftrightarrow>
     (\<forall>q. eng_transfer_queue e = Some q \<longrightarrow> queue_kept q) \<and>
     (\<forall>q. eng_camera_initiated_queue e = Some q \<longrightarrow>
        separated (cq_delivered q) \<and> cq_head q \<le> length (cq_handles q))"

definition engine_ok :: "Engine \<Rightarrow> bool" where
  "engine_ok e \<longleftrightarrow>
     state_typed (eng_manifest e) (eng_state e) \<and> queues_ok e \<and>
     distinct (handles (eng_store e) ObjectQuery_default)"

text \<open>A step that keeps the invariant and what it is relative to.\<close>

definition safe_step :: "Engine \<Rightarrow> Engine \<Rightarrow> bool" where
  "safe_step e e' \<longleftrightarrow>
     eng_manifest e' = eng_manifest e \<and> eng_store e' = eng_store e \<and> (engine_ok e \<longrightarrow> engine_ok e')"

named_theorems safe_intro

lemma safe_refl [safe_intro, simp]: "safe_step e e"
  by (simp add: safe_step_def)

lemma safe_trans: "safe_step e e' \<Longrightarrow> safe_step e' e'' \<Longrightarrow> safe_step e e''"
  by (simp add: safe_step_def)

text \<open>Updates of the fields the invariant does not speak about.\<close>

lemma safe_other_fields [safe_intro]:
  "safe_step e (e\<lparr>eng_lifecycle := k\<rparr>)"
  "safe_step e (e\<lparr>eng_connection := c\<rparr>)"
  "safe_step e (e\<lparr>eng_live_view_stream_connection := lv\<rparr>)"
  "safe_step e (e\<lparr>eng_transfer_active := b\<rparr>)"
  "safe_step e (e\<lparr>eng_probe_armed := b\<rparr>)"
  "safe_step e (e\<lparr>eng_faults := f\<rparr>)"
  "safe_step e (e\<lparr>eng_applied_fault := a\<rparr>)"
  "safe_step e (e\<lparr>eng_ap_one_shot_latch := b\<rparr>)"
  by (simp_all add: safe_step_def engine_ok_def queues_ok_def)

lemma modify_state_simps [simp]:
  "eng_manifest (modify_state f e) = eng_manifest e"
  "eng_store (modify_state f e) = eng_store e"
  "eng_state (modify_state f e) = f (eng_state e)"
  "eng_lifecycle (modify_state f e) = eng_lifecycle e"
  "eng_transfer_queue (modify_state f e) = eng_transfer_queue e"
  "eng_camera_initiated_queue (modify_state f e) = eng_camera_initiated_queue e"
  "eng_connection (modify_state f e) = eng_connection e"
  "eng_probe_armed (modify_state f e) = eng_probe_armed e"
  "eng_transfer_active (modify_state f e) = eng_transfer_active e"
  "eng_faults (modify_state f e) = eng_faults e"
  "eng_gate_sequences (modify_state f e) = eng_gate_sequences e"
  by (simp_all add: modify_state_def)

lemma safe_modify_state:
  "(\<And>s. state_typed (eng_manifest e) s \<Longrightarrow> state_typed (eng_manifest e) (f s)) \<Longrightarrow>
   safe_step e (modify_state f e)"
  by (simp add: safe_step_def engine_ok_def queues_ok_def)

lemma safe_modify_frame:
  "(\<And>s. cs_props (f s) = cs_props s) \<Longrightarrow> (\<And>s. cs_pending (f s) = cs_pending s) \<Longrightarrow>
   safe_step e (modify_state f e)"
  by (rule safe_modify_state) (simp add: state_typed_def)

lemma safe_set_queue:
  "(\<And>q. eng_transfer_queue e = Some q \<Longrightarrow> queue_kept q \<Longrightarrow> queue_kept q') \<Longrightarrow>
   eng_transfer_queue e \<noteq> None \<Longrightarrow> safe_step e (e\<lparr>eng_transfer_queue := Some q'\<rparr>)"
  by (auto simp: safe_step_def engine_ok_def queues_ok_def)

section \<open>Values keep their type\<close>

lemma typed_property_datatype: "value_typed m code (typed (property_datatype m code) v)"
  by (simp add: property_datatype_def typed_value_typed)

lemma property_transition_code:
  "property_transition_value ty v = Some pv \<Longrightarrow> PropValue_datatype_code pv = datatype_of ty"
  by (auto simp: property_transition_value_def datatype_of_def lit_def split: if_split_asm)

lemma run_decode_code:
  "run_rd (PropValue_decode dt) bs = Inr v \<Longrightarrow> PropValue_datatype_code v = dt"
  using PropValue_decode_code by (fastforce simp: run_rd_def split: sum.split_asm prod.split_asm)

lemma normalized_write_code:
  assumes "PropValue_datatype_code v = datatype_of ty"
  shows "PropValue_datatype_code (normalized_property_write e code (datatype_of ty) v) = datatype_of ty"
  using assms by (simp add: normalized_property_write_def typed_code split: option.split)

lemma collect_options_map:
  "collect_options (map f xs) = Some ys \<Longrightarrow> list_all2 (\<lambda>x y. f x = Some y) xs ys"
proof (induction xs arbitrary: ys)
  case (Cons x xs)
  then show ?case by (cases "f x") (auto split: option.split_asm)
qed simp

lemma arm_one_typed: "state_typed m s \<Longrightarrow> state_typed m (arm_one m x s)"
  by (simp add: arm_one_def arm_effect_typed typed_property_datatype split: prod.split)

lemma fold_typed:
  "(\<And>x s. state_typed m s \<Longrightarrow> state_typed m (f x s)) \<Longrightarrow> state_typed m s \<Longrightarrow> state_typed m (fold f xs s)"
  by (induction xs arbitrary: s) simp_all

lemma emit_event_frame [simp]:
  "cs_props (emit_event params em s) = cs_props s" "cs_pending (emit_event params em s) = cs_pending s"
  by (cases em; auto split: option.split list.split)+

lemma fold_frame:
  "(\<And>x s. cs_props (f x s) = cs_props s) \<Longrightarrow> cs_props (fold f xs s) = cs_props s"
  "(\<And>x s. cs_pending (f x s) = cs_pending s) \<Longrightarrow> cs_pending (fold f xs s) = cs_pending s"
  by (induction xs arbitrary: s) simp_all

lemma push_object_events_frame [simp]:
  "cs_props (push_object_events n q s) = cs_props s" "cs_pending (push_object_events n q s) = cs_pending s"
  by (simp_all add: push_object_events_def fold_frame)

lemma advance_sequence_frame [simp]:
  "cs_props (advance_sequence matches iq s) = cs_props s"
  "cs_pending (advance_sequence matches iq s) = cs_pending s"
  by (simp_all add: advance_sequence_def advance_gate_progress_def Let_def split: prod.split)

lemma advance_sequence_gates_frame [simp]:
  "cs_props (advance_sequence_gates m sqs req d s) = cs_props s"
  "cs_pending (advance_sequence_gates m sqs req d s) = cs_pending s"
  by (simp_all add: advance_sequence_gates_def fold_frame)

section \<open>Every operation is a safe step\<close>

lemma record_lifecycle_safe: "record_lifecycle t e = Some e' \<Longrightarrow> safe_step e e'"
  by (auto simp: record_lifecycle_def safe_other_fields split: prod.split_asm sum.split_asm)

lemma clear_session_safe: "safe_step e (clear_session e)"
  unfolding clear_session_def
  by (rule safe_trans [OF safe_modify_frame safe_other_fields(5)]) simp_all

lemma sync_counts_safe: "safe_step e (sync_camera_initiated_counts e)"
  unfolding sync_camera_initiated_counts_def
  by (auto split: option.split intro!: safe_modify_state set_value_typed typed_property_datatype)

lemma prepare_probe_safe: "safe_step e (prepare_camera_initiated_pre_mode_probe req e)"
  by (simp add: prepare_camera_initiated_pre_mode_probe_def safe_other_fields split: option.split)

lemma camera_initiated_operation_safe:
  "camera_initiated_operation_reply req e = Some (r, e') \<Longrightarrow> safe_step e e'"
  by (auto simp: camera_initiated_operation_reply_def Let_def safe_other_fields split: if_split_asm)

lemma shutter_busy_safe: "shutter_busy_reply req e = Some (r, e') \<Longrightarrow> safe_step e e'"
  by (auto simp: shutter_busy_reply_def split: if_split_asm option.split_asm
      intro!: safe_set_queue simp: queue_kept_def)

lemma apply_op_effects_safe: "safe_step e (apply_op_effects code params e)"
  unfolding apply_op_effects_def
  by (auto split: option.split intro!: safe_modify_state fold_typed arm_one_typed)

lemma apply_op_emits_safe: "safe_step e (apply_op_emits code params e)"
  unfolding apply_op_emits_def
  by (auto split: option.split intro!: safe_modify_frame simp: fold_frame)

lemma enqueue_count_kept: "queue_kept q \<Longrightarrow> queue_kept (snd (enqueue_count n q))"
  using enqueue_loop_kept [of q n] by (simp add: enqueue_count_def Let_def)

lemma enqueue_next_kept:
  "queue_kept q \<Longrightarrow> queue_kept (enqueue_next (q\<lparr>tq_shutter_progress := 0\<rparr>))"
  using enqueue_count_kept [of "q\<lparr>tq_shutter_progress := 0\<rparr>"] by (simp add: enqueue_next_def queue_kept_def)

lemma advance_transfer_queue_safe: "safe_step e (advance_transfer_queue req d e)"
proof (cases "eng_transfer_queue e")
  case (Some q)
  have a: "safe_step e (e\<lparr>eng_transfer_queue := Some (enqueue_next (q\<lparr>tq_shutter_progress := 0\<rparr>))\<rparr>)"
    by (rule safe_set_queue) (use Some enqueue_next_kept in auto)
  have b: "safe_step e (e\<lparr>eng_transfer_queue := Some (q\<lparr>tq_shutter_progress := k\<rparr>)\<rparr>)" for k
    by (rule safe_set_queue) (use Some in \<open>auto simp: queue_kept_def\<close>)
  have c: "safe_step e' (modify_state (push_object_events n q') e')" for n q' e'
    by (rule safe_modify_frame) simp_all
  show ?thesis
    using Some a b safe_trans [OF a c]
    by (auto simp: advance_transfer_queue_def Let_def split: option.split)
qed (simp add: advance_transfer_queue_def)

lemma apply_successful_operation_safe: "safe_step e (apply_successful_operation req d silent e)"
proof -
  define e1 where "e1 = (if is_camera_initiated_count_read req e then e\<lparr>eng_probe_armed := True\<rparr> else e)"
  define e2 where
    "e2 = modify_state (advance_sequence_gates (eng_manifest e1) (eng_gate_sequences e1) req d) e1"
  define e3 where
    "e3 = (if silent then e2 else apply_op_emits (oreq_code req) (oreq_params req)
                                   (apply_op_effects (oreq_code req) (oreq_params req) e2))"
  have "safe_step e e1" by (simp add: e1_def safe_other_fields)
  moreover have "safe_step e1 e2" unfolding e2_def by (rule safe_modify_frame) simp_all
  moreover have "safe_step e2 e3"
    using safe_trans [OF apply_op_effects_safe apply_op_emits_safe] by (simp add: e3_def)
  ultimately have "safe_step e e3" by (blast intro: safe_trans)
  then have "safe_step e (advance_transfer_queue req d e3)" by (rule safe_trans [OF _ advance_transfer_queue_safe])
  then show ?thesis
    by (simp only: apply_successful_operation_def Let_def e1_def [symmetric] e2_def [symmetric] e3_def [symmetric])
qed

lemma refresh_detected_mode_safe:
  assumes "refresh_detected_mode e = Some e'"
  shows "safe_step e e'"
proof -
  define e1 where "e1 = modify_state (\<lambda>s. s\<lparr>cs_active_mode := detect_mode (eng_manifest e) (observed_view e),
      cs_phase := (if receives_in e (detect_mode (eng_manifest e) (observed_view e)) then QueuedReceive
                   else if cs_phase s = QueuedReceive then SessionOpen else cs_phase s)\<rparr>) e"
  have e1: "safe_step e e1" unfolding e1_def by (rule safe_modify_frame) simp_all
  have phase: "safe_step e (modify_state (\<lambda>s. s\<lparr>cs_phase := ph\<rparr>) e1)" for ph
    by (rule safe_trans [OF e1 safe_modify_frame]) simp_all
  have gates: "safe_step e x \<Longrightarrow> safe_step e (modify_state reset_gates x)" for x
    by (erule safe_trans [OF _ safe_modify_frame]) simp_all
  have feature: "record_feature_mode f x = Some e' \<Longrightarrow> safe_step e x \<Longrightarrow> safe_step e e'" for f x
    unfolding record_feature_mode_def using record_lifecycle_safe safe_trans by blast
  show ?thesis
    using assms e1
    unfolding refresh_detected_mode_def Let_def e1_def [symmetric]
    by (auto split: if_split_asm option.split_asm intro!: phase gates elim!: feature)
qed

lemma set_prop_safe: "set_prop tid code d e = Some (r, e') \<Longrightarrow> safe_step e e'"
proof -
  have stores: "safe_step e e'"
    if p: "property (eng_manifest e) code = Some p"
      and v: "run_rd (PropValue_decode (datatype_of (pr_ptype p))) bs = Inr v"
      and r: "refresh_detected_mode (modify_state (set_value code
               (normalized_property_write e code (datatype_of (pr_ptype p)) v)) e) = Some e'" for p bs v
  proof -
    have "safe_step e (modify_state (set_value code
               (normalized_property_write e code (datatype_of (pr_ptype p)) v)) e)"
      using p normalized_write_code [OF run_decode_code [OF v]]
      by (intro safe_modify_state set_value_typed) (simp_all add: value_typed_def)
    then show ?thesis using refresh_detected_mode_safe [OF r] by (rule safe_trans)
  qed
  assume "set_prop tid code d e = Some (r, e')"
  then show "safe_step e e'"
    unfolding set_prop_def Let_def
    by (auto split: option.split_asm if_split_asm sum.split_asm intro: stores)
qed

lemma vendor_step_safe: "safe_step e (vendor_step code dir e)"
  unfolding vendor_step_def Let_def
  by (auto split: option.split intro!: safe_modify_state set_value_typed
      simp: value_typed_def typed_descriptor_code)

lemma dispatch_manifest_op_safe: "dispatch_manifest_op tid code ps e = (r, e') \<Longrightarrow> safe_step e e'"
  unfolding dispatch_manifest_op_def
  by (auto split: option.split_asm if_split_asm OperationHandler.split_asm intro: vendor_step_safe)

lemma settle_reads_safe: "safe_step e (settle_reads code e)"
  unfolding settle_reads_def by (intro safe_modify_state fold_typed resolve_pending_typed)

lemma get_prop_value_safe: "get_prop_value tid code e = (b, r, e') \<Longrightarrow> safe_step e e'"
  unfolding get_prop_value_def Let_def
  by (auto split: option.split_asm if_split_asm intro: settle_reads_safe)

lemma delete_object_safe: "delete_object req e = (r, e') \<Longrightarrow> safe_step e e'"
proof -
  have "safe_step e (e\<lparr>eng_transfer_queue := Some q'\<rparr>)"
    if "eng_transfer_queue e = Some q" "drain h q = (True, q')" for q h q'
    using that queue_kept_drain [of q h] by (intro safe_set_queue) auto
  then show "delete_object req e = (r, e') \<Longrightarrow> safe_step e e'"
    unfolding delete_object_def Let_def
    by (auto split: option.split_asm prod.split_asm bool.split_asm sum.split_asm)
qed

lemma open_session_safe: "open_session req e = Some (r, e') \<Longrightarrow> safe_step e e'"
proof -
  let ?o = "modify_state (\<lambda>s. (reset_gates s)\<lparr>cs_active_mode := None, cs_session_open := True,
              cs_phase := SessionOpen\<rparr>) e"
  have "safe_step e (?o\<lparr>eng_probe_armed := False\<rparr>)"
    by (rule safe_trans [OF safe_modify_frame safe_other_fields(5)]) simp_all
  then show "open_session req e = Some (r, e') \<Longrightarrow> safe_step e e'"
    unfolding open_session_def Let_def
    by (auto split: if_split_asm dest!: record_lifecycle_safe elim: safe_trans)
qed

lemma close_session_safe: "close_session req e = Some (r, e') \<Longrightarrow> safe_step e e'"
  unfolding close_session_def
  by (auto dest!: record_lifecycle_safe intro: safe_trans [OF _ clear_session_safe])

lemma transport_lost_safe: "transport_lost e = Some e' \<Longrightarrow> safe_step e e'"
  unfolding transport_lost_def
  by (auto dest!: record_lifecycle_safe intro: safe_trans [OF _ clear_session_safe])

lemma open_capture_safe:
  "initiate_open_capture req e = (r, e') \<Longrightarrow> safe_step e e'"
  "terminate_open_capture req e = (r, e') \<Longrightarrow> safe_step e e'"
proof -
  have "safe_step e (modify_state (\<lambda>s. s\<lparr>cs_phase := Streaming\<rparr>) e)"
    by (rule safe_modify_frame) simp_all
  then show "initiate_open_capture req e = (r, e') \<Longrightarrow> safe_step e e'"
    by (auto simp: initiate_open_capture_def Let_def split: if_split_asm
        intro: safe_trans [OF _ safe_other_fields(3)])
qed (auto simp: terminate_open_capture_def safe_other_fields)

lemmas handler_safe =
  open_session_safe close_session_safe delete_object_safe get_prop_value_safe set_prop_safe
  open_capture_safe dispatch_manifest_op_safe

lemma handle_operation_safe: "handle_operation fs req d e = Some (b, r, e') \<Longrightarrow> safe_step e e'"
  unfolding handle_operation_def Let_def finished_def
  by (auto split: if_split_asm elim: handler_safe)

lemma complete_operation_safe: "complete_operation req d silent r e = (r', e') \<Longrightarrow> safe_step e e'"
  by (auto simp: complete_operation_def apply_successful_operation_safe)

lemma dispatch_operation_safe:
  assumes "dispatch_operation fs req d e = Some (r, e')"
  shows "safe_step e e'"
proof -
  let ?e = "prepare_camera_initiated_pre_mode_probe req e"
  have "safe_step ?e e'"
    using assms unfolding dispatch_operation_def Let_def
    by (auto split: if_split_asm option.split_asm prod.split_asm
        dest!: shutter_busy_safe camera_initiated_operation_safe handle_operation_safe complete_operation_safe
        elim: safe_trans)
  then show ?thesis by (rule safe_trans [OF prepare_probe_safe])
qed

lemma on_operation_safe:
  assumes "on_operation fs req d e = Some (r, e')"
  shows "safe_step e e'"
proof -
  obtain a f mu f' where
    f: "apply_fault (oreq_code req) (oreq_params req) (eng_faults e) = (a, f)" "take_applied_mutation f = (mu, f')"
    by (metis prod.exhaust)
  obtain r2 e2 where e2: "(case mu of
                     Some (FailResponse c) \<Rightarrow> Some (err_reply (oreq_transaction_id req) c, e\<lparr>eng_faults := f'\<rparr>)
                   | Some (Close FS_Command) \<Rightarrow> Some (CloseReply, e\<lparr>eng_faults := f'\<rparr>)
                   | _ \<Rightarrow> dispatch_operation fs req d (e\<lparr>eng_faults := f'\<rparr>)) = Some (r2, e2)"
      and e': "e' = e2\<lparr>eng_applied_fault := a\<rparr>"
    using assms f by (auto simp: on_operation_def Let_def split: option.split_asm prod.split_asm)
  have "safe_step (e\<lparr>eng_faults := f'\<rparr>) e2"
    using e2 by (auto split: option.split_asm FaultMutation.split_asm FaultStage.split_asm
        dest: dispatch_operation_safe)
  then show ?thesis
    unfolding e' by (blast intro: safe_trans safe_other_fields)
qed

section \<open>The other mutators\<close>

lemma acknowledge_separated:
  "separated (cq_delivered q) \<Longrightarrow> separated (cq_delivered (snd (acknowledge off len n q)))"
  "cq_handles (snd (acknowledge off len n q)) = cq_handles q"
  "cq_head (snd (acknowledge off len n q)) \<le> cq_head q + 1"
  using record_range_covers [of "cq_delivered q"]
  by (auto simp: acknowledge_def Let_def) (simp add: separated_def)

lemma complete_stream_safe: "complete_stream c e = (b, e') \<Longrightarrow> safe_step e e'"
proof (cases "eng_camera_initiated_queue e")
  case (Some q)
  let ?q = "snd (acknowledge (sc_offset c) (sc_len c) (sc_object_size c) q)"
  let ?e = "e\<lparr>eng_camera_initiated_queue := Some ?q\<rparr>"
  assume *: "complete_stream c e = (b, e')"
  show ?thesis
  proof (cases "cq_generation q \<noteq> sc_generation c \<or> queue_head q \<noteq> Some (sc_handle c)")
    case False
    then have "cq_head q < length (cq_handles q)" by (auto simp: queue_head_def split: if_split_asm)
    then have "safe_step e ?e"
      using Some acknowledge_separated [where q = q and off = "sc_offset c" and len = "sc_len c" and n = "sc_object_size c"]
      by (auto simp: safe_step_def engine_ok_def queues_ok_def)
    moreover have "e' = ?e \<or> e' = sync_camera_initiated_counts ?e"
      using * Some False by (auto simp: complete_stream_def Let_def split: prod.split_asm if_split_asm)
    ultimately show ?thesis using safe_trans sync_counts_safe by blast
  qed (use * Some in \<open>auto simp: complete_stream_def\<close>)
qed (simp add: complete_stream_def)

lemma enqueue_safe:
  "enqueue_standard_objects n e = (r, e') \<Longrightarrow> safe_step e e'"
  "preseed_standard_object_queue c n e = (r, e') \<Longrightarrow> safe_step e e'"
  "preseed_shutter_busy_responses c n e = (r', e') \<Longrightarrow> safe_step e e'"
proof -
  have *: "safe_step e (e\<lparr>eng_transfer_queue := Some q'\<rparr>)"
    if "eng_transfer_queue e = Some q" "enqueue_count n q = (k, q')" for q k q'
    using that enqueue_count_kept [of q n] by (intro safe_set_queue) auto
  show "enqueue_standard_objects n e = (r, e') \<Longrightarrow> safe_step e e'"
    "preseed_standard_object_queue c n e = (r, e') \<Longrightarrow> safe_step e e'"
    by (auto simp: enqueue_standard_objects_def preseed_standard_object_queue_def
        split: option.split_asm prod.split_asm if_split_asm intro: *)
  show "preseed_shutter_busy_responses c n e = (r', e') \<Longrightarrow> safe_step e e'"
    by (auto simp: preseed_shutter_busy_responses_def queue_kept_def
        split: option.split_asm if_split_asm intro!: safe_set_queue)
qed

lemma preseed_stale_safe: "preseed_stale_live_view_stream c e = (r, e') \<Longrightarrow> safe_step e e'"
  by (auto simp: preseed_stale_live_view_stream_def safe_other_fields split: if_split_asm)

lemma standard_handles_distinct:
  "distinct (handles st ObjectQuery_default) \<Longrightarrow> distinct (standard_object_queue_handles m st)"
  by (simp add: standard_object_queue_handles_def store_file_handles_def)

lemma configure_safe: "configure_standard_object_queue c n e = (r, e') \<Longrightarrow> safe_step e e'"
proof -
  have seeded: "safe_step e (e\<lparr>eng_transfer_queue := Some q\<rparr>)"
    if "q = startup_seeded c' (standard_object_queue_handles (eng_manifest e) (eng_store e)) \<or>
        q = shutter_seeded c' (standard_object_queue_handles (eng_manifest e) (eng_store e)) k sq" for q c' k sq
    using that queue_kept_seeded standard_handles_distinct
    by (auto simp: safe_step_def engine_ok_def queues_ok_def)
  have shutter: "safe_step e (e\<lparr>eng_transfer_queue := Some q\<rparr>)"
    if "shutter_queue e c' cn k = Inr q" for c' cn k q
    using that by (auto simp: shutter_queue_def ok_or_def split: option.split_asm if_split_asm intro: seeded)
  show "configure_standard_object_queue c n e = (r, e') \<Longrightarrow> safe_step e e'"
    unfolding configure_standard_object_queue_def
    by (auto split: option.split_asm if_split_asm sum.split_asm intro: seeded shutter)
qed

lemma next_enum_safe: "advance_property_to_next_enum code e = (r, e') \<Longrightarrow> safe_step e e'"
proof -
  have stores: "safe_step e (modify_state (arm_effect code (vs ! (Suc i mod length vs)) 0) e)"
    if p: "property (eng_manifest e) code = Some p" and ne: "vs \<noteq> []"
      and vs: "collect_options (map (typed_descriptor_value (datatype_of (pr_ptype p))) ds) = Some vs"
    for p ds vs i
  proof -
    have l: "list_all2 (\<lambda>x y. typed_descriptor_value (datatype_of (pr_ptype p)) x = Some y) ds vs"
      using collect_options_map [OF vs] .
    have "Suc i mod length vs < length vs" using ne by simp
    then have "typed_descriptor_value (datatype_of (pr_ptype p)) (ds ! (Suc i mod length vs))
        = Some (vs ! (Suc i mod length vs))"
      using list_all2_nthD2 [OF l] by blast
    then have "value_typed (eng_manifest e) code (vs ! (Suc i mod length vs))"
      using p typed_descriptor_code by (auto simp: value_typed_def)
    then show ?thesis by (intro safe_modify_state arm_effect_typed)
  qed
  show "advance_property_to_next_enum code e = (r, e') \<Longrightarrow> safe_step e e'"
    unfolding advance_property_to_next_enum_def Let_def
    by (auto split: option.split_asm if_split_asm list.split_asm intro: stores [where vs = "v # vs" for v vs, simplified])
qed

lemma responder_safe: "apply_responder_mutation mu e = Some (r, e') \<Longrightarrow> safe_step e e'"
proof (cases mu)
  case (PR_EnqueueObjects n k)
  have events: "safe_step e2 (modify_state (push_object_events j q) e2)" for e2 j q
    by (rule safe_modify_frame) simp_all
  assume "apply_responder_mutation mu e = Some (r, e')"
  then show ?thesis
    using PR_EnqueueObjects enqueue_safe(1) [of n e]
    by (auto split: prod.split_asm sum.split_asm option.split_asm if_split_asm
        intro: safe_trans [OF _ events])
next
  case (PR_PropertyTransition t)
  let ?ty = "case property (eng_manifest e) (pp_target t) of None \<Rightarrow> None | Some p \<Rightarrow> pr_ptype p"
  have vt: "property_transition_value ?ty x = Some v \<Longrightarrow> value_typed (eng_manifest e) (pp_target t) v" for x v
    by (simp add: value_typed_def property_transition_code)
  have s: "property_transition_value ?ty x = Some v \<Longrightarrow>
      safe_step e (modify_state (set_value (pp_target t) v) e)" for x v
    by (intro safe_modify_state set_value_typed) (simp_all add: vt)
  have a: "property_transition_value ?ty x = Some v \<Longrightarrow> eng_manifest e2 = eng_manifest e \<Longrightarrow>
      safe_step e2 (modify_state (arm_effect (pp_target t) v k) e2)" for x v k e2
    by (intro safe_modify_state arm_effect_typed) (simp_all add: vt)
  assume "apply_responder_mutation mu e = Some (r, e')"
  then show ?thesis
    using PR_PropertyTransition
    by (auto simp: Let_def split: option.split_asm intro: a intro!: safe_trans [OF s a])
qed

end
