(* ===== verification/State_Overlay.thy ===== *)
theory State_Overlay
  imports Engine_Safety
begin

text \<open>
  State overlays (\<^verbatim>\<open>crates/camera-sim/src/state_overlay.rs\<close> and
  \<^verbatim>\<open>Engine::apply_state_overlay\<close>): a set of settings given as JSON, staged completely before
  anything is changed.

  A parsed JSON number is an integer or not; \<^verbatim>\<open>as_i64\<close> and \<^verbatim>\<open>as_u64\<close> answer for the integers of
  their ranges. \<^verbatim>\<open>i128\<close> is \<^typ>\<open>int\<close>, with the range test written out where text is parsed.
\<close>

section \<open>JSON values\<close>

datatype json =
    J_Null
  | J_Bool bool
  | J_Int int
  | J_Float
  | J_String ustring
  | J_Array
  | J_Object

datatype OverlayError =
    UnsupportedSchema ustring
  | ProfileMismatch ustring
  | ConnectionMismatch ustring
  | UnknownPhase ustring
  | InvalidPropertyCode ustring
  | PropertyNotInManifest ustring
  | NumberOutsideRange
  | ExpectedNumber
  | ValueOutside int
  | InvalidNumber ustring
  | ExpectedString
  | UnsupportedType ustring

text \<open>\<^verbatim>\<open>i128::from_str_radix\<close>, without the reason of a failure.\<close>

definition i128_from_str_radix :: "nat \<Rightarrow> ustring \<Rightarrow> int option" where
  "i128_from_str_radix radix s =
     (let magnitude = (\<lambda>hi cs. case radix_digits radix hi 0 cs of Inl _ \<Rightarrow> None | Inr n \<Rightarrow> Some (int n))
      in if s = [] \<or> s = lit ''+'' \<or> s = lit ''-'' then None
         else if hd s = 43 then magnitude (2 ^ 127 - 1) (tl s)
         else if hd s = 45 then map_option uminus (magnitude (2 ^ 127) (tl s))
         else magnitude (2 ^ 127 - 1) s)"

definition parse_numeric_string :: "ustring \<Rightarrow> OverlayError + int" where
  "parse_numeric_string s =
     ok_or
       (case (case strip_prefix (lit ''0x'') s of
                Some hex \<Rightarrow> Some hex | None \<Rightarrow> strip_prefix (lit ''0X'') s) of
          Some hex \<Rightarrow> i128_from_str_radix 16 hex
        | None \<Rightarrow> i128_from_str_radix 10 s)
       (InvalidNumber s)"

definition checked_numeric :: "json \<Rightarrow> int \<Rightarrow> int \<Rightarrow> OverlayError + int" where
  "checked_numeric v lo hi =
     res_bind
       (case v of
          J_Int n \<Rightarrow> if - (2 ^ 63) \<le> n \<and> n < 2 ^ 64 then Inr n else Inl NumberOutsideRange
        | J_Float \<Rightarrow> Inl NumberOutsideRange
        | J_String s \<Rightarrow> parse_numeric_string s
        | _ \<Rightarrow> Inl ExpectedNumber)
       (\<lambda>raw. if raw < lo \<or> hi < raw then Inl (ValueOutside raw) else Inr raw)"

definition checked_as :: "json \<Rightarrow> int \<Rightarrow> int \<Rightarrow> (int \<Rightarrow> PropValue) \<Rightarrow> OverlayError + PropValue" where
  "checked_as v lo hi f = res_bind (checked_numeric v lo hi) (\<lambda>x. Inr (f x))"

definition prop_value_from_json :: "ustring option \<Rightarrow> json \<Rightarrow> OverlayError + PropValue" where
  "prop_value_from_json ty v =
     (if ty = Some (lit ''i8'') then checked_as v (- (2 ^ 7)) (2 ^ 7 - 1) (\<lambda>x. PV_I8 (word_of_int x))
      else if ty = Some (lit ''i16'') then checked_as v (- (2 ^ 15)) (2 ^ 15 - 1) (\<lambda>x. PV_I16 (word_of_int x))
      else if ty = Some (lit ''i32'') then checked_as v (- (2 ^ 31)) (2 ^ 31 - 1) (\<lambda>x. PV_I32 (word_of_int x))
      else if ty = Some (lit ''i64'') then checked_as v (- (2 ^ 63)) (2 ^ 63 - 1) (\<lambda>x. PV_I64 (word_of_int x))
      else if ty = Some (lit ''u8'') then checked_as v 0 (2 ^ 8 - 1) (\<lambda>x. PV_U8 (word_of_int x))
      else if ty = Some (lit ''u16'') \<or> ty = None then checked_as v 0 (2 ^ 16 - 1) (\<lambda>x. PV_U16 (word_of_int x))
      else if ty = Some (lit ''u32'') then checked_as v 0 (2 ^ 32 - 1) (\<lambda>x. PV_U32 (word_of_int x))
      else if ty = Some (lit ''u64'') then checked_as v 0 (2 ^ 64 - 1) (\<lambda>x. PV_U64 (word_of_int x))
      else if ty = Some (lit ''str'')
      then (case v of J_String s \<Rightarrow> Inr (PV_Str s) | _ \<Rightarrow> Inl ExpectedString)
      else Inl (UnsupportedType (the ty)))"

section \<open>Overlays\<close>

record StateOverlay =
  so_schema :: "ustring option"
  so_profile :: "ustring option"
  so_connection :: "ustring option"
  so_phase :: "ustring option"
  so_session_open :: "bool option"
  so_transfer_active :: "bool option"   \<comment> \<open>\<^verbatim>\<open>camera_initiated_transfer_active\<close>\<close>
  so_props :: "(ustring \<times> json) list"
  so_ap_act_short_latch :: "bool option"
  so_ap_held_term :: "bool option"
  so_aux_descriptor_budget :: "nat option"
  so_aux_reset :: "bool option"

record AppliedStateOverlay =
  ao_props :: nat
  ao_phase :: bool
  ao_session_open :: bool
  ao_transfer_active :: bool
  ao_ap_act_short_latch :: bool
  ao_ap_held_term :: bool
  ao_aux_descriptor_budget :: bool
  ao_aux_reset :: bool

definition STARTUP_STATE_SCHEMA :: ustring where
  "STARTUP_STATE_SCHEMA = lit ''ptpsim-startup-state/v1''"

definition STATE_OVERLAY_SCHEMA :: ustring where
  "STATE_OVERLAY_SCHEMA = lit ''ptpsim-state-overlay/v1''"

definition validate_context :: "StateOverlay \<Rightarrow> ustring \<Rightarrow> ustring \<Rightarrow> OverlayError + unit" where
  "validate_context ov profile connection =
     res_bind
       (case so_schema ov of
          None \<Rightarrow> Inr ()
        | Some s \<Rightarrow> if s \<noteq> STARTUP_STATE_SCHEMA \<and> s \<noteq> STATE_OVERLAY_SCHEMA
                    then Inl (UnsupportedSchema s) else Inr ()) (\<lambda>_.
     res_bind
       (case so_profile ov of
          None \<Rightarrow> Inr ()
        | Some expected \<Rightarrow> if expected \<noteq> profile then Inl (ProfileMismatch expected) else Inr ()) (\<lambda>_.
       (case so_connection ov of
          None \<Rightarrow> Inr ()
        | Some expected \<Rightarrow> if expected \<noteq> connection then Inl (ConnectionMismatch expected) else Inr ())))"

record StagedOverlay =
  sg_phase :: "Phase option"
  sg_session_open :: "bool option"
  sg_transfer_active :: "bool option"
  sg_props :: "(u16 \<times> PropValue) list"
  sg_applied :: AppliedStateOverlay

definition stage_property :: "CameraManifest \<Rightarrow> ustring \<times> json \<Rightarrow> OverlayError + u16 \<times> PropValue" where
  "stage_property m kv =
     res_bind (ok_or (parse_hex_code (fst kv)) (InvalidPropertyCode (fst kv))) (\<lambda>code.
     res_bind (ok_or (property m code) (PropertyNotInManifest (fst kv))) (\<lambda>p.
     res_bind (prop_value_from_json (pr_ptype p) (snd kv)) (\<lambda>v. Inr (code, v))))"

fun stage_properties ::
  "CameraManifest \<Rightarrow> (ustring \<times> json) list \<Rightarrow> OverlayError + (u16 \<times> PropValue) list" where
  "stage_properties m [] = Inr []"
| "stage_properties m (kv # kvs) =
     res_bind (stage_property m kv) (\<lambda>x. res_bind (stage_properties m kvs) (\<lambda>xs. Inr (x # xs)))"

definition from_overlay :: "CameraManifest \<Rightarrow> StateOverlay \<Rightarrow> OverlayError + StagedOverlay" where
  "from_overlay m ov =
     res_bind
       (case so_phase ov of
          None \<Rightarrow> Inr None
        | Some n \<Rightarrow> res_bind (ok_or (from_state_name n) (UnknownPhase n)) (\<lambda>ph. Inr (Some ph))) (\<lambda>phase.
     res_bind (stage_properties m (so_props ov)) (\<lambda>props.
       Inr \<lparr>sg_phase = phase, sg_session_open = so_session_open ov,
            sg_transfer_active = so_transfer_active ov, sg_props = props,
            sg_applied = \<lparr>ao_props = length props, ao_phase = (phase \<noteq> None),
              ao_session_open = (so_session_open ov \<noteq> None),
              ao_transfer_active = (so_transfer_active ov \<noteq> None),
              ao_ap_act_short_latch = (so_ap_act_short_latch ov \<noteq> None),
              ao_ap_held_term = (so_ap_held_term ov \<noteq> None),
              ao_aux_descriptor_budget = (so_aux_descriptor_budget ov \<noteq> None),
              ao_aux_reset = (so_aux_reset ov \<noteq> None)\<rparr>\<rparr>))"

definition overlay_phase :: "Phase option \<Rightarrow> CameraState \<Rightarrow> CameraState" where
  "overlay_phase ph s =
     (case ph of None \<Rightarrow> s | Some p \<Rightarrow> reset_gates (s\<lparr>cs_phase := p, cs_active_mode := None\<rparr>))"

definition overlay_session :: "bool option \<Rightarrow> CameraState \<Rightarrow> CameraState" where
  "overlay_session b s = (case b of None \<Rightarrow> s | Some x \<Rightarrow> s\<lparr>cs_session_open := x\<rparr>)"

definition apply_overlay ::
  "CameraManifest \<Rightarrow> StateOverlay \<Rightarrow> CameraState \<times> bool \<Rightarrow>
   (OverlayError + AppliedStateOverlay) \<times> CameraState \<times> bool" where
  "apply_overlay m ov x =
     (case from_overlay m ov of
        Inl err \<Rightarrow> (Inl err, x)
      | Inr sg \<Rightarrow>
          (Inr (sg_applied sg),
           fold (\<lambda>(code, v). set_value code v) (sg_props sg)
             (overlay_session (sg_session_open sg) (overlay_phase (sg_phase sg) (fst x))),
           (case sg_transfer_active sg of None \<Rightarrow> snd x | Some b \<Rightarrow> b)))"

definition apply_state_overlay ::
  "StateOverlay \<Rightarrow> Engine \<Rightarrow> (OverlayError + AppliedStateOverlay) \<times> Engine" where
  "apply_state_overlay ov e =
     (case apply_overlay (eng_manifest e) ov (eng_state e, eng_transfer_active e) of
        (Inl err, s, active) \<Rightarrow> (Inl err, e\<lparr>eng_state := s, eng_transfer_active := active\<rparr>)
      | (Inr applied, s, active) \<Rightarrow>
          (let e1 = e\<lparr>eng_state := s, eng_transfer_active := active,
                      eng_probe_armed := eng_probe_armed e \<and> active,
                      eng_ap_one_shot_latch := (case so_ap_act_short_latch ov of
                         None \<Rightarrow> eng_ap_one_shot_latch e | Some b \<Rightarrow> b),
                      eng_ap_held_term := (case so_ap_held_term ov of
                         None \<Rightarrow> eng_ap_held_term e | Some b \<Rightarrow> b)\<rparr>;
               e2 = (case so_aux_descriptor_budget ov of
                       None \<Rightarrow> e1
                     | Some budget \<Rightarrow>
                         e1\<lparr>eng_aux_budget := Some budget, eng_aux_used := min (eng_aux_used e1) budget\<rparr>);
               e3 = (if so_aux_reset ov = Some True then e2\<lparr>eng_aux_used := 0, eng_aux_managed := 0\<rparr> else e2)
           in (Inr applied, e3)))"

definition engine_take_event :: "u16 \<Rightarrow> Engine \<Rightarrow> bool \<times> Engine" where
  "engine_take_event code e = (case take_event code (eng_state e) of (b, s) \<Rightarrow> (b, e\<lparr>eng_state := s\<rparr>))"

definition engine_drain_events :: "Engine \<Rightarrow> QueuedEvent list \<times> Engine" where
  "engine_drain_events e = (case drain_events (eng_state e) of (evs, s) \<Rightarrow> (evs, e\<lparr>eng_state := s\<rparr>))"

section \<open>Overlays keep the invariant\<close>

lemma checked_as_Inr:
  "checked_as v lo hi f = Inr pv \<longleftrightarrow> (\<exists>x. checked_numeric v lo hi = Inr x \<and> pv = f x)"
  by (cases "checked_numeric v lo hi") (auto simp: checked_as_def)

lemma prop_value_from_json_code:
  assumes "prop_value_from_json ty v = Inr pv"
  shows "PropValue_datatype_code pv = datatype_of ty"
proof -
  have "ty \<in> {None, Some (lit ''i8''), Some (lit ''u8''), Some (lit ''i16''), Some (lit ''u16''),
      Some (lit ''i32''), Some (lit ''u32''), Some (lit ''i64''), Some (lit ''u64''), Some (lit ''str'')}"
    using assms by (auto simp: prop_value_from_json_def split: if_split_asm)
  then show ?thesis
    using assms
    by (elim insertE emptyE; simp add: prop_value_from_json_def datatype_of_def lit_def)
      (auto simp: checked_as_Inr split: json.split_asm)
qed

text \<open>A number is stored as it was given: the range check leaves nothing to wrap.\<close>

fun integer_of :: "PropValue \<Rightarrow> int option" where
  "integer_of (PV_I8 v) = Some (sint v)"
| "integer_of (PV_U8 v) = Some (uint v)"
| "integer_of (PV_I16 v) = Some (sint v)"
| "integer_of (PV_U16 v) = Some (uint v)"
| "integer_of (PV_I32 v) = Some (sint v)"
| "integer_of (PV_U32 v) = Some (uint v)"
| "integer_of (PV_I64 v) = Some (sint v)"
| "integer_of (PV_U64 v) = Some (uint v)"
| "integer_of _ = None"

lemma checked_as_exact:
  assumes "checked_as (J_Int n) lo hi f = Inr pv" "\<And>x. lo \<le> x \<Longrightarrow> x \<le> hi \<Longrightarrow> integer_of (f x) = Some x"
  shows "integer_of pv = Some n"
  using assms by (auto simp: checked_as_Inr checked_numeric_def split: if_split_asm)

lemma prop_value_exact:
  assumes "prop_value_from_json ty (J_Int n) = Inr pv"
  shows "integer_of pv = Some n"
  using assms unfolding prop_value_from_json_def
  by (auto split: if_split_asm elim!: checked_as_exact
      simp: signed_of_int signed_take_bit_int_eq_self unsigned_of_int take_bit_int_eq_self)

lemma stage_property_typed:
  "stage_property m kv = Inr (code, v) \<Longrightarrow> value_typed m code v"
  by (auto simp: stage_property_def value_typed_def ok_or_def res_bind_Inr_iff prop_value_from_json_code
      split: option.split_asm)

lemma stage_properties_typed:
  "stage_properties m kvs = Inr xs \<Longrightarrow> list_all (\<lambda>(code, v). value_typed m code v) xs"
proof (induction kvs arbitrary: xs)
  case (Cons kv kvs)
  then obtain x ys where x: "stage_property m kv = Inr x" "stage_properties m kvs = Inr ys" "xs = x # ys"
    by (cases "stage_property m kv"; cases "stage_properties m kvs") auto
  then show ?case
    using Cons.IH stage_property_typed [of m kv "fst x" "snd x"] by (simp add: case_prod_beta)
qed simp

lemma from_overlay_props:
  "from_overlay m ov = Inr sg \<Longrightarrow> stage_properties m (so_props ov) = Inr (sg_props sg)"
  unfolding from_overlay_def
  by (cases "stage_properties m (so_props ov)") (auto split: option.split_asm simp: ok_or_def)

lemma fold_set_typed:
  "list_all (\<lambda>(code, v). value_typed m code v) xs \<Longrightarrow> state_typed m s \<Longrightarrow>
   state_typed m (fold (\<lambda>(code, v). set_value code v) xs s)"
  by (induction xs arbitrary: s) (auto simp: set_value_typed)

lemma overlay_frame:
  "state_typed m (overlay_session b (overlay_phase ph s)) = state_typed m s"
  by (simp add: overlay_session_def overlay_phase_def state_typed_def split: option.split)

lemma apply_overlay_typed:
  assumes "apply_overlay m ov (s, a) = (r, s', a')" "state_typed m s"
  shows "state_typed m s'"
proof (cases "from_overlay m ov")
  case (Inr sg)
  then show ?thesis
    using assms stage_properties_typed [OF from_overlay_props [OF Inr]]
    by (auto simp: apply_overlay_def overlay_frame intro: fold_set_typed)
qed (use assms in \<open>simp add: apply_overlay_def\<close>)

lemma apply_state_overlay_safe: "apply_state_overlay ov e = (r, e') \<Longrightarrow> safe_step e e'"
proof -
  assume a: "apply_state_overlay ov e = (r, e')"
  obtain r0 s act where o: "apply_overlay (eng_manifest e) ov (eng_state e, eng_transfer_active e) = (r0, s, act)"
    by (metis prod.exhaust)
  have "eng_manifest e' = eng_manifest e" "eng_store e' = eng_store e" "eng_state e' = s"
    "eng_transfer_queue e' = eng_transfer_queue e" "eng_camera_initiated_queue e' = eng_camera_initiated_queue e"
    using a o by (auto simp: apply_state_overlay_def Let_def split: sum.split_asm option.split_asm if_split_asm)
  then show "safe_step e e'"
    using apply_overlay_typed [OF o] by (simp add: safe_step_def engine_ok_def queues_ok_def)
qed

text \<open>A refused overlay changes nothing, and an accepted one sets exactly what it names.\<close>

lemma apply_state_overlay_refused: "apply_state_overlay ov e = (Inl err, e') \<Longrightarrow> e' = e"
  by (auto simp: apply_state_overlay_def apply_overlay_def Let_def split: sum.split_asm)

lemma engine_events_safe:
  "engine_take_event code e = (b, e') \<Longrightarrow> safe_step e e'"
  "engine_drain_events e = (evs, e') \<Longrightarrow> safe_step e e'"
  by (auto simp: engine_take_event_def engine_drain_events_def take_event_def drain_events_def safe_step_def
      engine_ok_def queues_ok_def state_typed_def split: prod.split_asm option.split_asm if_split_asm)

end
