(* ===== verification/Engine_Run.thy ===== *)
theory Engine_Run
  imports State_Overlay
begin

text \<open>
  Runs of the responder engine: the step relation of its public mutating methods and the invariant
  of every reachable engine; that a run of requests is answered request by request; that requests
  outside a session and requests that fail leave the camera state alone; and that a written
  property is read back.
\<close>

section \<open>Steps and runs\<close>

inductive engine_step :: "file_system \<Rightarrow> Engine \<Rightarrow> Engine \<Rightarrow> bool" for fs where
  Operation: "on_operation fs req d e = Some (r, e') \<Longrightarrow> engine_step fs e e'"
| Stream: "complete_stream c e = (b, e') \<Longrightarrow> engine_step fs e e'"
| Responder: "apply_responder_mutation mu e = Some (r, e') \<Longrightarrow> engine_step fs e e'"
| NextEnum: "advance_property_to_next_enum code e = (r, e') \<Longrightarrow> engine_step fs e e'"
| Lost: "transport_lost e = Some e' \<Longrightarrow> engine_step fs e e'"
| Transition: "record_lifecycle t e = Some e' \<Longrightarrow> engine_step fs e e'"
| Bind: "engine_step fs e (bind_connection c e)"
| Overlay: "apply_state_overlay ov e = (r, e') \<Longrightarrow> engine_step fs e e'"
| Take_Event: "engine_take_event code e = (b, e') \<Longrightarrow> engine_step fs e e'"
| Drain_Events: "engine_drain_events e = (evs, e') \<Longrightarrow> engine_step fs e e'"
| Configure: "configure_standard_object_queue c n e = (r, e') \<Longrightarrow> engine_step fs e e'"
| Enqueue: "enqueue_standard_objects n e = (r, e') \<Longrightarrow> engine_step fs e e'"
| Preseed: "preseed_standard_object_queue c n e = (r, e') \<Longrightarrow> engine_step fs e e'"
| Busy: "preseed_shutter_busy_responses c n e = (r, e') \<Longrightarrow> engine_step fs e e'"
| Stale: "preseed_stale_live_view_stream c e = (r, e') \<Longrightarrow> engine_step fs e e'"
| Install: "install_fault spec e = (r, e') \<Longrightarrow> engine_step fs e e'"
| Remove: "remove_fault n e = (r, e') \<Longrightarrow> engine_step fs e e'"
| Clear: "engine_step fs e (clear_faults e)"
| Take_Fault: "take_applied_fault e = (r, e') \<Longrightarrow> engine_step fs e e'"
| Refuse: "ap_should_refuse e = (r, e') \<Longrightarrow> engine_step fs e e'"
| Leak: "aux_orphan_leak e = (r, e') \<Longrightarrow> engine_step fs e e'"
| Open: "aux_managed_open e = (r, e') \<Longrightarrow> engine_step fs e e'"
| Close: "aux_managed_close e = (r, e') \<Longrightarrow> engine_step fs e e'"
| Reset: "engine_step fs e (aux_reset_state e)"

inductive reachable :: "file_system \<Rightarrow> CameraManifest \<Rightarrow> MediaStore \<Rightarrow> Engine \<Rightarrow> bool" for fs m st where
  New: "reachable fs m st (Engine_new m st)"
| Step: "reachable fs m st e \<Longrightarrow> engine_step fs e e' \<Longrightarrow> reachable fs m st e'"

primrec run_operations ::
  "file_system \<Rightarrow> (OperationRequest \<times> bytes option) list \<Rightarrow> Engine \<Rightarrow> (Reply list \<times> Engine) option" where
  "run_operations fs [] e = Some ([], e)"
| "run_operations fs (rd # rds) e =
     (case on_operation fs (fst rd) (snd rd) e of
        None \<Rightarrow> None
      | Some (r, e') \<Rightarrow> map_option (\<lambda>(rs, e''). (r # rs, e'')) (run_operations fs rds e'))"

section \<open>Reachable engines\<close>

lemma budget_safe:
  "safe_step e (clear_faults e)" "take_applied_fault e = (a, e') \<Longrightarrow> safe_step e e'"
  "ap_should_refuse e = (p, e') \<Longrightarrow> safe_step e e'" "aux_orphan_leak e = (r, e') \<Longrightarrow> safe_step e e'"
  "aux_managed_open e = (r', e') \<Longrightarrow> safe_step e e'" "aux_managed_close e = (r, e') \<Longrightarrow> safe_step e e'"
  "safe_step e (aux_reset_state e)"
  by (auto simp: clear_faults_def take_applied_fault_def ap_should_refuse_def aux_orphan_leak_def
      aux_managed_open_def aux_managed_close_def aux_reset_state_def safe_step_def engine_ok_def queues_ok_def
      split: if_split_asm option.split_asm)

lemma engine_step_safe: "engine_step fs e e' \<Longrightarrow> safe_step e e'"
  by (induction rule: engine_step.induct)
    (auto dest: on_operation_safe complete_stream_safe responder_safe next_enum_safe transport_lost_safe
      record_lifecycle_safe configure_safe enqueue_safe preseed_stale_safe apply_state_overlay_safe
      engine_events_safe budget_safe(2-6)
      simp: bind_connection_def safe_other_fields budget_safe(1,7) install_fault_def remove_fault_def
      split: prod.split_asm)

lemma Engine_new_ok:
  assumes "distinct_codes m" "distinct (handles st ObjectQuery_default)"
  shows "engine_ok (Engine_new m st) \<and> eng_manifest (Engine_new m st) = m \<and> eng_store (Engine_new m st) = st"
proof -
  define e where "e = \<lparr>eng_manifest = m,
        eng_gate_sequences = compile_gate_sequences m @ compile_channel_sequences m,
        eng_store = st, eng_state = state_from_manifest m, eng_lifecycle = Tracker_default,
        eng_connection = DEFAULT_CONNECTION, eng_transfer_queue = None,
        eng_live_view_stream_connection = None,
        eng_camera_initiated_queue =
          (if cm_camera_initiated_transfer m = None then None
           else Some (CameraInitiatedQueue_new (camera_initiated_media_handles m st))),
        eng_transfer_active = False, eng_probe_armed = False, eng_faults = FaultSet_default,
        eng_applied_fault = None, eng_link = CameraLink_default, eng_ap_one_shot_latch = False,
        eng_ap_held_term = False, eng_aux_budget = None, eng_aux_used = 0, eng_aux_managed = 0\<rparr>"
  have "engine_ok e"
    using assms state_from_manifest_typed [of m]
    by (auto simp: e_def engine_ok_def queues_ok_def CameraInitiatedQueue_new_def separated_def)
  moreover have "Engine_new m st = sync_camera_initiated_counts e"
    by (simp only: Engine_new_def e_def)
  ultimately show ?thesis
    using sync_counts_safe [of e] by (simp add: safe_step_def) (simp add: e_def)
qed

lemma reachable_ok:
  assumes "distinct_codes m" "distinct (handles st ObjectQuery_default)" "reachable fs m st e"
  shows "engine_ok e \<and> eng_manifest e = m \<and> eng_store e = st"
  using assms(3)
proof induction
  case New
  then show ?case using Engine_new_ok assms by blast
next
  case (Step e e')
  then show ?case using engine_step_safe [of fs e e'] by (simp add: safe_step_def)
qed

section \<open>Operations return\<close>

definition lifecycle_count :: "Engine \<Rightarrow> nat" where
  "lifecycle_count e = lc_sequence (lt_snapshot (eng_lifecycle e))"

text \<open>At most one lifecycle transition was recorded.\<close>

definition one_transition :: "Engine \<Rightarrow> Engine \<Rightarrow> bool" where
  "one_transition e e' \<longleftrightarrow> lifecycle_count e' \<in> {lifecycle_count e, lifecycle_count e + 1}"

lemma lifecycle_frame [simp]:
  "eng_lifecycle (sync_camera_initiated_counts e) = eng_lifecycle e"
  "eng_lifecycle (prepare_camera_initiated_pre_mode_probe req e) = eng_lifecycle e"
  "eng_lifecycle (apply_op_effects code ps e) = eng_lifecycle e"
  "eng_lifecycle (apply_op_emits code ps e) = eng_lifecycle e"
  "eng_lifecycle (advance_transfer_queue req d e) = eng_lifecycle e"
  "eng_lifecycle (vendor_step code dir e) = eng_lifecycle e"
  "eng_lifecycle (settle_reads code e) = eng_lifecycle e"
  "eng_lifecycle (clear_session e) = eng_lifecycle e"
  by (auto simp: sync_camera_initiated_counts_def prepare_camera_initiated_pre_mode_probe_def
      apply_op_effects_def apply_op_emits_def advance_transfer_queue_def vendor_step_def settle_reads_def
      clear_session_def Let_def split: option.split)

lemma apply_successful_lifecycle [simp]:
  "eng_lifecycle (apply_successful_operation req d silent e) = eng_lifecycle e"
  by (simp add: apply_successful_operation_def Let_def)

lemma record_lifecycle_returns:
  assumes "lifecycle_count e < u64_max"
  obtains e' where "record_lifecycle t e = Some e'" "lifecycle_count e' = lifecycle_count e + 1"
    "eng_state e' = eng_state e"
  using assms
  by (auto simp: record_lifecycle_def lifecycle_count_def tracker_apply_def
      apply_connection_lifecycle_transition_def Let_def)

lemma one_transition_same: "eng_lifecycle e' = eng_lifecycle e \<Longrightarrow> one_transition e e'"
  by (simp add: one_transition_def lifecycle_count_def)

lemma lifecycle_count_state [simp]: "lifecycle_count (modify_state f e) = lifecycle_count e"
  by (simp add: lifecycle_count_def)

text \<open>What a mode refresh leaves of the camera state.\<close>

definition values_kept :: "Engine \<Rightarrow> Engine \<Rightarrow> bool" where
  "values_kept e e' \<longleftrightarrow> cs_props (eng_state e') = cs_props (eng_state e) \<and>
     cs_pending (eng_state e') = cs_pending (eng_state e) \<and>
     cs_session_open (eng_state e') = cs_session_open (eng_state e)"

lemma feature_returns:
  assumes "lifecycle_count e\<^sub>3 < u64_max" "values_kept e e\<^sub>3" "lifecycle_count e\<^sub>3 = lifecycle_count e"
  shows "\<exists>e'. (if b then record_feature_mode f e\<^sub>3 else Some e\<^sub>3) = Some e' \<and> one_transition e e' \<and>
    values_kept e e'"
proof -
  obtain e' where "record_lifecycle (case f of Some mode \<Rightarrow> FeatureEntered mode | None \<Rightarrow> FeatureExited) e\<^sub>3 = Some e'"
    "lifecycle_count e' = lifecycle_count e\<^sub>3 + 1" "eng_state e' = eng_state e\<^sub>3"
    using record_lifecycle_returns [OF assms(1)] .
  then show ?thesis
    using assms by (auto simp: record_feature_mode_def one_transition_def values_kept_def)
qed

lemma reset_gates_session [simp]: "cs_session_open (reset_gates s) = cs_session_open s"
  by (simp add: reset_gates_def)

lemma refresh_returns:
  assumes "lifecycle_count e < u64_max"
  obtains e' where "refresh_detected_mode e = Some e'" "one_transition e e'" "values_kept e e'"
proof -
  have "\<exists>e'. refresh_detected_mode e = Some e' \<and> one_transition e e' \<and> values_kept e e'"
  proof (cases "cs_active_mode (eng_state e) = detect_mode (eng_manifest e) (observed_view e)")
    case True
    then show ?thesis by (simp add: refresh_detected_mode_def Let_def one_transition_def values_kept_def)
  next
    case False
    then show ?thesis
      unfolding refresh_detected_mode_def Let_def if_not_P [OF False]
      by (intro feature_returns) (use assms in \<open>auto simp: values_kept_def split: option.split\<close>)
  qed
  then show ?thesis using that by blast
qed

lemma set_prop_returns:
  assumes "lifecycle_count e < u64_max"
  shows "\<exists>r e'. set_prop tid code d e = Some (r, e') \<and> one_transition e e'"
proof -
  have "\<exists>r e'. map_option (\<lambda>e'. (ok_reply tid, e')) (refresh_detected_mode (modify_state f e)) = Some (r, e')
      \<and> one_transition e e'" for f
    by (rule refresh_returns [of "modify_state f e"]) (use assms in \<open>auto simp: one_transition_def\<close>)
  then show ?thesis
    by (auto simp: set_prop_def Let_def one_transition_same split: option.split sum.split)
qed

lemma session_returns:
  assumes "lifecycle_count e < u64_max"
  shows "\<exists>r e'. open_session req e = Some (r, e') \<and> one_transition e e'"
    and "\<exists>r e'. close_session req e = Some (r, e') \<and> one_transition e e'"
proof -
  let ?o = "(modify_state (\<lambda>s. (reset_gates s)\<lparr>cs_active_mode := None, cs_session_open := True,
              cs_phase := SessionOpen\<rparr>) e)\<lparr>eng_probe_armed := False\<rparr>"
  have c: "lifecycle_count ?o = lifecycle_count e" by (simp add: lifecycle_count_def)
  then have "lifecycle_count ?o < u64_max" using assms by simp
  then obtain e' where "record_lifecycle PtpSessionOpened ?o = Some e'" "lifecycle_count e' = lifecycle_count e + 1"
    using record_lifecycle_returns [of ?o PtpSessionOpened] c by metis
  then show "\<exists>r e'. open_session req e = Some (r, e') \<and> one_transition e e'"
    by (auto simp: open_session_def Let_def one_transition_def)
  obtain e2 where "record_lifecycle PtpSessionClosed e = Some e2" "lifecycle_count e2 = lifecycle_count e + 1"
    using record_lifecycle_returns [OF assms] by metis
  then show "\<exists>r e'. close_session req e = Some (r, e') \<and> one_transition e e'"
    by (auto simp: close_session_def one_transition_def lifecycle_count_def)
qed

lemma handler_lifecycle:
  "eng_lifecycle (snd (snd (get_prop_value tid code e))) = eng_lifecycle e"
  "eng_lifecycle (snd (delete_object req e)) = eng_lifecycle e"
  "eng_lifecycle (snd (initiate_open_capture req e)) = eng_lifecycle e"
  "eng_lifecycle (snd (terminate_open_capture req e)) = eng_lifecycle e"
  "eng_lifecycle (snd (dispatch_manifest_op tid c ps e)) = eng_lifecycle e"
  by (auto simp: get_prop_value_def delete_object_def initiate_open_capture_def terminate_open_capture_def
      dispatch_manifest_op_def Let_def split: option.split prod.split bool.split sum.split OperationHandler.split)

lemma handle_operation_returns:
  assumes "lifecycle_count e < u64_max"
  shows "\<exists>b r e'. handle_operation fs req d e = Some (b, r, e') \<and> one_transition e e'"
proof -
  define ok where "ok x \<longleftrightarrow> (\<exists>b r e'. x = Some (b, r, e') \<and> one_transition e e')"
    for x :: "(bool \<times> Reply \<times> Engine) option"
  have pure: "eng_lifecycle (snd x) = eng_lifecycle e \<Longrightarrow> ok (Some (b, x))" for b x
    unfolding ok_def by (cases x) (simp add: one_transition_same)
  have early: "eng_lifecycle (snd (snd x)) = eng_lifecycle e \<Longrightarrow> ok (Some x)" for x
    unfolding ok_def by (cases x) (simp add: one_transition_same)
  have session: "\<exists>r e'. y = Some (r, e') \<and> one_transition e e' \<Longrightarrow> ok (map_option (Pair b) y)" for b y
    unfolding ok_def by auto
  have "ok (handle_operation fs req d e)"
    unfolding handle_operation_def Let_def finished_def
    using session_returns [OF assms] set_prop_returns [OF assms]
    by (simp add: session pure early handler_lifecycle)
  then show ?thesis unfolding ok_def .
qed

lemma reply_lifecycle:
  "shutter_busy_reply req e = Some (r, e') \<Longrightarrow> eng_lifecycle e' = eng_lifecycle e"
  "camera_initiated_operation_reply req e = Some (r, e') \<Longrightarrow> eng_lifecycle e' = eng_lifecycle e"
  by (auto simp: shutter_busy_reply_def camera_initiated_operation_reply_def Let_def
      split: if_split_asm option.split_asm)

lemma dispatch_operation_returns:
  assumes "lifecycle_count e < u64_max"
  shows "\<exists>r e'. dispatch_operation fs req d e = Some (r, e') \<and> one_transition e e'"
proof -
  let ?e = "prepare_camera_initiated_pre_mode_probe req e"
  obtain b r e' where "handle_operation fs req d ?e = Some (b, r, e')" "one_transition ?e e'"
    using handle_operation_returns [of ?e fs req d] assms by (auto simp: lifecycle_count_def)
  moreover have "one_transition ?e x \<longleftrightarrow> one_transition e x" for x
    by (simp add: one_transition_def lifecycle_count_def)
  ultimately show ?thesis
    unfolding dispatch_operation_def Let_def complete_operation_def
    using reply_lifecycle [of req ?e]
    by (auto simp: one_transition_same one_transition_def lifecycle_count_def split: option.split)
qed

lemma on_operation_returns:
  assumes "lifecycle_count e < u64_max"
  shows "\<exists>r e'. on_operation fs req d e = Some (r, e') \<and> one_transition e e'"
proof -
  obtain a f mu f' where
    f: "apply_fault (oreq_code req) (oreq_params req) (eng_faults e) = (a, f)" "take_applied_mutation f = (mu, f')"
    by (metis prod.exhaust)
  let ?e = "e\<lparr>eng_faults := f'\<rparr>"
  obtain r e' where d: "dispatch_operation fs req d ?e = Some (r, e')" "one_transition ?e e'"
    using dispatch_operation_returns [of ?e fs req d] assms by (auto simp: lifecycle_count_def)
  then have "\<exists>r2 e2. (case mu of
                     Some (FailResponse c) \<Rightarrow> Some (err_reply (oreq_transaction_id req) c, ?e)
                   | Some (Close FS_Command) \<Rightarrow> Some (CloseReply, ?e)
                   | _ \<Rightarrow> dispatch_operation fs req d ?e) = Some (r2, e2) \<and> one_transition e e2"
    by (auto simp: one_transition_def lifecycle_count_def
        split: option.split FaultMutation.split FaultStage.split)
  then show ?thesis
    using f by (auto simp: on_operation_def Let_def one_transition_def lifecycle_count_def)
qed

section \<open>Failed operations\<close>

lemma reply_is_ok_simps [simp]:
  "reply_is_ok (err_reply tid c) \<longleftrightarrow> c = OK" "reply_is_ok (ok_reply tid)"
  "reply_is_ok (data_reply tid bs)" "reply_is_ok (data_stream tid src)"
  by (simp_all add: err_reply_def ok_reply_def data_reply_def data_stream_def response_def)

text \<open>What a client can observe of the engine, apart from replies: the camera state, the lifecycle,
  and the objects offered by the two queues.\<close>

definition observable ::
  "Engine \<Rightarrow> CameraState \<times> ConnectionLifecycleTracker \<times> (u32 set \<times> nat) option \<times> CameraInitiatedQueue option"
  where
  "observable e = (eng_state e, eng_lifecycle e,
     map_option (\<lambda>q. (tq_available q, tq_completed q)) (eng_transfer_queue e), eng_camera_initiated_queue e)"

lemma observable_frame [simp]:
  "observable (e\<lparr>eng_probe_armed := b\<rparr>) = observable e"
  "observable (e\<lparr>eng_faults := f\<rparr>) = observable e"
  "observable (e\<lparr>eng_applied_fault := a\<rparr>) = observable e"
  "observable (prepare_camera_initiated_pre_mode_probe req e) = observable e"
  by (simp_all add: observable_def prepare_camera_initiated_pre_mode_probe_def split: option.split)

lemma failed_handlers:
  "set_prop tid code d e = Some (r, e') \<Longrightarrow> \<not> reply_is_ok r \<Longrightarrow> e' = e"
  "open_session req e = Some (r, e') \<Longrightarrow> \<not> reply_is_ok r \<Longrightarrow> e' = e"
  "close_session req e = Some (r, e') \<Longrightarrow> \<not> reply_is_ok r \<Longrightarrow> e' = e"
  "delete_object req e = (r, e') \<Longrightarrow> \<not> reply_is_ok r \<Longrightarrow> e' = e"
  "initiate_open_capture req e = (r, e') \<Longrightarrow> \<not> reply_is_ok r \<Longrightarrow> e' = e"
  "terminate_open_capture req e = (r, e') \<Longrightarrow> \<not> reply_is_ok r \<Longrightarrow> e' = e"
  "dispatch_manifest_op tid c ps e = (r, e') \<Longrightarrow> \<not> reply_is_ok r \<Longrightarrow> e' = e"
  by (auto simp: set_prop_def open_session_def close_session_def delete_object_def initiate_open_capture_def
      terminate_open_capture_def dispatch_manifest_op_def Let_def
      split: if_split_asm option.split_asm sum.split_asm prod.split_asm bool.split_asm
        OperationHandler.split_asm)

lemma failed_handle_operation:
  "handle_operation fs req d e = Some (b, r, e') \<Longrightarrow> \<not> reply_is_ok r \<Longrightarrow>
   oreq_code req \<noteq> GET_DEVICE_PROP_VALUE \<Longrightarrow> e' = e"
  unfolding handle_operation_def Let_def finished_def
  by (auto split: if_split_asm dest: failed_handlers)

lemma failed_replies:
  "shutter_busy_reply req e = Some (r, e') \<Longrightarrow> observable e' = observable e"
  "camera_initiated_operation_reply req e = Some (r, e') \<Longrightarrow> observable e' = observable e"
  by (auto simp: shutter_busy_reply_def camera_initiated_operation_reply_def observable_def Let_def
      split: if_split_asm option.split_asm)

lemma failed_dispatch:
  assumes "dispatch_operation fs req d e = Some (r, e')" "\<not> reply_is_ok r"
    "oreq_code req \<noteq> GET_DEVICE_PROP_VALUE"
  shows "observable e' = observable e"
proof -
  let ?e = "prepare_camera_initiated_pre_mode_probe req e"
  have "observable e' = observable ?e"
    using assms unfolding dispatch_operation_def Let_def complete_operation_def
    by (auto split: if_split_asm option.split_asm prod.split_asm
        dest: failed_replies failed_handle_operation)
  then show ?thesis by simp
qed

section \<open>Written values\<close>

text \<open>An operation the manifest attaches nothing to, and a property that is stored as it is written.\<close>

definition plain_operation :: "CameraManifest \<Rightarrow> u16 \<Rightarrow> bool" where
  "plain_operation m code \<longleftrightarrow>
     (case operation m code of None \<Rightarrow> True | Some opn \<Rightarrow> op_effects opn = [] \<and> op_dispositions opn = []) \<and>
     \<not> names_operation (map_option ct_metadata_operation (cm_camera_initiated_transfer m)) code \<and>
     \<not> names_operation (map_option ct_data_operation (cm_camera_initiated_transfer m)) code"

definition plain_property :: "Property \<Rightarrow> bool" where
  "plain_property p \<longleftrightarrow>
     pr_payload p = None \<and> pr_computed p = None \<and> pr_dispositions p = [] \<and> pr_value_profiles p = []"

lemma prepare_frame [simp]:
  "eng_manifest (prepare_camera_initiated_pre_mode_probe req e) = eng_manifest e"
  "eng_state (prepare_camera_initiated_pre_mode_probe req e) = eng_state e"
  by (simp_all add: prepare_camera_initiated_pre_mode_probe_def split: option.split)

lemma dispatch_plain:
  assumes "dispatch_operation fs req d e = Some (r, e')" "plain_operation (eng_manifest e) (oreq_code req)"
    "oreq_code req \<noteq> INITIATE_CAPTURE" "reply_is_ok r"
  obtains b e2 where "handle_operation fs req d (prepare_camera_initiated_pre_mode_probe req e) = Some (b, r, e2)"
    "e' = (if b then e2 else apply_successful_operation req d False e2)"
proof -
  have "\<not> operation_is_silent e (oreq_code req)"
    using assms(2) by (simp add: operation_is_silent_def plain_operation_def split: option.split_asm)
  moreover have "shutter_busy_reply req (prepare_camera_initiated_pre_mode_probe req e) = None"
    using assms(3) by (simp add: shutter_busy_reply_def)
  moreover have "camera_initiated_operation_reply req (prepare_camera_initiated_pre_mode_probe req e) = None"
    using assms(2) by (simp add: camera_initiated_operation_reply_def plain_operation_def Let_def)
  moreover have "x \<noteq> OK" if "operation_availability_error e2 c = Some x" for e2 c x
    using that by (auto simp: operation_availability_error_def availability_response_def
        split: option.split_asm Availability.split_asm)
  ultimately show ?thesis
    using assms(1,4) that unfolding dispatch_operation_def Let_def
    by (auto simp: operation_gate_reply_def availability_refusal_def complete_operation_def
        split: if_split_asm option.split_asm prod.split_asm)
qed

lemma apply_plain:
  assumes "plain_operation (eng_manifest e) (oreq_code req)"
  shows "cs_props (eng_state (apply_successful_operation req d s e)) = cs_props (eng_state e)"
    "cs_pending (eng_state (apply_successful_operation req d s e)) = cs_pending (eng_state e)"
    "eng_manifest (apply_successful_operation req d s e) = eng_manifest e"
proof -
  have adv: "cs_props (eng_state (advance_transfer_queue req d x)) = cs_props (eng_state x)"
    "cs_pending (eng_state (advance_transfer_queue req d x)) = cs_pending (eng_state x)" for x
    by (auto simp: advance_transfer_queue_def Let_def split: option.split)
  have emits: "cs_props (eng_state (apply_op_emits c ps x)) = cs_props (eng_state x)"
    "cs_pending (eng_state (apply_op_emits c ps x)) = cs_pending (eng_state x)" for c ps x
    by (auto simp: apply_op_emits_def fold_frame split: option.split)
  have eff: "eng_manifest x = eng_manifest e \<Longrightarrow>
      eng_state (apply_op_effects (oreq_code req) ps x) = eng_state x" for ps x
    using assms by (auto simp: apply_op_effects_def plain_operation_def List.map_filter_simps split: option.split)
  show "cs_props (eng_state (apply_successful_operation req d s e)) = cs_props (eng_state e)"
    "cs_pending (eng_state (apply_successful_operation req d s e)) = cs_pending (eng_state e)"
    unfolding apply_successful_operation_def Let_def by (simp_all add: adv emits eff)
  show "eng_manifest (apply_successful_operation req d s e) = eng_manifest e"
    using apply_successful_operation_safe by (simp add: safe_step_def)
qed

lemma widened_code: "ucast (ucast (code :: u16) :: u32) = code"
  by (rule bit_word_eqI) (simp add: bit_simps)

lemma set_prop_stores:
  assumes "set_prop tid code d e = Some (r, e')" "reply_is_ok r" "property (eng_manifest e) code = Some p"
    "plain_property p" "lifecycle_count e < u64_max"
  obtains bs v where "d = Some bs" "run_rd (PropValue_decode (datatype_of (pr_ptype p))) bs = Inr v"
    "cs_props (eng_state e') code = Some v" "cs_pending (eng_state e') = cs_pending (eng_state e)"
    "eng_manifest e' = eng_manifest e"
proof -
  let ?dt = "datatype_of (pr_ptype p)"
  obtain bs v where v: "d = Some bs" "run_rd (PropValue_decode ?dt) bs = Inr v"
      "refresh_detected_mode (modify_state (set_value code (normalized_property_write e code ?dt v)) e) = Some e'"
    using assms(1-4)
    by (auto simp: set_prop_def Let_def plain_property_def property_is_write_silent_def
        LIVE_VIEW_ARMING_BLOCKED_def split: if_split_asm option.split_asm sum.split_asm)
  have "value_profile_for (eng_manifest e) code c md = None" for c md
    using assms(3,4) by (simp add: value_profile_for_def plain_property_def property_value_profile_for_def)
  then have n: "normalized_property_write e code ?dt v = v"
    by (simp add: normalized_property_write_def split: option.split)
  let ?e = "modify_state (set_value code v) e"
  obtain e2 where "refresh_detected_mode ?e = Some e2" "values_kept ?e e2"
    using refresh_returns [of ?e] assms(5) by auto
  then have "values_kept ?e e'" using v(3) n by simp
  moreover have "eng_manifest e' = eng_manifest e"
    using refresh_detected_mode_safe [OF v(3)] by (simp add: safe_step_def)
  ultimately show ?thesis
    using that [OF v(1,2)] by (simp add: values_kept_def set_value_def)
qed

lemma get_prop_value_stored:
  assumes "get_prop_value tid code e = (b, Data out resp, e')" "property (eng_manifest e) code = Some p"
    "plain_property p" "cs_props (eng_state e) code = Some v" "cs_pending (eng_state e) code = None"
  shows "out = written (PropValue_encode v)"
proof -
  have c: "computed_property_reply x tid code = None" if "eng_manifest x = eng_manifest e" for x
    using assms(2,3) that by (simp add: computed_property_reply_def plain_property_def)
  have pl: "payload_of (eng_manifest e) code = None"
    using assms(2,3) by (simp add: payload_of_def plain_property_def)
  then have "eng_state (settle_reads code e) = eng_state e" "eng_manifest (settle_reads code e) = eng_manifest e"
    using assms(5) by (simp_all add: settle_reads_def resolve_pending_def)
  then have "stored_value_reply tid code (settle_reads code e) = Data out resp"
    using assms(1) pl
    by (auto simp: get_prop_value_def property_gate_reply_def c Let_def err_reply_def
        split: option.split_asm if_split_asm)
  then show ?thesis
    using assms(4) \<open>eng_state (settle_reads code e) = eng_state e\<close>
    by (simp add: stored_value_reply_def data_reply_def)
qed

text \<open>A session on a camera with one writable property, at the request level.\<close>

definition sample_request :: "u16 \<Rightarrow> u32 list \<Rightarrow> OperationRequest" where
  "sample_request code ps =
     \<lparr>oreq_data_phase_info = 1, oreq_code = code, oreq_transaction_id = 7, oreq_params = ps\<rparr>"

definition sample_engine :: Engine where
  "sample_engine = Engine_new sample_manifest (fst (scan []))"

definition sample_session :: Engine where
  "sample_session = modify_state (\<lambda>s. s\<lparr>cs_session_open := True\<rparr>) sample_engine"

section \<open>Properties\<close>



text \<open>C3: every request is answered. As long as the lifecycle sequence number has room for one
  transition per request, a run of requests with any contents and any faults installed returns a
  reply for each of them without panicking.\<close>
theorem requests_are_answered:
  assumes "lifecycle_count e + length rds \<le> u64_max"
  shows "\<exists>rs e'. run_operations fs rds e = Some (rs, e') \<and> length rs = length rds \<and>
    lifecycle_count e' \<le> lifecycle_count e + length rds"
  using assms
proof (induction rds arbitrary: e)
  case (Cons rd rds)
  then obtain r e1 where s: "on_operation fs (fst rd) (snd rd) e = Some (r, e1)" "one_transition e e1"
    using on_operation_returns [of e fs "fst rd" "snd rd"] by auto
  then have "lifecycle_count e1 + length rds \<le> u64_max"
    using Cons.prems by (auto simp: one_transition_def)
  from Cons.IH [OF this] s show ?case
    by (fastforce simp: one_transition_def)
qed simp

theorem requests_are_answered_witness:
  "\<exists>rs e'. run_operations (\<lambda>_. None)
       [(sample_request OPEN_SESSION [1], None), (sample_request SET_DEVICE_PROP_VALUE [0xd212], Some [3]),
        (sample_request CLOSE_SESSION [], None)] sample_engine = Some (rs, e') \<and> length rs = 3"
proof -
  have "lifecycle_count sample_engine = 0" by code_simp
  then show ?thesis
    using requests_are_answered [of sample_engine "[(sample_request OPEN_SESSION [1], None),
        (sample_request SET_DEVICE_PROP_VALUE [0xd212], Some [3]), (sample_request CLOSE_SESSION [], None)]"
        "\<lambda>_. None"]
    by (auto simp del: run_operations.simps)
qed

text \<open>C4: an operation that is not answered with success leaves no trace. Whatever the request other
  than a property read (which counts down a pending change), if the reply is an error, or there is
  none, then the camera state, the lifecycle, the objects on offer and the camera-initiated queue are
  what they were.\<close>
theorem failed_operation_leaves_no_trace:
  assumes "dispatch_operation fs req d e = Some (r, e')" "\<not> reply_is_ok r"
    "oreq_code req \<noteq> GET_DEVICE_PROP_VALUE"
  shows "eng_state e' = eng_state e \<and> eng_lifecycle e' = eng_lifecycle e
    \<and> map_option tq_available (eng_transfer_queue e') = map_option tq_available (eng_transfer_queue e)
    \<and> eng_camera_initiated_queue e' = eng_camera_initiated_queue e"
  using failed_dispatch [OF assms]
  by (cases "eng_transfer_queue e"; cases "eng_transfer_queue e'") (auto simp: observable_def)

theorem failed_operation_leaves_no_trace_witness:
  "\<exists>e'. dispatch_operation (\<lambda>_. None) (sample_request SET_DEVICE_PROP_VALUE [0xd212]) (Some [3]) sample_session
       = Some (err_reply 7 INVALID_PARAMETER, e') \<and> eng_state e' = eng_state sample_session"
proof -
  let ?x = "dispatch_operation (\<lambda>_. None) (sample_request SET_DEVICE_PROP_VALUE [0xd212]) (Some [3]) sample_session"
  have "map_option fst ?x = Some (err_reply 7 INVALID_PARAMETER)" by code_simp
  then obtain e' where e': "?x = Some (err_reply 7 INVALID_PARAMETER, e')" by auto
  then show ?thesis
    using failed_operation_leaves_no_trace [OF e'] by (simp add: sample_request_def)
qed

text \<open>C5: without an open session only OpenSession and GetDeviceInfo are served. Every other request
  returns with the camera state, the lifecycle and both queues unchanged, whatever faults are
  installed, and when no fault rule fires its reply is Session Not Open.\<close>
theorem no_session_no_effect:
  assumes "\<not> cs_session_open (eng_state e)" "oreq_code req \<noteq> OPEN_SESSION" "oreq_code req \<noteq> GET_DEVICE_INFO"
  shows "\<exists>r e'. on_operation fs req d e = Some (r, e') \<and> eng_state e' = eng_state e
    \<and> eng_lifecycle e' = eng_lifecycle e \<and> eng_transfer_queue e' = eng_transfer_queue e
    \<and> eng_camera_initiated_queue e' = eng_camera_initiated_queue e
    \<and> (fst (take_applied_mutation (snd (apply_fault (oreq_code req) (oreq_params req) (eng_faults e)))) = None
        \<longrightarrow> r = err_reply (oreq_transaction_id req) SESSION_NOT_OPEN)"
proof -
  have "dispatch_operation fs req d x =
      Some (err_reply (oreq_transaction_id req) SESSION_NOT_OPEN, prepare_camera_initiated_pre_mode_probe req x)"
    if "eng_state x = eng_state e" for x
    using assms that by (simp add: dispatch_operation_def Let_def)
  moreover have "eng_transfer_queue (prepare_camera_initiated_pre_mode_probe req x) = eng_transfer_queue x"
    "eng_camera_initiated_queue (prepare_camera_initiated_pre_mode_probe req x) = eng_camera_initiated_queue x" for x
    by (simp_all add: prepare_camera_initiated_pre_mode_probe_def split: option.split)
  ultimately show ?thesis
    by (auto simp: on_operation_def Let_def split: prod.split option.split FaultMutation.split FaultStage.split)
qed

theorem no_session_no_effect_witness:
  "\<exists>r e'. on_operation (\<lambda>_. None) (sample_request SET_DEVICE_PROP_VALUE [0xd212]) (Some [3, 2]) sample_engine
       = Some (r, e') \<and> eng_state e' = eng_state sample_engine \<and> r = err_reply 7 SESSION_NOT_OPEN"
proof -
  let ?r = "sample_request SET_DEVICE_PROP_VALUE [0xd212]"
  have "\<not> cs_session_open (eng_state sample_engine)"
    "fst (take_applied_mutation (snd (apply_fault (oreq_code ?r) (oreq_params ?r) (eng_faults sample_engine)))) = None"
    by code_simp+
  then show ?thesis
    using no_session_no_effect [of sample_engine ?r "\<lambda>_. None" "Some [3, 2]"]
    by (auto simp: sample_request_def)
qed

text \<open>C2: a written property value is read back. When SetDevicePropValue of a property that is
  stored as written, with no change pending, is accepted and the following GetDevicePropValue
  returns data, the request's payload held a value of the declared datatype and the data is that
  value's encoding, which decodes to the value again if it fits the wire format.\<close>
theorem written_value_read_back:
  assumes "property (eng_manifest e) code = Some p" "plain_property p"
    "plain_operation (eng_manifest e) SET_DEVICE_PROP_VALUE" "plain_operation (eng_manifest e) GET_DEVICE_PROP_VALUE"
    "cs_pending (eng_state e) code = None" "lifecycle_count e < u64_max"
    "oreq_code req = SET_DEVICE_PROP_VALUE" "oreq_params req = [ucast code]"
    "oreq_code req' = GET_DEVICE_PROP_VALUE" "oreq_params req' = [ucast code]"
    "dispatch_operation fs req d e = Some (r, e\<^sub>1)" "reply_is_ok r"
    "dispatch_operation fs req' d' e\<^sub>1 = Some (Data out resp, e\<^sub>2)" "oresp_code resp = OK"
  shows "\<exists>bs v. d = Some bs \<and> run_rd (PropValue_decode (datatype_of (pr_ptype p))) bs = Inr v
    \<and> out = written (PropValue_encode v)
    \<and> (valid_PropValue v \<longrightarrow> run_rd (PropValue_decode (datatype_of (pr_ptype p))) out = Inr v)"
proof -
  let ?p = "prepare_camera_initiated_pre_mode_probe"
  have code: "ucast (param req 0) = code" "ucast (param req' 0) = code"
    using assms(8,10) widened_code [of code] by (simp_all add: param_def)
  obtain b e' where h: "handle_operation fs req d (?p req e) = Some (b, r, e')"
      "e\<^sub>1 = (if b then e' else apply_successful_operation req d False e')"
    using dispatch_plain [OF assms(11)] assms(3,7,12) by auto
  then have s: "set_prop (oreq_transaction_id req) code d (?p req e) = Some (r, e')" and "\<not> b"
    using assms(7) code by (auto simp: handle_operation_def Let_def)
  have l: "lifecycle_count (?p req e) < u64_max" using assms(6) by (simp add: lifecycle_count_def)
  obtain bs v where v: "d = Some bs" "run_rd (PropValue_decode (datatype_of (pr_ptype p))) bs = Inr v"
      "cs_props (eng_state e') code = Some v" "cs_pending (eng_state e') = cs_pending (eng_state (?p req e))"
      "eng_manifest e' = eng_manifest (?p req e)"
    using set_prop_stores [OF s assms(12) _ assms(2) l] assms(1) by auto
  have e1: "e\<^sub>1 = apply_successful_operation req d False e'" using h(2) \<open>\<not> b\<close> by simp
  have plain: "plain_operation (eng_manifest e') (oreq_code req)" using v(5) assms(3,7) by simp
  have after: "cs_props (eng_state e\<^sub>1) code = Some v" "cs_pending (eng_state e\<^sub>1) code = None"
      "eng_manifest e\<^sub>1 = eng_manifest e"
    unfolding e1 using apply_plain [OF plain] v assms(5) by simp_all
  have g: "plain_operation (eng_manifest e\<^sub>1) (oreq_code req')" "oreq_code req' \<noteq> INITIATE_CAPTURE"
      "reply_is_ok (Data out resp)"
    using assms(4,9,14) after(3) by simp_all
  obtain b2 e2' where "handle_operation fs req' d' (?p req' e\<^sub>1) = Some (b2, Data out resp, e2')"
    using dispatch_plain [OF assms(13) g] by blast
  then have "get_prop_value (oreq_transaction_id req') code (?p req' e\<^sub>1) = (b2, Data out resp, e2')"
    using assms(9) code by (simp add: handle_operation_def Let_def)
  then have out: "out = written (PropValue_encode v)"
    by (rule get_prop_value_stored) (use assms(1,2) after in simp_all)
  have "run_rd (PropValue_decode (datatype_of (pr_ptype p))) out = Inr v" if "valid_PropValue v"
    using that PropValue_carries [of "datatype_of (pr_ptype p)" v] run_decode_code [OF v(2)] out
    by (auto simp: typed_as_def carries_def written_def writesD intro!: run_rd_ends ends_parses)
  then show ?thesis using v out by blast
qed

theorem written_value_read_back_witness:
  "\<exists>e\<^sub>1 e\<^sub>2. dispatch_operation (\<lambda>_. None) (sample_request SET_DEVICE_PROP_VALUE [0xd212]) (Some [3, 2, 9]) sample_session
       = Some (ok_reply 7, e\<^sub>1)
     \<and> dispatch_operation (\<lambda>_. None) (sample_request GET_DEVICE_PROP_VALUE [0xd212]) None e\<^sub>1
       = Some (data_reply 7 [3, 2], e\<^sub>2) \<and> run_rd (PropValue_decode 4) [3, 2] = Inr (PV_U16 0x0203)"
proof -
  let ?set = "dispatch_operation (\<lambda>_. None) (sample_request SET_DEVICE_PROP_VALUE [0xd212]) (Some [3, 2, 9]) sample_session"
  let ?get = "dispatch_operation (\<lambda>_. None) (sample_request GET_DEVICE_PROP_VALUE [0xd212]) None"
  have "(case ?set of None \<Rightarrow> None | Some (r, e) \<Rightarrow> Some (r, map_option fst (?get e)))
      = Some (ok_reply 7, Some (data_reply 7 [3, 2]))"
    by code_simp
  then obtain e\<^sub>1 e\<^sub>2 where s: "?set = Some (ok_reply 7, e\<^sub>1)" "?get e\<^sub>1 = Some (data_reply 7 [3, 2], e\<^sub>2)"
    by (auto split: option.split_asm)
  let ?p = "snd (hd (cm_properties sample_manifest))"
  have h: "property (eng_manifest sample_session) 0xd212 = Some ?p" "plain_property ?p"
    "plain_operation (eng_manifest sample_session) SET_DEVICE_PROP_VALUE"
    "plain_operation (eng_manifest sample_session) GET_DEVICE_PROP_VALUE"
    "lifecycle_count sample_session = 0" "datatype_of (pr_ptype ?p) = 4"
    by code_simp+
  have n: "cs_pending (eng_state sample_session) 0xd212 = None" by code_simp
  have "\<exists>bs v. Some [3, 2, 9] = Some bs \<and> run_rd (PropValue_decode (datatype_of (pr_ptype ?p))) bs = Inr v
      \<and> [3, 2] = written (PropValue_encode v)
      \<and> (valid_PropValue v \<longrightarrow> run_rd (PropValue_decode (datatype_of (pr_ptype ?p))) [3, 2] = Inr v)"
    by (rule written_value_read_back [OF h(1-4) n _ _ _ _ _ s(1) _ s(2) [unfolded data_reply_def]])
      (simp_all add: h(5) sample_request_def response_def)
  moreover have "run_rd (PropValue_decode 4) [3, 2, 9] = Inr (PV_U16 0x0203)" by code_simp
  ultimately show ?thesis using s h(6) by auto
qed

end
