(* ===== verification/Action_Catalog.thy ===== *)
theory Action_Catalog
  imports Engine_Run
begin

text \<open>
  The catalogue of manifest actions and the resolution of an invocation against it
  (\<^verbatim>\<open>crates/camera-config/src/action.rs\<close>), and its use by the engine's responder mutations.

  The catalogue's revision is a SHA-256 digest of its JSON text; neither the digest nor the JSON
  printer is part of the sources, so the revision of a list of entries is the parameter
  \<open>digest\<close>. A \<^verbatim>\<open>BTreeMap\<close> with text keys is an association list in key order, kept so by
  \<open>btree_insert\<close>; UTF-8 orders texts as their scalar values do.
\<close>

section \<open>Ordered maps\<close>

fun text_less :: "ustring \<Rightarrow> ustring \<Rightarrow> bool" where
  "text_less _ [] = False"
| "text_less [] (_ # _) = True"
| "text_less (a # as) (b # bs) = (a < b \<or> a = b \<and> text_less as bs)"

fun btree_insert :: "ustring \<Rightarrow> 'v \<Rightarrow> (ustring \<times> 'v) list \<Rightarrow> (ustring \<times> 'v) list" where
  "btree_insert k v [] = [(k, v)]"
| "btree_insert k v ((k', v') # m) =
     (if k = k' then (k, v) # m
      else if text_less k k' then (k, v) # (k', v') # m
      else (k', v') # btree_insert k v m)"

section \<open>The catalogue\<close>

fun verb_as_str :: "ActionVerb \<Rightarrow> ustring" where
  "verb_as_str Shutter = lit ''shutter''"
| "verb_as_str EnumerateObjects = lit ''enumerateObjects''"
| "verb_as_str GetObjectInfo = lit ''getObjectInfo''"
| "verb_as_str GetThumb = lit ''getThumb''"
| "verb_as_str GetObject = lit ''getObject''"
| "verb_as_str DeleteObject = lit ''deleteObject''"
| "verb_as_str CompleteObjectTransfer = lit ''completeObjectTransfer''"
| "verb_as_str AutofocusLock = lit ''autofocusLock''"
| "verb_as_str AutofocusRelease = lit ''autofocusRelease''"
| "verb_as_str ImportObjects = lit ''importObjects''"
| "verb_as_str ReadDeviceInfo = lit ''readDeviceInfo''"
| "verb_as_str StartLiveView = lit ''startLiveView''"
| "verb_as_str PollLiveView = lit ''pollLiveView''"
| "verb_as_str StopLiveView = lit ''stopLiveView''"
| "verb_as_str Keepalive = lit ''keepalive''"

definition verb_from_str :: "ustring \<Rightarrow> ActionVerb option" where
  "verb_from_str s =
     find (\<lambda>v. verb_as_str v = s)
       [Shutter, EnumerateObjects, GetObjectInfo, GetThumb, GetObject, DeleteObject,
        CompleteObjectTransfer, AutofocusLock, AutofocusRelease, ImportObjects, ReadDeviceInfo,
        StartLiveView, PollLiveView, StopLiveView, Keepalive]"

datatype ActionRole = Initiator | Responder

datatype ActionCatalogParameterKind = CK_U32 | CK_U64 | CK_String

record ActionCatalogParameter =
  cp_name :: ustring
  cp_kind :: ActionCatalogParameterKind
  cp_required :: bool
  cp_default :: "u64 option"
  cp_min :: "u64 option"
  cp_max :: "u64 option"

record ActionRoleParameters =
  rp_role :: ActionRole
  rp_parameters :: "ActionCatalogParameter list"

record ActionCatalogEntry =
  ce_action_id :: ustring
  ce_connection :: ustring
  ce_mode :: ustring
  ce_supported_roles :: "ActionRole list"
  ce_parameters :: "ActionRoleParameters list"
  ce_triggers :: "ActionEffect list"

record ActionCatalog =
  ca_revision :: ustring
  ca_actions :: "ActionCatalogEntry list"

definition initiator_parameter :: "ActionInitiatorParameter \<Rightarrow> ActionCatalogParameter" where
  "initiator_parameter p =
     (let d = normalized p
      in \<lparr>cp_name = ip_name d,
          cp_kind = (case ip_kind d of IP_U64 \<Rightarrow> CK_U64 | IP_String \<Rightarrow> CK_String),
          cp_required = ip_required d, cp_default = None, cp_min = None, cp_max = None\<rparr>)"

definition responder_parameter :: "ActionParameter \<Rightarrow> ActionCatalogParameter" where
  "responder_parameter p =
     \<lparr>cp_name = ap_name p, cp_kind = (case ap_kind p of AP_U32 \<Rightarrow> CK_U32),
      cp_required = (ap_default p = None), cp_default = map_option ucast (ap_default p),
      cp_min = map_option ucast (ap_min p), cp_max = map_option ucast (ap_max p)\<rparr>"

definition role_parameters :: "Action \<Rightarrow> ActionRoleParameters list" where
  "role_parameters a =
     (case ac_initiator a of
        None \<Rightarrow> []
      | Some i \<Rightarrow> [\<lparr>rp_role = Initiator, rp_parameters = map initiator_parameter (ai_params i)\<rparr>]) @
     (case ac_responder a of
        None \<Rightarrow> []
      | Some r \<Rightarrow> [\<lparr>rp_role = Responder, rp_parameters = map responder_parameter (ar_params r)\<rparr>])"

definition catalog_entry :: "ustring \<Rightarrow> ActionVerb \<times> Action \<Rightarrow> ActionCatalogEntry" where
  "catalog_entry connection va =
     \<lparr>ce_action_id = verb_as_str (fst va), ce_connection = connection, ce_mode = ac_mode (snd va),
      ce_supported_roles = map rp_role (role_parameters (snd va)),
      ce_parameters = role_parameters (snd va), ce_triggers = ac_triggers (snd va)\<rparr>"

definition action_catalog :: "(ActionCatalogEntry list \<Rightarrow> ustring) \<Rightarrow> CameraManifest \<Rightarrow> ActionCatalog" where
  "action_catalog digest m =
     (let entries = concat (map (\<lambda>(cid, c). map (catalog_entry cid) (cn_actions c)) (cm_connections m))
      in \<lparr>ca_revision = digest entries, ca_actions = entries\<rparr>)"

section \<open>Resolution\<close>

record ActionInvocationRequest =
  ir_catalog_revision :: ustring
  ir_action_id :: ustring
  ir_connection :: ustring
  ir_mode :: ustring
  ir_role :: ActionRole
  ir_parameters :: "(ustring \<times> ActionArgumentValue) list"

record ResolvedActionInvocation =
  ri_action :: ActionVerb
  ri_role :: ActionRole
  ri_parameters :: "(ustring \<times> ActionArgumentValue) list"
  ri_responder_mutation :: "ResponderMutation option"

datatype ActionResolutionError =
    StaleRevision
  | UnknownConnection ustring
  | UnknownAction ustring ustring
  | WrongMode ustring ustring
  | WrongRole ActionRole
  | DuplicateParameter ustring
  | MissingParameter ustring
  | ExtraParameter ustring
  | InvalidParameter ustring u64
  | WrongParameterType ustring ActionCatalogParameterKind ActionCatalogParameterKind

fun resolution_error_code :: "ActionResolutionError \<Rightarrow> ustring" where
  "resolution_error_code StaleRevision = lit ''staleCatalogRevision''"
| "resolution_error_code (UnknownConnection _) = lit ''unknownConnection''"
| "resolution_error_code (UnknownAction _ _) = lit ''unknownAction''"
| "resolution_error_code (WrongMode _ _) = lit ''wrongMode''"
| "resolution_error_code (WrongRole _) = lit ''wrongRole''"
| "resolution_error_code (DuplicateParameter _) = lit ''duplicateParameter''"
| "resolution_error_code (MissingParameter _) = lit ''missingParameter''"
| "resolution_error_code (ExtraParameter _) = lit ''extraParameter''"
| "resolution_error_code (InvalidParameter _ _) = lit ''invalidParameter''"
| "resolution_error_code (WrongParameterType _ _ _) = lit ''wrongParameterType''"

fun supply_arguments ::
  "(ustring \<times> ActionArgumentValue) list \<Rightarrow> (ustring \<times> ActionArgumentValue) list \<Rightarrow>
   ActionResolutionError + (ustring \<times> ActionArgumentValue) list" where
  "supply_arguments [] supplied = Inr supplied"
| "supply_arguments ((n, v) # args) supplied =
     (if map_of supplied n \<noteq> None then Inl (DuplicateParameter n)
      else supply_arguments args (btree_insert n v supplied))"

fun argument_kind :: "ActionArgumentValue \<Rightarrow> ActionCatalogParameterKind" where
  "argument_kind (AV_U64 _) = CK_U64"
| "argument_kind (AV_String _) = CK_String"

definition out_of_range :: "ActionCatalogParameter \<Rightarrow> u64 \<Rightarrow> bool" where
  "out_of_range p v \<longleftrightarrow>
     (cp_kind p = CK_U32 \<and> u32_max < unat v) \<or>
     (case cp_min p of None \<Rightarrow> False | Some lo \<Rightarrow> v < lo) \<or>
     (case cp_max p of None \<Rightarrow> False | Some hi \<Rightarrow> hi < v)"

definition check_value :: "ActionCatalogParameter \<Rightarrow> ActionArgumentValue \<Rightarrow> ActionResolutionError + unit" where
  "check_value p v =
     (case (cp_kind p, v) of
        (CK_String, AV_String _) \<Rightarrow> Inr ()
      | (CK_U32, AV_U64 n) \<Rightarrow> if out_of_range p n then Inl (InvalidParameter (cp_name p) n) else Inr ()
      | (CK_U64, AV_U64 n) \<Rightarrow> if out_of_range p n then Inl (InvalidParameter (cp_name p) n) else Inr ()
      | (k, a) \<Rightarrow> Inl (WrongParameterType (cp_name p) k (argument_kind a)))"

fun check_parameters ::
  "ActionCatalogParameter list \<Rightarrow> (ustring \<times> ActionArgumentValue) list \<Rightarrow>
   ActionResolutionError + (ustring \<times> ActionArgumentValue) list" where
  "check_parameters [] supplied = Inr supplied"
| "check_parameters (p # ps) supplied =
     (case map_of supplied (cp_name p) of
        Some v \<Rightarrow> res_bind (check_value p v) (\<lambda>_. check_parameters ps supplied)
      | None \<Rightarrow>
          (case cp_default p of
             Some d \<Rightarrow>
               res_bind (check_value p (AV_U64 d))
                 (\<lambda>_. check_parameters ps (btree_insert (cp_name p) (AV_U64 d) supplied))
           | None \<Rightarrow>
               if cp_required p then Inl (MissingParameter (cp_name p)) else check_parameters ps supplied))"

definition declared_parameters ::
  "ActionCatalog \<Rightarrow> ActionInvocationRequest \<Rightarrow> ActionRoleParameters option" where
  "declared_parameters catalog req =
     (case find (\<lambda>en. ce_connection en = ir_connection req \<and> ce_action_id en = ir_action_id req)
             (ca_actions catalog) of
        None \<Rightarrow> None
      | Some en \<Rightarrow> find (\<lambda>ps. rp_role ps = ir_role req) (ce_parameters en))"

definition mode_admits :: "ustring \<Rightarrow> ustring \<Rightarrow> bool" where
  "mode_admits required actual \<longleftrightarrow>
     required = [] \<or> actual = required \<or> starts_with actual (required @ lit ''/'')"

definition resolve_action_invocation ::
  "(ActionCatalogEntry list \<Rightarrow> ustring) \<Rightarrow> CameraManifest \<Rightarrow> ActionInvocationRequest \<Rightarrow>
   ActionResolutionError + ResolvedActionInvocation" where
  "resolve_action_invocation digest m req =
     (let catalog = action_catalog digest m;
          unknown = UnknownAction (ir_connection req) (ir_action_id req)
      in if ir_catalog_revision req \<noteq> ca_revision catalog then Inl StaleRevision
         else
           res_bind (ok_or (map_of (cm_connections m) (ir_connection req))
                      (UnknownConnection (ir_connection req))) (\<lambda>c.
           res_bind (ok_or (verb_from_str (ir_action_id req)) unknown) (\<lambda>verb.
           res_bind (ok_or (map_of (cn_actions c) verb) unknown) (\<lambda>a.
             if \<not> mode_admits (ac_mode a) (ir_mode req) then Inl (WrongMode (ac_mode a) (ir_mode req))
             else
               res_bind (ok_or (declared_parameters catalog req) (WrongRole (ir_role req))) (\<lambda>decl.
               res_bind (supply_arguments (ir_parameters req) []) (\<lambda>supplied.
                 case find (\<lambda>n. n \<notin> set (map cp_name (rp_parameters decl))) (map fst supplied) of
                   Some extra \<Rightarrow> Inl (ExtraParameter extra)
                 | None \<Rightarrow>
                     res_bind (check_parameters (rp_parameters decl) supplied) (\<lambda>resolved.
                       Inr \<lparr>ri_action = verb, ri_role = ir_role req, ri_parameters = resolved,
                            ri_responder_mutation =
                              (if ir_role req = Responder then map_option ar_mutation (ac_responder a)
                               else None)\<rparr>)))))))"

section \<open>Lemmas\<close>

lemma btree_map_of [simp]: "map_of (btree_insert k v m) = (map_of m)(k \<mapsto> v)"
  by (induction m rule: btree_insert.induct [where ?a0.0 = k and ?a1.0 = v]) auto

lemma verb_round_trip: "verb_from_str (verb_as_str v) = Some v"
  by (cases v) (simp_all add: verb_from_str_def lit_def)

lemma verb_from_str_Some: "verb_from_str s = Some v \<Longrightarrow> verb_as_str v = s"
  unfolding verb_from_str_def by (metis (mono_tags, lifting) find_Some_iff)

definition value_conforms :: "ActionCatalogParameter \<Rightarrow> ActionArgumentValue \<Rightarrow> bool" where
  "value_conforms p v =
     (case v of
        AV_String _ \<Rightarrow> cp_kind p = CK_String
      | AV_U64 n \<Rightarrow> cp_kind p \<noteq> CK_String \<and> (cp_kind p = CK_U32 \<longrightarrow> unat n \<le> u32_max)
          \<and> (\<forall>lo. cp_min p = Some lo \<longrightarrow> lo \<le> n) \<and> (\<forall>hi. cp_max p = Some hi \<longrightarrow> n \<le> hi))"

lemma check_value_iff: "check_value p v = Inr u \<longleftrightarrow> value_conforms p v"
  by (auto simp: check_value_def value_conforms_def out_of_range_def not_less
      split: ActionArgumentValue.split ActionCatalogParameterKind.split option.split)

lemma supply_step:
  "supply_arguments ((n, v) # args) s = Inr r \<Longrightarrow>
   map_of s n = None \<and> supply_arguments args (btree_insert n v s) = Inr r"
  by (simp split: if_split_asm)

lemma supply_keeps:
  "supply_arguments args s = Inr r \<Longrightarrow> map_of s n = Some v \<or> (n, v) \<in> set args \<Longrightarrow> map_of r n = Some v"
proof (induction args arbitrary: s)
  case (Cons a args)
  obtain k w where a: "a = (k, w)" by (cases a)
  have st: "map_of s k = None" "supply_arguments args (btree_insert k w s) = Inr r"
    using supply_step Cons.prems(1) unfolding a by blast+
  have "map_of (btree_insert k w s) n = Some v \<or> (n, v) \<in> set args"
    using Cons.prems(2) st(1) unfolding a by auto
  then show ?case by (rule Cons.IH [OF st(2)])
qed simp

lemma supply_names:
  "supply_arguments args s = Inr r \<Longrightarrow> dom (map_of r) = dom (map_of s) \<union> fst ` set args"
proof (induction args arbitrary: s)
  case (Cons a args)
  obtain k w where a: "a = (k, w)" by (cases a)
  have "supply_arguments args (btree_insert k w s) = Inr r"
    using supply_step Cons.prems unfolding a by blast
  from Cons.IH [OF this] show ?case unfolding a by auto
qed simp

lemma check_parameters_keeps:
  "check_parameters ps s = Inr r \<Longrightarrow> map_of s n = Some v \<Longrightarrow> map_of r n = Some v"
proof (induction ps arbitrary: s)
  case (Cons p ps)
  show ?case
  proof (cases "map_of s (cp_name p)")
    case None
    then have "n \<noteq> cp_name p" using Cons.prems(2) by auto
    then show ?thesis
      using Cons None by (auto simp: res_bind_Inr_iff split: option.split_asm if_split_asm)
  qed (use Cons in \<open>auto simp: res_bind_Inr_iff\<close>)
qed simp

lemma check_parameters_names:
  "check_parameters ps s = Inr r \<Longrightarrow> dom (map_of r) \<subseteq> dom (map_of s) \<union> cp_name ` set ps"
proof (induction ps arbitrary: s)
  case (Cons p ps)
  consider (kept) "check_parameters ps s = Inr r"
    | (defaulted) d where "check_parameters ps (btree_insert (cp_name p) (AV_U64 d) s) = Inr r"
    using Cons.prems by (auto simp: res_bind_Inr_iff split: option.split_asm if_split_asm)
  then show ?case
  proof cases
    case kept
    from Cons.IH [OF this] show ?thesis by auto
  next
    case defaulted
    from Cons.IH [OF this] show ?thesis by auto
  qed
qed simp

lemma check_parameters_conform:
  "check_parameters ps s = Inr r \<Longrightarrow> distinct (map cp_name ps) \<Longrightarrow> p \<in> set ps \<Longrightarrow>
   (case map_of r (cp_name p) of
      None \<Rightarrow> \<not> cp_required p \<and> cp_default p = None | Some v \<Rightarrow> value_conforms p v)"
proof (induction ps arbitrary: s)
  case (Cons q ps)
  show ?case
  proof (cases "p \<in> set ps")
    case True
    then show ?thesis
      using Cons by (auto simp: res_bind_Inr_iff split: option.split_asm if_split_asm)
  next
    case False
    then have q: "p = q" using Cons.prems(3) by simp
    show ?thesis
    proof (cases "map_of s (cp_name q)")
      case (Some v)
      then have c: "check_parameters ps s = Inr r" "value_conforms q v"
        using Cons.prems(1) by (auto simp: res_bind_Inr_iff check_value_iff)
      show ?thesis using check_parameters_keeps [OF c(1) Some] c(2) q by simp
    next
      case None
      show ?thesis
      proof (cases "cp_default q")
        case (Some d)
        then have c: "check_parameters ps (btree_insert (cp_name q) (AV_U64 d) s) = Inr r"
            "value_conforms q (AV_U64 d)"
          using Cons.prems(1) None by (auto simp: res_bind_Inr_iff check_value_iff)
        show ?thesis using check_parameters_keeps [OF c(1), of "cp_name q" "AV_U64 d"] c(2) q by simp
      next
        case d: None
        then have c: "check_parameters ps s = Inr r" "\<not> cp_required q"
          using Cons.prems(1) None by (auto split: if_split_asm)
        have "map_of r (cp_name q) = None"
          using check_parameters_names [OF c(1)] None Cons.prems(2) by (auto simp: domIff)
        then show ?thesis using q d c(2) by simp
      qed
    qed
  qed
qed simp

lemma if_None: "((if c then x else y) = None) = (if c then x = None else y = None)"
  by simp

lemma scalar_fits_transition: "(property_transition_value ty v = None) = (\<not> scalar_fits_property ty v)"
  unfolding scalar_fits_property_def property_transition_value_def if_None by simp

lemma find_unique:
  assumes "x \<in> set xs" "P x" "\<And>y. y \<in> set xs \<Longrightarrow> P y \<Longrightarrow> y = x"
  shows "find P xs = Some x"
proof (cases "find P xs")
  case None
  then show ?thesis using assms(1,2) by (simp add: find_None_iff)
next
  case (Some y)
  then have "y \<in> set xs" "P y" by (auto simp: find_Some_iff)
  then show ?thesis using assms(3) Some by simp
qed

lemma catalog_find:
  assumes "distinct (map fst (cm_connections m))" "map_of (cm_connections m) cid = Some c"
    "distinct (map fst (cn_actions c))" "map_of (cn_actions c) verb = Some a"
  shows "find (\<lambda>en. ce_connection en = cid \<and> ce_action_id en = verb_as_str verb)
      (ca_actions (action_catalog digest m)) = Some (catalog_entry cid (verb, a))"
proof (rule find_unique)
  have "(cid, c) \<in> set (cm_connections m)" "(verb, a) \<in> set (cn_actions c)"
    using assms(2,4) by (auto dest: map_of_SomeD)
  then show "catalog_entry cid (verb, a) \<in> set (ca_actions (action_catalog digest m))"
    unfolding action_catalog_def Let_def by (auto intro!: bexI [of _ "(cid, c)"])
next
  fix en
  assume "en \<in> set (ca_actions (action_catalog digest m))" "ce_connection en = cid \<and> ce_action_id en = verb_as_str verb"
  then obtain c' v' a' where "(cid, c') \<in> set (cm_connections m)" "(v', a') \<in> set (cn_actions c')"
      "en = catalog_entry cid (v', a')" "verb_as_str v' = verb_as_str verb"
    unfolding action_catalog_def Let_def by (auto simp: catalog_entry_def)
  moreover from this have "c' = c" "v' = verb"
    using assms(1,2) verb_round_trip by (metis map_of_is_SomeI option.inject)+
  ultimately show "en = catalog_entry cid (verb, a)"
    using assms(3,4) by (metis map_of_is_SomeI option.inject)
qed (simp add: catalog_entry_def)

text \<open>A responder action with one bounded parameter, and a request for it.\<close>

definition nudge_action :: Action where
  "nudge_action = \<lparr>ac_mode = lit ''shooting'', ac_initiator = None,
     ac_responder = Some \<lparr>ar_params = [\<lparr>ap_name = lit ''v'', ap_kind = AP_U32, ap_default = Some 2,
         ap_min = Some 1, ap_max = Some 9\<rparr>],
       ar_mutation = RMU_PropertyTransition (lit ''0xd212'') (Some 3) (TT_Parameter (lit ''v'')) 2\<rparr>,
     ac_triggers = []\<rparr>"

definition nudge_manifest :: CameraManifest where
  "nudge_manifest = sample_manifest\<lparr>cm_connections :=
     [(lit ''app'', \<lparr>cn_available_when = None, cn_bindings = None, cn_entries = [],
        cn_actions = [(Shutter, nudge_action)], cn_session = None, cn_events = None,
        cn_command_framing = None, cn_event_framing = None, cn_transport_close = None\<rparr>)]\<rparr>"

definition nudge_request :: ActionInvocationRequest where
  "nudge_request = \<lparr>ir_catalog_revision = lit ''r1'', ir_action_id = lit ''shutter'',
     ir_connection = lit ''app'', ir_mode = lit ''shooting/stills'', ir_role = Responder,
     ir_parameters = [(lit ''v'', AV_U64 7)]\<rparr>"

text \<open>What a successful preparation has checked.\<close>

lemma prepare_enqueue:
  "prepare_responder_mutation e mu args = Inr (PR_EnqueueObjects count affected) \<Longrightarrow>
   \<exists>q. eng_transfer_queue e = Some q \<and> affected = pending_enqueue count q"
  by (cases mu) (auto simp: res_bind_Inr_iff pending_standard_object_enqueue_def
      split: if_split_asm option.split_asm)

lemma prepare_transition:
  "prepare_responder_mutation e mu args = Inr (PR_PropertyTransition t) \<Longrightarrow>
   \<exists>p. property (eng_manifest e) (pp_target t) = Some p \<and>
     scalar_fits_property (pr_ptype p) (pp_terminal t) \<and>
     (\<forall>i. pp_initial t = Some i \<longrightarrow> scalar_fits_property (pr_ptype p) i)"
  by (cases mu) (auto simp: res_bind_Inr_iff ok_or_def split: if_split_asm option.split_asm)

lemma enqueue_loop_completed [simp]: "tq_completed (enqueue_loop n q) = tq_completed q"
  by (induction n q rule: enqueue_loop.induct) simp_all

section \<open>Properties\<close>

text \<open>C11: an invocation that resolves is exactly what the manifest declares. It carries the catalogue's
  current revision, names an action of a connection of the manifest in a mode that admits it, and its
  role is one the action binds; every argument it supplied is kept, every name is declared for that
  role, and each declared parameter is either present with a value of its kind within its bounds or
  is optional without a default.\<close>
theorem action_resolution_sound:
  assumes "resolve_action_invocation digest m req = Inr r"
    "distinct (map fst (cm_connections m))" "\<forall>(k, c) \<in> set (cm_connections m). distinct (map fst (cn_actions c))"
  shows "ir_catalog_revision req = ca_revision (action_catalog digest m) \<and>
    (\<exists>c a decl. map_of (cm_connections m) (ir_connection req) = Some c
      \<and> map_of (cn_actions c) (ri_action r) = Some a \<and> verb_as_str (ri_action r) = ir_action_id req
      \<and> mode_admits (ac_mode a) (ir_mode req)
      \<and> decl \<in> set (role_parameters a) \<and> rp_role decl = ir_role req
      \<and> (\<forall>n v. (n, v) \<in> set (ir_parameters req) \<longrightarrow> map_of (ri_parameters r) n = Some v)
      \<and> dom (map_of (ri_parameters r)) \<subseteq> cp_name ` set (rp_parameters decl)
      \<and> (distinct (map cp_name (rp_parameters decl)) \<longrightarrow>
          (\<forall>p \<in> set (rp_parameters decl). case map_of (ri_parameters r) (cp_name p) of
             None \<Rightarrow> \<not> cp_required p \<and> cp_default p = None | Some v \<Rightarrow> value_conforms p v)))"
proof -
  obtain c a decl supplied where *: "ir_catalog_revision req = ca_revision (action_catalog digest m)"
      "map_of (cm_connections m) (ir_connection req) = Some c" "verb_from_str (ir_action_id req) = Some (ri_action r)"
      "map_of (cn_actions c) (ri_action r) = Some a" "mode_admits (ac_mode a) (ir_mode req)"
      "declared_parameters (action_catalog digest m) req = Some decl"
      "supply_arguments (ir_parameters req) [] = Inr supplied"
      "find (\<lambda>n. n \<notin> set (map cp_name (rp_parameters decl))) (map fst supplied) = None"
      "check_parameters (rp_parameters decl) supplied = Inr (ri_parameters r)"
    using assms(1)
    by (auto simp: resolve_action_invocation_def Let_def res_bind_Inr_iff ok_or_def
        split: if_split_asm option.split_asm)
  have verb: "verb_as_str (ri_action r) = ir_action_id req" by (rule verb_from_str_Some [OF *(3)])
  have "distinct (map fst (cn_actions c))" using assms(3) *(2) by (auto dest: map_of_SomeD)
  then have "find (\<lambda>en. ce_connection en = ir_connection req \<and> ce_action_id en = ir_action_id req)
      (ca_actions (action_catalog digest m)) = Some (catalog_entry (ir_connection req) (ri_action r, a))"
    using catalog_find [OF assms(2) *(2) _ *(4)] verb by simp
  then have "decl \<in> set (role_parameters a)" "rp_role decl = ir_role req"
    using *(6) find_Some_iff [of "\<lambda>ps. rp_role ps = ir_role req" "role_parameters a"]
    by (auto simp: declared_parameters_def catalog_entry_def)
  moreover have "map_of (ri_parameters r) n = Some v" if "(n, v) \<in> set (ir_parameters req)" for n v
    using check_parameters_keeps [OF *(9)] supply_keeps [OF *(7)] that by blast
  moreover have "dom (map_of supplied) \<subseteq> cp_name ` set (rp_parameters decl)"
    using *(8) by (auto simp: find_None_iff dom_map_of_conv_image_fst)
  then have "dom (map_of (ri_parameters r)) \<subseteq> cp_name ` set (rp_parameters decl)"
    using check_parameters_names [OF *(9)] by blast
  ultimately show ?thesis
    using * verb check_parameters_conform [OF *(9)] by blast
qed

theorem action_resolution_sound_witness:
  "\<exists>r. resolve_action_invocation (\<lambda>_. lit ''r1'') nudge_manifest nudge_request = Inr r
     \<and> map_of (ri_parameters r) (lit ''v'') = Some (AV_U64 7) \<and> ri_action r = Shutter"
proof -
  have "case resolve_action_invocation (\<lambda>_. lit ''r1'') nudge_manifest nudge_request of
      Inl _ \<Rightarrow> False | Inr r \<Rightarrow> ri_action r = Shutter"
    by code_simp
  then obtain r where r: "resolve_action_invocation (\<lambda>_. lit ''r1'') nudge_manifest nudge_request = Inr r"
      "ri_action r = Shutter"
    by (auto split: sum.split_asm)
  have d: "distinct (map fst (cm_connections nudge_manifest))"
    "\<forall>(k, c) \<in> set (cm_connections nudge_manifest). distinct (map fst (cn_actions c))"
    by (simp_all add: nudge_manifest_def)
  have "(lit ''v'', AV_U64 7) \<in> set (ir_parameters nudge_request)" by (simp add: nudge_request_def)
  then show ?thesis
    using action_resolution_sound [OF r(1) d] r by blast
qed



end
