(* ===== verification/Ffi_Steps.thy ===== *)
theory Ffi_Steps
  imports Action_Catalog Vendor_Framing
begin

text \<open>
  The step grammar of the application seam (\<^verbatim>\<open>crates/camera-protocol-ffi/src/lib.rs\<close>): the frame
  codecs by framing, the mirrored predicates, the typed steps of mode entries and actions, and their
  projection from manifest steps.

  The panic of an \<^verbatim>\<open>expect\<close> and an unmappable step are both \<^const>\<open>None\<close> results: the former only in
  \<open>map_capture\<close>, whose codes are validated when a store is loaded.
\<close>

section \<open>Framing\<close>

datatype PtpFraming = Standard | Compressed | Usb

definition framing_of :: "WireFraming \<Rightarrow> PtpFraming" where
  "framing_of f = (case f of WF_Standard \<Rightarrow> Standard | WF_Compressed \<Rightarrow> Compressed | WF_Usb \<Rightarrow> Usb)"

datatype CodecError = CodecEncode | CodecDecode

definition codec_result :: "CodecError \<Rightarrow> 'e + 'a \<Rightarrow> CodecError + 'a" where
  "codec_result err r = (case r of Inl _ \<Rightarrow> Inl err | Inr x \<Rightarrow> Inr x)"

definition frame_encode :: "PtpFraming \<Rightarrow> PtpIpPacket \<Rightarrow> CodecError + bytes" where
  "frame_encode framing pkt =
     (case framing of
        Standard \<Rightarrow> codec_result CodecEncode (encode pkt)
      | Compressed \<Rightarrow> codec_result CodecEncode (fuji_encode pkt)
      | Usb \<Rightarrow> codec_result CodecEncode (usb_encode pkt))"

definition frame_decode :: "PtpFraming \<Rightarrow> bytes \<Rightarrow> CodecError + PtpIpPacket" where
  "frame_decode framing bs =
     codec_result CodecDecode
       (case framing of
          Standard \<Rightarrow> packet_decode bs
        | Compressed \<Rightarrow> fuji_decode bs
        | Usb \<Rightarrow> usb_decode bs)"

section \<open>Predicates\<close>

datatype FfiPredicate =
    F_All "FfiPredicate list"
  | F_Any "FfiPredicate list"
  | F_Not "FfiPredicate list"
  | F_Leaf u16 "int option" "int option" "int option" "int option" "int option"

fun predicate_to_ffi :: "Predicate \<Rightarrow> FfiPredicate option" where
  "predicate_to_ffi (P_All ps) = map_option F_All (collect_options (map predicate_to_ffi ps))"
| "predicate_to_ffi (P_Any ps) = map_option F_Any (collect_options (map predicate_to_ffi ps))"
| "predicate_to_ffi (P_Not p) = map_option (\<lambda>q. F_Not [q]) (predicate_to_ffi p)"
| "predicate_to_ffi (P_Leaf l) =
     map_option (\<lambda>c. F_Leaf c (leaf_mask l) (leaf_eq l) (leaf_ne l) (leaf_lt l) (leaf_gt l))
       (parse_hex_code (leaf_prop l))"

fun predicate_from_ffi :: "FfiPredicate \<Rightarrow> Predicate" where
  "predicate_from_ffi (F_All ps) = P_All (map predicate_from_ffi ps)"
| "predicate_from_ffi (F_Any ps) = P_Any (map predicate_from_ffi ps)"
| "predicate_from_ffi (F_Not ps) = P_Not (P_All (map predicate_from_ffi ps))"
| "predicate_from_ffi (F_Leaf prop m e n l g) =
     P_Leaf \<lparr>leaf_prop = lit ''0x'' @ fmt_hex 4 (unat prop), leaf_mask = m, leaf_eq = e, leaf_ne = n,
             leaf_lt = l, leaf_gt = g\<rparr>"

definition await_until_satisfied :: "FfiPredicate \<Rightarrow> (u16 \<times> int) list \<Rightarrow> bool" where
  "await_until_satisfied until observed = pred_eval (predicate_from_ffi until) (view_of observed)"

section \<open>Steps\<close>

datatype EntryParam = EP_Literal u32 | EP_Runtime ustring nat "u64 option"

record CaptureResponseFallbackInfo =
  fb_value :: u64
  fb_when_response_codes :: "u16 list"

record CaptureInfo =
  cap_bind :: ustring
  cap_source :: CaptureSource
  cap_fallback :: "CaptureResponseFallbackInfo option"

datatype FfiChunkSize = FC_Literal u32 | FC_Runtime ustring

datatype FfiAwaitSource = FA_Poll u16 | FA_Event u16 "u16 option"

datatype EntryStep =
    SetProp u16 int bool
  | SetPropRuntime u16 ustring MissingRuntimeValue bool
  | GetProp u16 "CaptureInfo list" bool
  | ReadEcho u16 "CaptureInfo list" bool
  | SendOp u16 "EntryParam list" "CaptureInfo list" nat bool
  | OpenChannel SocketRole bool
  | ReopenSession bool
  | CloseSession bool bool
  | AwaitUntilStep FfiAwaitSource FfiPredicate "EntryStep list" "CaptureInfo list" nat nat bool
  | Retry "EntryStep list" "EntryStep list" "u16 list" "RetryFailureClass list" nat nat bool
  | ForEachLoop ustring ustring "EntryStep list" bool
  | ChunkLoop ustring FfiChunkSize ustring ustring "EntryStep list" bool
  | If ustring u64 "EntryStep list" bool
  | IfElse ustring u64 "EntryStep list" "EntryStep list" bool

definition map_param :: "StepParam \<Rightarrow> EntryParam" where
  "map_param p =
     (case p of SP_Literal v \<Rightarrow> EP_Literal v | SP_Runtime slot shift k \<Rightarrow> EP_Runtime slot shift k)"

definition map_chunk_size :: "ChunkSize \<Rightarrow> FfiChunkSize" where
  "map_chunk_size s = (case s of CK_Literal v \<Rightarrow> FC_Literal v | CK_Runtime slot \<Rightarrow> FC_Runtime slot)"

definition map_capture :: "Capture \<Rightarrow> CaptureInfo option" where
  "map_capture c =
     (case ca_fallback c of
        None \<Rightarrow> Some \<lparr>cap_bind = ca_bind c, cap_source = ca_source c, cap_fallback = None\<rparr>
      | Some fb \<Rightarrow>
          map_option
            (\<lambda>codes. \<lparr>cap_bind = ca_bind c, cap_source = ca_source c,
               cap_fallback = Some \<lparr>fb_value = cf_value fb, fb_when_response_codes = codes\<rparr>\<rparr>)
            (collect_options (map parse_hex_code (cf_when_response_codes fb))))"

definition map_captures :: "Step \<Rightarrow> CaptureInfo list option" where
  "map_captures s = collect_options (map map_capture (st_captures s))"

definition map_await_source :: "AwaitSource \<Rightarrow> FfiAwaitSource option" where
  "map_await_source src =
     (case src of
        AS_Poll p \<Rightarrow> map_option FA_Poll (parse_hex_code p)
      | AS_Event c None \<Rightarrow> map_option (\<lambda>code. FA_Event code None) (parse_hex_code c)
      | AS_Event c (Some tp) \<Rightarrow>
          (case (parse_hex_code c, parse_hex_code tp) of
             (Some code, Some poll) \<Rightarrow> Some (FA_Event code (Some poll)) | _ \<Rightarrow> None))"

definition map_set_prop :: "Step \<Rightarrow> u16 \<Rightarrow> EntryStep" where
  "map_set_prop s prop =
     (case st_value s of
        None \<Rightarrow> SetProp prop 0 (st_tolerant s)
      | Some (SV_Literal v) \<Rightarrow> SetProp prop v (st_tolerant s)
      | Some (SV_Runtime slot missing) \<Rightarrow> SetPropRuntime prop slot missing (st_tolerant s))"

lemma size_member: "x \<in> set xs \<Longrightarrow> size x < Suc (size_list size xs + n)"
  by (simp add: less_Suc_eq_le size_list_estimation' trans_le_add1)

lemma step_block_smaller:
  "st_await_until s = Some aw \<Longrightarrow> x \<in> set (aw_on_each aw) \<Longrightarrow> size x < size s"
  "st_retry s = Some rt \<Longrightarrow> x \<in> set (rt_steps rt) \<Longrightarrow> size x < size s"
  "st_retry s = Some rt \<Longrightarrow> rt_fallback rt = Some fb \<Longrightarrow> x \<in> set fb \<Longrightarrow> size x < size s"
  "st_loop s = Some lp \<Longrightarrow> x \<in> set (lp_body lp) \<Longrightarrow> size x < size s"
  "st_if s = Some br \<Longrightarrow> x \<in> set (if_then br) \<Longrightarrow> size x < size s"
  "st_if s = Some br \<Longrightarrow> x \<in> set (if_else br) \<Longrightarrow> size x < size s"
proof -
  show "st_await_until s = Some aw \<Longrightarrow> x \<in> set (aw_on_each aw) \<Longrightarrow> size x < size s"
    using size_member [of x "aw_on_each aw" 0] by (cases s; cases aw) auto
  show "st_retry s = Some rt \<Longrightarrow> x \<in> set (rt_steps rt) \<Longrightarrow> size x < size s"
    using size_member [of x "rt_steps rt" 0] by (cases s; cases rt) auto
  show "st_retry s = Some rt \<Longrightarrow> rt_fallback rt = Some fb \<Longrightarrow> x \<in> set fb \<Longrightarrow> size x < size s"
    using size_member [of x fb 0] by (cases s; cases rt) auto
  show "st_loop s = Some lp \<Longrightarrow> x \<in> set (lp_body lp) \<Longrightarrow> size x < size s"
    using size_member [of x "lp_body lp" 0] by (cases s; cases lp) auto
  show "st_if s = Some br \<Longrightarrow> x \<in> set (if_then br) \<Longrightarrow> size x < size s"
    "st_if s = Some br \<Longrightarrow> x \<in> set (if_else br) \<Longrightarrow> size x < size s"
    using size_member [of x "if_then br" 0] size_member [of x "if_else br" 0] by (cases s; cases br; auto)+
qed

function map_step :: "Step \<Rightarrow> EntryStep option" where
  "map_step s =
     (let t = st_tolerant s
      in case st_set_prop s of Some p \<Rightarrow> map_option (map_set_prop s) (parse_hex_code p)
       | None \<Rightarrow>
         (case st_get_prop s of Some p \<Rightarrow>
            (case (parse_hex_code p, map_captures s) of
               (Some prop, Some caps) \<Rightarrow> Some (GetProp prop caps t) | _ \<Rightarrow> None)
       | None \<Rightarrow>
         (case st_read_echo s of Some p \<Rightarrow>
            (case (parse_hex_code p, map_captures s) of
               (Some prop, Some caps) \<Rightarrow> Some (ReadEcho prop caps t) | _ \<Rightarrow> None)
       | None \<Rightarrow>
         (case st_send_op s of Some h \<Rightarrow>
            (case (parse_hex_code h, map_captures s) of
               (Some opc, Some caps) \<Rightarrow>
                 Some (SendOp opc (map map_param (st_params s)) caps (st_repeat s) t) | _ \<Rightarrow> None)
       | None \<Rightarrow>
         (case st_open_channel s of Some role \<Rightarrow> Some (OpenChannel role t)
       | None \<Rightarrow>
         (if st_reopen_session s then Some (ReopenSession t)
          else
         (case st_close_session s of Some transport_close \<Rightarrow> Some (CloseSession transport_close t)
       | None \<Rightarrow>
         (case st_await_until s of Some aw \<Rightarrow>
            (case (map_await_source (aw_source aw), predicate_to_ffi (aw_until aw),
                   collect_options (map map_step (aw_on_each aw)), map_captures s) of
               (Some source, Some until, Some on_each, Some caps) \<Rightarrow>
                 Some (AwaitUntilStep source until on_each caps (aw_timeout_ms aw) (aw_interval_ms aw) t)
             | _ \<Rightarrow> None)
       | None \<Rightarrow>
         (case st_retry s of Some rt \<Rightarrow>
            (case (collect_options (map map_step (rt_steps rt)),
                   (case rt_fallback rt of None \<Rightarrow> Some [] | Some fb \<Rightarrow> collect_options (map map_step fb)),
                   collect_options (map parse_hex_code (rt_when_response_codes rt))) of
               (Some steps, Some fallback, Some codes) \<Rightarrow>
                 Some (Retry steps fallback codes (rt_when_failure_classes rt) (rt_max_attempts rt)
                        (rt_retry_delay_ms rt) t)
             | _ \<Rightarrow> None)
       | None \<Rightarrow>
         (case st_loop s of Some lp \<Rightarrow>
            map_option
              (\<lambda>body. case lp of
                 ForEach collection slot _ \<Rightarrow> ForEachLoop collection slot body t
               | Chunk tot sz off len _ \<Rightarrow> ChunkLoop tot (map_chunk_size sz) off len body t)
              (collect_options (map map_step (lp_body lp)))
       | None \<Rightarrow>
         (case st_if s of Some br \<Rightarrow>
            (case (collect_options (map map_step (if_then br)), collect_options (map map_step (if_else br))) of
               (Some then_steps, Some else_steps) \<Rightarrow>
                 Some (if if_else br = [] then If (if_slot br) (if_equals br) then_steps t
                       else IfElse (if_slot br) (if_equals br) then_steps else_steps t)
             | _ \<Rightarrow> None)
       | None \<Rightarrow> None)))))))))))"
  by auto
termination
  by (relation "measure size") (auto intro: step_block_smaller)

declare map_step.simps [simp del]

text \<open>The check of a step and its blocks when a store is loaded, with the mapping of checked steps.\<close>

function validate_step_mapping :: "Step \<Rightarrow> bool" where
  "validate_step_mapping s \<longleftrightarrow>
     (case st_await_until s of None \<Rightarrow> True | Some aw \<Rightarrow> predicate_to_ffi (aw_until aw) \<noteq> None) \<and>
     step_well_formed s \<and> map_step s \<noteq> None \<and>
     (case st_await_until s of None \<Rightarrow> True | Some aw \<Rightarrow> list_all validate_step_mapping (aw_on_each aw)) \<and>
     (case st_retry s of
        None \<Rightarrow> True
      | Some rt \<Rightarrow> list_all validate_step_mapping (rt_steps rt) \<and>
          (case rt_fallback rt of None \<Rightarrow> True | Some fb \<Rightarrow> list_all validate_step_mapping fb)) \<and>
     (case st_loop s of None \<Rightarrow> True | Some lp \<Rightarrow> list_all validate_step_mapping (lp_body lp)) \<and>
     (case st_if s of
        None \<Rightarrow> True
      | Some br \<Rightarrow> list_all validate_step_mapping (if_then br) \<and>
                   list_all validate_step_mapping (if_else br))"
  by auto
termination
  by (relation "measure size") (auto intro: step_block_smaller)

declare validate_step_mapping.simps [simp del]

definition try_map_steps :: "Step list \<Rightarrow> EntryStep list option" where
  "try_map_steps steps =
     (if list_all validate_step_mapping steps then Some (map (\<lambda>s. the (map_step s)) steps) else None)"

section \<open>The predicate mirror\<close>

lemma mirrored_leaf:
  "parse_hex_code (leaf_prop l) = Some c \<Longrightarrow>
   leaf_eval \<lparr>leaf_prop = lit ''0x'' @ fmt_hex 4 (unat c), leaf_mask = leaf_mask l, leaf_eq = leaf_eq l,
     leaf_ne = leaf_ne l, leaf_lt = leaf_lt l, leaf_gt = leaf_gt l\<rparr> pv = leaf_eval l pv"
  using hex_codes_round_trip(2) [of c] by (cases "pv c") (simp_all add: leaf_eval_def hex_u16_serialize_def)

lemma mirrored_list:
  assumes "\<And>p q. p \<in> set ps \<Longrightarrow> predicate_to_ffi p = Some q \<Longrightarrow>
      pred_eval (predicate_from_ffi q) pv = pred_eval p pv"
    "collect_options (map predicate_to_ffi ps) = Some qs"
  shows "map (\<lambda>q. pred_eval (predicate_from_ffi q) pv) qs = map (\<lambda>p. pred_eval p pv) ps"
  using collect_options_map [OF assms(2)] assms(1)
  by (induction ps qs rule: list_all2_induct) auto

text \<open>C12: a condition means the same on both sides of the application seam. When a manifest
  predicate is mirrored and translated back for evaluation, the result holds of exactly the
  observations of which the original holds.\<close>
theorem predicate_mirror_equivalent:
  assumes "predicate_to_ffi p = Some q"
  shows "pred_eval (predicate_from_ffi q) pv = pred_eval p pv"
  using assms
proof (induction p arbitrary: q)
  case (P_All ps)
  then obtain qs where qs: "collect_options (map predicate_to_ffi ps) = Some qs" "q = F_All qs" by auto
  have "list_all id (map (\<lambda>q. pred_eval (predicate_from_ffi q) pv) qs)
      = list_all id (map (\<lambda>p. pred_eval p pv) ps)"
    using mirrored_list [OF P_All.IH qs(1)] by simp
  then show ?case using qs(2) by (simp add: list_all_iff)
next
  case (P_Any ps)
  then obtain qs where qs: "collect_options (map predicate_to_ffi ps) = Some qs" "q = F_Any qs" by auto
  have "list_ex id (map (\<lambda>q. pred_eval (predicate_from_ffi q) pv) qs)
      = list_ex id (map (\<lambda>p. pred_eval p pv) ps)"
    using mirrored_list [OF P_Any.IH qs(1)] by simp
  then show ?case using qs(2) by (simp add: list_ex_iff)
next
  case (P_Leaf l)
  then show ?case using mirrored_leaf by auto
qed auto

theorem predicate_mirror_equivalent_witness:
  "\<exists>q. predicate_to_ffi (P_Not (P_Leaf card_leaf)) = Some q \<and>
     pred_eval (predicate_from_ffi q) (view_of [(0xd212, 1)]) = pred_eval (P_Not (P_Leaf card_leaf)) (view_of [(0xd212, 1)])"
proof -
  have "case predicate_to_ffi (P_Not (P_Leaf card_leaf)) of None \<Rightarrow> False | Some _ \<Rightarrow> True"
    by code_simp
  then obtain q where "predicate_to_ffi (P_Not (P_Leaf card_leaf)) = Some q" by (auto split: option.split_asm)
  then show ?thesis using predicate_mirror_equivalent by blast
qed

end
