(* ===== verification/Ptp_Values.thy ===== *)
theory Ptp_Values
  imports Ffi_Steps
begin

text \<open>
  What the step executor reads and writes: the store's property codecs
  (\<^verbatim>\<open>crates/camera-protocol-ffi/src/lib.rs\<close>) and the pure helpers of
  \<^verbatim>\<open>crates/camera-protocol-ffi/src/ptp_executor.rs\<close> that decode payloads, encode runtime values and
  describe steps.

  A failure text is a \<open>Detail\<close>: the message the code formats, by its template and its arguments.
  An outer option is the panic of the record-stream decoder.
\<close>

section \<open>Failure texts\<close>

datatype PtpTransportError = NotConnected | Timeout ustring | Failed ustring

datatype PtpTransactionError =
    TE_NotConnected
  | TE_DeviceGone
  | TE_Stall ustring
  | TE_Timeout ustring
  | TE_NotAuthorized ustring
  | TE_Failed ustring

fun transport_error_from :: "PtpTransactionError \<Rightarrow> PtpTransportError" where
  "transport_error_from TE_NotConnected = NotConnected"
| "transport_error_from (TE_Timeout d) = Timeout d"
| "transport_error_from TE_DeviceGone = Failed (lit ''device detached mid-operation'')"
| "transport_error_from (TE_Stall d) = Failed (lit ''endpoint stalled: '' @ d)"
| "transport_error_from (TE_NotAuthorized d) = Failed (lit ''platform denied device access: '' @ d)"
| "transport_error_from (TE_Failed d) = Failed (lit ''transaction transport failure: '' @ d)"

datatype Detail =
    D_NoScalarWidth u16
  | D_Codec CodecError
  | D_ValueOutOfRange
  | D_Unbound ustring
  | D_ExceedsU32 ustring
  | D_NotBoundU64 ustring
  | D_CollectionUnbound ustring
  | D_CollectionTooLong
  | D_ChunkTotalUnbound
  | D_ChunkSizeZero
  | D_TooManyWindows
  | D_Response u16 u16                 \<comment> \<open>operation, response code\<close>
  | D_Transport PtpTransportError
  | D_Sink ustring
  | D_StepDeadline nat
  | D_AwaitDeadline nat
  | D_TransportDeadline nat
  | D_DuplicateStart
  | D_DeclaredTooLong u64
  | D_OutsideDataPhase ustring
  | D_PayloadTooLong
  | D_DuplicateData
  | D_DataTooLong nat
  | D_Incomplete u64 nat
  | D_UnexpectedFrame u32
  | D_FrameLimit
  | D_WrongEvent u16
  | D_BestEffortNeedsPoll
  | D_NoPolledValue
  | D_EventRejected
  | D_MixedCaptures
  | D_RecordStreamCapture
  | D_CaptureSource ustring
  | D_PropDecode u16 DecodeError
  | D_Decode DecodeError
  | D_ArrayLength
  | D_ArrayCount u32
  | D_RecordStream
  | D_Skipped u16 "RecordStreamDiagnostic list"
  | D_Undeclared u16
  | D_NeedsString u16
  | D_NeedsNumber u16
  | D_ExceedsI64 u16
  | D_NeedsFields u16 nat
  | D_DaemonForbids ustring
  | D_NeedsFrameTransport
  | D_Sentinel ustring

section \<open>Property codecs of the store\<close>

definition property_value_width :: "CameraManifest \<Rightarrow> u16 \<Rightarrow> ValueWidth option" where
  "property_value_width m prop =
     (case property m prop of None \<Rightarrow> None
      | Some p \<Rightarrow>
          (case pr_ptype p of None \<Rightarrow> None
           | Some t \<Rightarrow>
               if t = lit ''u8'' then Some VW_U8
               else if t = lit ''u16'' then Some VW_U16
               else if t = lit ''u32'' then Some VW_U32
               else if t = lit ''i16'' then Some VW_I16
               else if t = lit ''i32'' then Some VW_I32
               else None))"

record PayloadInfo =
  pi_count_width :: "nat option"
  pi_record :: "RecordLayout option"
  pi_members :: "(u16 \<times> RecordValueEncoding) list"

definition payload_info :: "Payload \<Rightarrow> PayloadInfo" where
  "payload_info p =
     (case record_widths p of
        (_, _, default_value_width) \<Rightarrow>
          \<lparr>pi_count_width = pl_count_width p, pi_record = pl_record p,
           pi_members =
             List.map_filter
               (\<lambda>m. map_option (\<lambda>c. (c, member_encoding default_value_width m)) (parse_hex_code (member_code m)))
               (pl_members p)\<rparr>)"

definition property_payload :: "CameraManifest \<Rightarrow> u16 \<Rightarrow> PayloadInfo option" where
  "property_payload m prop =
     (case property m prop of None \<Rightarrow> None | Some p \<Rightarrow> map_option payload_info (pr_payload p))"

definition record_stream_descriptor :: "PayloadInfo \<Rightarrow> RecordStreamError + RecordStreamDescriptor" where
  "record_stream_descriptor info =
     res_bind
       (layout_new
          (case pi_count_width info of None \<Rightarrow> 2 | Some w \<Rightarrow> w)
          (case pi_record info of None \<Rightarrow> 2 | Some r \<Rightarrow> rl_code_width r)
          (case pi_record info of None \<Rightarrow> 4 | Some r \<Rightarrow> rl_value_width r))
       (\<lambda>lay. descriptor_new lay (pi_members info))"

definition ffi_parse_record_stream :: "bytes \<Rightarrow> PayloadInfo \<Rightarrow> (CodecError + DecodedRecordStream) option" where
  "ffi_parse_record_stream payload info =
     (case record_stream_descriptor info of
        Inl _ \<Rightarrow> Some (Inl CodecDecode)
      | Inr d \<Rightarrow> map_option (codec_result CodecDecode) (parse_typed_record_stream payload d))"

definition is_string_property :: "Property \<Rightarrow> bool" where
  "is_string_property p \<longleftrightarrow> pr_ptype p = Some (lit ''str'')"

definition encode_property_text :: "CameraManifest \<Rightarrow> u16 \<Rightarrow> ustring \<Rightarrow> CodecError + bytes" where
  "encode_property_text m prop text =
     (case property m prop of
        None \<Rightarrow> Inl CodecEncode
      | Some p \<Rightarrow>
          if is_string_property p then codec_result CodecEncode (wr_run (wr_ptp_string text)) else Inl CodecEncode)"

definition encode_structured_integer_property ::
  "CameraManifest \<Rightarrow> u16 \<Rightarrow> int list \<Rightarrow> CodecError + bytes" where
  "encode_structured_integer_property m prop vs =
     (case property m prop of
        None \<Rightarrow> Inl CodecEncode
      | Some p \<Rightarrow>
          if \<not> is_string_property p then Inl CodecEncode
          else (case pr_structured_text p of
             None \<Rightarrow> Inl CodecEncode
           | Some lay \<Rightarrow>
               if length vs \<noteq> length (tl_fields lay) \<or>
                  list_ex (\<lambda>f. tf_scalar f \<noteq> SignedInteger) (tl_fields lay)
               then Inl CodecEncode
               else encode_property_text m prop (join (tl_delimiter lay) (map int_decimal vs))))"

definition transport_close :: "CameraManifest \<Rightarrow> ustring \<Rightarrow> Detail + bytes option" where
  "transport_close m connection =
     (case map_of (cm_connections m) connection of
        None \<Rightarrow> Inr None
      | Some c \<Rightarrow>
          (case cn_transport_close c of
             None \<Rightarrow> Inr None
           | Some sentinel \<Rightarrow>
               (case map_of (cm_sentinels m) sentinel of
                  None \<Rightarrow> Inl (D_Sentinel sentinel)
                | Some text \<Rightarrow>
                    (case parse_hex_bytes text of
                       None \<Rightarrow> Inl (D_Sentinel sentinel)
                     | Some packet \<Rightarrow> Inr (Some packet)))))"

definition build_data :: "PtpFraming \<Rightarrow> u16 \<Rightarrow> u32 \<Rightarrow> bytes \<Rightarrow> (CodecError + bytes) option" where
  "build_data framing opc txn payload =
     (case framing of
        Compressed \<Rightarrow> map_option Inr (fuji_encode_data opc txn payload)
      | Usb \<Rightarrow> Some (Inr (usb_encode_data opc txn payload))
      | Standard \<Rightarrow>
          Some (frame_encode Standard (P_Data \<lparr>db_transaction_id = txn, db_payload = payload\<rparr>)))"

section \<open>Text fields\<close>

text \<open>\<^verbatim>\<open>str::split\<close> with a text separator: leftmost matches that do not overlap; the empty separator
  matches before, between and after the characters.\<close>

function split_on :: "ustring \<Rightarrow> ustring \<Rightarrow> ustring \<Rightarrow> ustring list" where
  "split_on d acc [] = [rev acc]"
| "split_on d acc (c # cs) =
     (if d \<noteq> [] \<and> take (length d) (c # cs) = d
      then rev acc # split_on d [] (drop (length d) (c # cs))
      else split_on d (c # acc) cs)"
  by pat_completeness auto
termination
  by (relation "measure (\<lambda>(d, acc, cs). length cs)") (auto simp: neq_Nil_conv)

definition split_text :: "ustring \<Rightarrow> ustring \<Rightarrow> ustring list" where
  "split_text d s = (if d = [] then [[]] @ map (\<lambda>c. [c]) s @ [[]] else split_on d [] s)"

definition ascii_digit :: "nat \<Rightarrow> bool" where
  "ascii_digit c \<longleftrightarrow> 48 \<le> c \<and> c \<le> 57"

definition decimal_read :: "ustring \<Rightarrow> nat" where
  "decimal_read ds = foldl (\<lambda>n c. 10 * n + (c - 48)) 0 ds"

definition parse_signed_decimal :: "ustring \<Rightarrow> int option" where
  "parse_signed_decimal s =
     (let negative = (case s of c # _ \<Rightarrow> c = 45 | [] \<Rightarrow> False);
          digits = (case s of c # cs \<Rightarrow> if c = 45 \<or> c = 43 then cs else s | [] \<Rightarrow> s)
      in if digits = [] \<or> \<not> list_all ascii_digit digits then None
         else if negative
         then (if decimal_read digits \<le> 2 ^ 63 then Some (- int (decimal_read digits)) else None)
         else (if decimal_read digits < 2 ^ 63 then Some (int (decimal_read digits)) else None))"

section \<open>Runtime values\<close>

fun action_value_u64 :: "ActionArgumentValue \<Rightarrow> u64 option" where
  "action_value_u64 (AV_U64 v) = Some v"
| "action_value_u64 (AV_String s) = None"

definition detail_of :: "(CodecError + 'a) \<Rightarrow> Detail + 'a" where
  "detail_of r = (case r of Inl e \<Rightarrow> Inl (D_Codec e) | Inr x \<Rightarrow> Inr x)"

definition encode_runtime_property_value ::
  "CameraManifest \<Rightarrow> u16 \<Rightarrow> ActionArgumentValue \<Rightarrow> Detail + bytes" where
  "encode_runtime_property_value m prop v =
     (case property m prop of
        None \<Rightarrow> Inl (D_Undeclared prop)
      | Some p \<Rightarrow>
          (case v of
             AV_U64 n \<Rightarrow>
               if is_string_property p then Inl (D_NeedsString prop)
               else (case property_value_width m prop of
                  None \<Rightarrow> Inl (D_NoScalarWidth prop)
                | Some width \<Rightarrow>
                    if unat n \<ge> 2 ^ 63 then Inl (D_ExceedsI64 prop)
                    else (case encode_value (uint n) width of
                       Inl _ \<Rightarrow> Inl D_ValueOutOfRange | Inr bs \<Rightarrow> Inr bs))
           | AV_String s \<Rightarrow>
               if \<not> is_string_property p then Inl (D_NeedsNumber prop)
               else (case pr_structured_text p of
                  None \<Rightarrow> detail_of (encode_property_text m prop s)
                | Some lay \<Rightarrow>
                    (let fields = split_text (tl_delimiter lay) s
                     in if length fields \<noteq> length (tl_fields lay)
                        then Inl (D_NeedsFields prop (length (tl_fields lay)))
                        else (case collect_options (map parse_signed_decimal fields) of
                           None \<Rightarrow> Inl (D_NeedsFields prop (length (tl_fields lay)))
                         | Some vs \<Rightarrow> detail_of (encode_structured_integer_property m prop vs))))))"

section \<open>Payloads\<close>

definition read_scalar :: "'a rd \<Rightarrow> bytes \<Rightarrow> DecodeError + 'a" where
  "read_scalar r payload = (case r (Reader_new payload) of Inl e \<Rightarrow> Inl e | Inr (v, _) \<Rightarrow> Inr v)"

definition decode_scalar :: "ValueWidth \<Rightarrow> bytes \<Rightarrow> DecodeError + int" where
  "decode_scalar width payload =
     (case width of
        VW_U8 \<Rightarrow> res_bind (read_scalar rd_u8 payload) (\<lambda>v. Inr (uint v))
      | VW_U16 \<Rightarrow> res_bind (read_scalar rd_u16 payload) (\<lambda>v. Inr (uint v))
      | VW_U32 \<Rightarrow> res_bind (read_scalar rd_u32 payload) (\<lambda>v. Inr (uint v))
      | VW_I16 \<Rightarrow> res_bind (read_scalar rd_u16 payload) (\<lambda>v. Inr (sint v))
      | VW_I32 \<Rightarrow> res_bind (read_scalar rd_u32 payload) (\<lambda>v. Inr (sint v)))"

definition MAX_FOREACH_ITERS :: nat where
  "MAX_FOREACH_ITERS = 100000"

fun u32_chunks :: "bytes \<Rightarrow> u64 list" where
  "u32_chunks (a # b # c # d # bs) = of_nat (le_dec [a, b, c, d]) # u32_chunks bs"
| "u32_chunks bs = []"

definition decode_u32_array :: "bytes \<Rightarrow> Detail + u64 list" where
  "decode_u32_array payload =
     (if length payload < 4 then Inl D_ArrayLength
      else
        (let count = le_dec (take 4 payload)
         in if count > MAX_FOREACH_ITERS then Inl (D_ArrayCount (of_nat count))
            else if length payload \<noteq> 4 + 4 * count then Inl D_ArrayLength
            else Inr (u32_chunks (drop 4 payload))))"

fun ptp_value_i64 :: "PropValue \<Rightarrow> int option" where
  "ptp_value_i64 (PV_I8 v) = Some (sint v)"
| "ptp_value_i64 (PV_U8 v) = Some (uint v)"
| "ptp_value_i64 (PV_I16 v) = Some (sint v)"
| "ptp_value_i64 (PV_U16 v) = Some (uint v)"
| "ptp_value_i64 (PV_I32 v) = Some (sint v)"
| "ptp_value_i64 (PV_U32 v) = Some (uint v)"
| "ptp_value_i64 (PV_I64 v) = Some (sint v)"
| "ptp_value_i64 (PV_U64 v) = (if unat v < 2 ^ 63 then Some (uint v) else None)"
| "ptp_value_i64 (PV_Str s) = None"

section \<open>Descriptions of steps\<close>

fun step_verb :: "EntryStep \<Rightarrow> ustring" where
  "step_verb (SetProp p v t) = lit ''setProp''"
| "step_verb (SetPropRuntime p s m t) = lit ''setProp''"
| "step_verb (GetProp p c t) = lit ''getProp''"
| "step_verb (ReadEcho p c t) = lit ''readEcho''"
| "step_verb (SendOp h ps c n t) = lit ''sendOp''"
| "step_verb (OpenChannel r t) = lit ''openChannel''"
| "step_verb (ReopenSession t) = lit ''reopenSession''"
| "step_verb (CloseSession tc t) = lit ''closeSession''"
| "step_verb (AwaitUntilStep s u b c d i t) = lit ''awaitUntil''"
| "step_verb (Retry b f rc fc n d t) = lit ''retry''"
| "step_verb (ForEachLoop c s b t) = lit ''loop''"
| "step_verb (ChunkLoop n s off len b t) = lit ''loop''"
| "step_verb (If s v b t) = lit ''if''"
| "step_verb (IfElse s v b c t) = lit ''if''"

fun step_tolerant :: "EntryStep \<Rightarrow> bool" where
  "step_tolerant (SetProp p v t) = t"
| "step_tolerant (SetPropRuntime p s m t) = t"
| "step_tolerant (GetProp p c t) = t"
| "step_tolerant (ReadEcho p c t) = t"
| "step_tolerant (SendOp h ps c n t) = t"
| "step_tolerant (OpenChannel r t) = t"
| "step_tolerant (ReopenSession t) = t"
| "step_tolerant (CloseSession tc t) = t"
| "step_tolerant (AwaitUntilStep s u b c d i t) = t"
| "step_tolerant (Retry b f rc fc n d t) = t"
| "step_tolerant (ForEachLoop c s b t) = t"
| "step_tolerant (ChunkLoop n s off len b t) = t"
| "step_tolerant (If s v b t) = False"
| "step_tolerant (IfElse s v b c t) = False"

fun step_codes :: "EntryStep \<Rightarrow> (ustring \<times> ActionArgumentValue) list \<Rightarrow> u16 option \<times> u16 option" where
  "step_codes (SetProp p v t) rt = (Some SET_DEVICE_PROP_VALUE, Some p)"
| "step_codes (SetPropRuntime p slot missing t) rt =
     (if missing \<noteq> MR_Skip \<or> map_of rt slot \<noteq> None then (Some SET_DEVICE_PROP_VALUE, Some p)
      else (None, None))"
| "step_codes (GetProp p c t) rt = (Some GET_DEVICE_PROP_VALUE, Some p)"
| "step_codes (ReadEcho p c t) rt = (Some GET_DEVICE_PROP_VALUE, Some p)"
| "step_codes (SendOp h ps c n t) rt = (Some h, None)"
| "step_codes (OpenChannel r t) rt = (None, None)"
| "step_codes (ReopenSession t) rt = (Some OPEN_SESSION, None)"
| "step_codes (CloseSession tc t) rt = (Some CLOSE_SESSION, None)"
| "step_codes (AwaitUntilStep (FA_Poll p) u b c d i t) rt = (Some GET_DEVICE_PROP_VALUE, Some p)"
| "step_codes (AwaitUntilStep (FA_Event e tp) u b c d i t) rt =
     (map_option (\<lambda>_. GET_DEVICE_PROP_VALUE) tp, tp)"
| "step_codes (Retry b f rc fc n d t) rt = (None, None)"
| "step_codes (ForEachLoop c s b t) rt = (None, None)"
| "step_codes (ChunkLoop n s off len b t) rt = (None, None)"
| "step_codes (If s v b t) rt = (None, None)"
| "step_codes (IfElse s v b c t) rt = (None, None)"

end
