(* ===== verification/Ptp_Transaction.thy ===== *)
theory Ptp_Transaction
  imports Ptp_Values
begin

text \<open>
  The step executor of the application seam (\<^verbatim>\<open>crates/camera-protocol-ffi/src/ptp_executor.rs\<close>): one
  transaction over either transport, the grammar of steps with retries, loops, conditions and
  waiting, and the guarded entry of a run.

  The host's transport is a parameter: a record of calls that map a host state to an answer and the
  next host state. A call is raced against clocks. It is told their budgets, its own first and then
  those of the steps it is nested in, innermost first, and answers with a result or with the clock
  that fired. The clock of an enclosing step drops what runs inside it: \<open>Preempt k\<close> unwinds to the
  \<open>k\<close>-th enclosing scope, without running the code in between. Step reports, activity events and the
  host state are part of the run's state.

  The waiting loop has no bound of its own, so it takes fuel; \<open>Stuck\<close> is running out of it. \<open>Panic\<close> is
  the panic of a decoder or encoder.
\<close>

section \<open>Results\<close>

datatype FailureClass = FC_Response | FC_Deadline | FC_Transport | FC_Decode | FC_Other

record TxMeta =
  tx_operation :: u16
  tx_property :: "u16 option"
  tx_response_code :: u16
  tx_transaction_id :: u32

record StepError =
  se_step :: ustring
  se_detail :: Detail
  se_class :: FailureClass
  se_meta :: "TxMeta option"

record WireReply =
  wr_meta :: TxMeta
  wr_payload :: bytes

record PtpDataOutput =
  do_step_path :: ustring
  do_operation :: u16
  do_transaction_id :: u32
  do_payload :: bytes
  do_response_params :: "u32 list"

datatype StepOutcome = SO_Started | SO_Succeeded | SO_Tolerated | SO_Failed

record StepReport =
  sr_step_path :: ustring
  sr_verb :: ustring
  sr_characteristic :: "ustring option"
  sr_operation :: "u16 option"
  sr_property :: "u16 option"
  sr_response_code :: "u16 option"
  sr_transaction_id :: "u32 option"
  sr_tolerant :: bool
  sr_outcome :: StepOutcome
  sr_error :: "Detail option"
  sr_attempts :: nat
  sr_activity_id :: "ustring option"
  sr_activity_version :: "u32 option"

section \<open>Activities\<close>

datatype ExecutorStepFailureKind = DeadlineExceeded | ConditionRejected | OtherFailure

record ConnectionActivityRetry =
  cr_ordinal :: nat
  cr_limit :: nat
  cr_failure :: ExecutorStepFailureKind

datatype ConnectionActivityEvent =
    AE_Started ustring u32
  | AE_Retrying ustring u32 ConnectionActivityRetry
  | AE_Succeeded ustring u32 nat "ConnectionActivityRetry option"
  | AE_Failed ustring u32 nat "ConnectionActivityRetry option" ExecutorStepFailureKind

record ActiveActivity =
  aa_id :: ustring
  aa_version :: u32
  aa_retry_count :: nat
  aa_last_retry :: "ConnectionActivityRetry option"

record PtpActiveActivity =
  pa_descriptor :: ConnectionActivityDescriptor
  pa_lifecycle :: ActiveActivity

section \<open>The host\<close>

datatype ('c, 'e, 'a) race =
    Settled "'e + 'a"
  | Fired nat "'c + unit"

type_synonym ('a, 'w) host_call =
  "nat list \<Rightarrow> 'w \<Rightarrow> (PtpTransportError, PtpTransportError, 'a) race \<times> 'w"

type_synonym ('a, 'w) typed_call =
  "nat list \<Rightarrow> 'w \<Rightarrow> (PtpTransactionError, PtpTransactionError, 'a) race \<times> 'w"

record PtpSessionOpenResult =
  so_transaction_id :: u32
  so_response_code :: u16
  so_response_params :: "u32 list"

record 'w PtpExecutorTransport =
  reserve_transaction_id :: "(u32, 'w) host_call"
  send_command_frame :: "bytes \<Rightarrow> (unit, 'w) host_call"
  next_command_frame :: "(bytes, 'w) host_call"
  next_event_frame :: "u16 \<Rightarrow> (bytes, 'w) host_call"
  open_channel :: "SocketRole \<Rightarrow> (unit, 'w) host_call"
  close_command_channel :: "bytes option \<Rightarrow> (unit, 'w) host_call"
  reopen_command_session :: "(PtpSessionOpenResult, 'w) host_call"
  sleep_frame :: "nat \<Rightarrow> (unit, 'w) host_call"

record PtpTransactionResult =
  tr_response_code :: u16
  tr_params :: "u32 list"
  tr_data_in :: "bytes option"

record PtpTransactionEvent =
  te_event_code :: u16
  te_params :: "u32 list"

record 'w PtpTransactionTransport =
  txn_execute :: "u16 \<Rightarrow> u32 list \<Rightarrow> bytes option \<Rightarrow> nat \<Rightarrow> (PtpTransactionResult, 'w) typed_call"
  txn_next_event :: "u16 \<Rightarrow> (PtpTransactionEvent, 'w) typed_call"
  txn_sleep :: "nat \<Rightarrow> (unit, 'w) typed_call"

datatype 'w TxnBackend =
    Frame "'w PtpExecutorTransport"
  | Transaction "'w PtpTransactionTransport"

type_synonym 'w PtpDataOutputSink =
  "PtpDataOutput \<Rightarrow> nat list \<Rightarrow> 'w \<Rightarrow> (PtpTransportError, ustring, unit) race \<times> 'w"

fun race_from :: "(PtpTransactionError, PtpTransactionError, 'a) race \<Rightarrow>
    (PtpTransportError, PtpTransportError, 'a) race" where
  "race_from (Settled (Inl e)) = Settled (Inl (transport_error_from e))"
| "race_from (Settled (Inr a)) = Settled (Inr a)"
| "race_from (Fired k (Inl e)) = Fired k (Inl (transport_error_from e))"
| "race_from (Fired k (Inr u)) = Fired k (Inr u)"

definition typed_host :: "('a, 'w) typed_call \<Rightarrow> ('a, 'w) host_call" where
  "typed_host call budgets w = (case call budgets w of (r, w') \<Rightarrow> (race_from r, w'))"

definition backend_sleep :: "'w TxnBackend \<Rightarrow> nat \<Rightarrow> (unit, 'w) host_call" where
  "backend_sleep b ms = (case b of Frame t \<Rightarrow> sleep_frame t ms | Transaction t \<Rightarrow> typed_host (txn_sleep t ms))"

section \<open>The state of a run\<close>

record 'w PtpCtx =
  cx_observed :: PropView
  cx_bindings :: "(ustring \<times> ActionArgumentValue) list"
  cx_collections :: "(ustring \<times> u64 list) list"
  cx_outputs :: "PtpDataOutput list"
  cx_steps_run :: u32
  cx_control_attempts :: "nat option"
  cx_deferred_tolerance :: "StepError option"
  cx_active_activity :: "PtpActiveActivity option"
  cx_reports :: "StepReport list"
  cx_activity_events :: "ConnectionActivityEvent list"
  cx_world :: 'w

record 'w PtpEnv =
  en_manifest :: CameraManifest
  en_connection :: ustring
  en_command_framing :: PtpFraming
  en_event_framing :: PtpFraming
  en_event_delivery :: EventDelivery
  en_session_ownership :: "SessionOwnership option"
  en_backend :: "'w TxnBackend"
  en_activities :: "ConnectionActivityDescriptor list"
  en_runtime_params :: "(ustring \<times> ActionArgumentValue) list"
  en_output_sink :: "'w PtpDataOutputSink option"
  en_clocks :: "nat list"   \<comment> \<open>budgets of the enclosing scopes, innermost first\<close>
  en_fuel :: nat

datatype 'a walk =
    Val 'a
  | Err StepError
  | Preempt nat "PtpTransportError + unit"
  | Panic
  | Stuck

type_synonym ('a, 'w) exec = "'w PtpCtx \<Rightarrow> 'a walk \<times> 'w PtpCtx"

definition x_return :: "'a \<Rightarrow> ('a, 'w) exec" where
  "x_return a st = (Val a, st)"

definition x_fail :: "StepError \<Rightarrow> ('a, 'w) exec" where
  "x_fail e st = (Err e, st)"

text \<open>Matching on the result of a computation that returned, with a value or with an error.\<close>

definition x_handle ::
  "('a, 'w) exec \<Rightarrow> ('a \<Rightarrow> ('b, 'w) exec) \<Rightarrow> (StepError \<Rightarrow> ('b, 'w) exec) \<Rightarrow> ('b, 'w) exec" where
  "x_handle m f g st =
     (case m st of
        (Val a, st') \<Rightarrow> f a st'
      | (Err e, st') \<Rightarrow> g e st'
      | (Preempt k c, st') \<Rightarrow> (Preempt k c, st')
      | (Panic, st') \<Rightarrow> (Panic, st')
      | (Stuck, st') \<Rightarrow> (Stuck, st'))"

definition x_bind :: "('a, 'w) exec \<Rightarrow> ('a \<Rightarrow> ('b, 'w) exec) \<Rightarrow> ('b, 'w) exec" where
  "x_bind m f = x_handle m f x_fail"

definition x_modify :: "('w PtpCtx \<Rightarrow> 'w PtpCtx) \<Rightarrow> (unit, 'w) exec" where
  "x_modify f st = (Val (), f st)"

definition x_lift :: "StepError + 'a \<Rightarrow> ('a, 'w) exec" where
  "x_lift r st = (case r of Inl e \<Rightarrow> (Err e, st) | Inr a \<Rightarrow> (Val a, st))"

definition other :: "ustring \<Rightarrow> Detail \<Rightarrow> StepError" where
  "other here d = \<lparr>se_step = here, se_detail = d, se_class = FC_Other, se_meta = None\<rparr>"

definition decode_failure :: "ustring \<Rightarrow> Detail \<Rightarrow> StepError" where
  "decode_failure here d = \<lparr>se_step = here, se_detail = d, se_class = FC_Decode, se_meta = None\<rparr>"

definition deadline_error :: "ustring \<Rightarrow> Detail \<Rightarrow> StepError" where
  "deadline_error here d = \<lparr>se_step = here, se_detail = d, se_class = FC_Deadline, se_meta = None\<rparr>"

definition response_error :: "ustring \<Rightarrow> TxMeta \<Rightarrow> StepError" where
  "response_error here meta =
     \<lparr>se_step = here, se_detail = D_Response (tx_operation meta) (tx_response_code meta),
      se_class = FC_Response, se_meta = Some meta\<rparr>"

definition transport_step_error :: "ustring \<Rightarrow> PtpTransportError \<Rightarrow> StepError" where
  "transport_step_error here e =
     \<lparr>se_step = here, se_detail = D_Transport e,
      se_class = (case e of Timeout _ \<Rightarrow> FC_Deadline | _ \<Rightarrow> FC_Transport), se_meta = None\<rparr>"

section \<open>Clocks\<close>

definition DEFAULT_OP_TIMEOUT_MS :: nat where
  "DEFAULT_OP_TIMEOUT_MS = 10000"

definition DEFAULT_STEP_TIMEOUT_MS :: nat where
  "DEFAULT_STEP_TIMEOUT_MS = 60000"

definition DEFAULT_POLL_INTERVAL_MS :: nat where
  "DEFAULT_POLL_INTERVAL_MS = 200"

definition clock_result :: "ustring \<Rightarrow> Detail \<Rightarrow> PtpTransportError + unit \<Rightarrow> 'a walk" where
  "clock_result here d c =
     (case c of Inl e \<Rightarrow> Err (transport_step_error here e) | Inr _ \<Rightarrow> Err (deadline_error here d))"

text \<open>An index beyond the enclosing scopes names the outermost one.\<close>

definition preempt :: "'w PtpEnv \<Rightarrow> nat \<Rightarrow> PtpTransportError + unit \<Rightarrow> 'a walk" where
  "preempt env k c = Preempt (min k (length (en_clocks env) - 1)) c"

definition transport_deadline ::
  "'w PtpEnv \<Rightarrow> ustring \<Rightarrow> nat \<Rightarrow> ('a, 'w) host_call \<Rightarrow> ('a, 'w) exec" where
  "transport_deadline env here timeout_ms call st =
     (case call (timeout_ms # en_clocks env) (cx_world st) of
        (r, w) \<Rightarrow>
          (let st' = st\<lparr>cx_world := w\<rparr>
           in (case r of
                 Settled (Inl e) \<Rightarrow> (Err (transport_step_error here e), st')
               | Settled (Inr a) \<Rightarrow> (Val a, st')
               | Fired k c \<Rightarrow>
                   (if k = 0 then clock_result here (D_TransportDeadline timeout_ms) c
                    else preempt env (k - 1) c, st'))))"

definition with_clock :: "nat \<Rightarrow> 'w PtpEnv \<Rightarrow> 'w PtpEnv" where
  "with_clock budget env = env\<lparr>en_clocks := budget # en_clocks env\<rparr>"

text \<open>The race of a whole body against a clock.\<close>

definition clocked :: "ustring \<Rightarrow> Detail \<Rightarrow> ('a, 'w) exec \<Rightarrow> ('a, 'w) exec" where
  "clocked here d body st =
     (case body st of
        (Preempt k c, st') \<Rightarrow> (if k = 0 then clock_result here d c else Preempt (k - 1) c, st')
      | r \<Rightarrow> r)"

section \<open>The data phase\<close>

definition MAX_COMMAND_FRAMES :: nat where
  "MAX_COMMAND_FRAMES = 65536"

definition MAX_DATA_PHASE_BYTES :: nat where
  "MAX_DATA_PHASE_BYTES = 512 * 1024 * 1024"

definition check_data_frame ::
  "PtpFraming \<Rightarrow> ustring \<Rightarrow> nat \<Rightarrow> nat \<Rightarrow> u64 option \<Rightarrow> bool \<Rightarrow> bool \<Rightarrow> Detail + unit" where
  "check_data_frame framing frame_kind accumulated incoming standard_total standard_ended had_data =
     (case framing of
        Standard \<Rightarrow>
          (case standard_total of
             None \<Rightarrow> Inl (D_OutsideDataPhase frame_kind)
           | Some declared \<Rightarrow>
               if standard_ended then Inl (D_OutsideDataPhase frame_kind)
               else if sat_add u64_max accumulated incoming > unat declared then Inl D_PayloadTooLong
               else Inr ())
      | _ \<Rightarrow>
          if had_data then Inl D_DuplicateData
          else if incoming > MAX_DATA_PHASE_BYTES then Inl (D_DataTooLong incoming)
          else Inr ())"

record Receiving =
  rx_payload :: bytes
  rx_had_data :: bool
  rx_standard_total :: "u64 option"
  rx_standard_ended :: bool

definition receiving :: Receiving where
  "receiving = \<lparr>rx_payload = [], rx_had_data = False, rx_standard_total = None, rx_standard_ended = False\<rparr>"

definition accept_block ::
  "PtpFraming \<Rightarrow> ustring \<Rightarrow> bool \<Rightarrow> bytes \<Rightarrow> Receiving \<Rightarrow> Detail + Receiving" where
  "accept_block framing kind final block rx =
     res_bind
       (check_data_frame framing kind (length (rx_payload rx)) (length block) (rx_standard_total rx)
          (rx_standard_ended rx) (rx_had_data rx))
       (\<lambda>_. Inr (rx\<lparr>rx_had_data := True, rx_standard_ended := rx_standard_ended rx \<or> final,
                   rx_payload := rx_payload rx @ block\<rparr>))"

text \<open>One frame of the reply: the data phase goes on, or the response ends it.\<close>

definition accept_frame ::
  "PtpFraming \<Rightarrow> u32 \<Rightarrow> PtpIpPacket \<Rightarrow> Receiving \<Rightarrow> Detail + (Receiving + OperationResponse)" where
  "accept_frame framing tid packet rx =
     (case packet of
        P_StartData s \<Rightarrow>
          if sd_transaction_id s \<noteq> tid then Inl (D_UnexpectedFrame tid)
          else if framing \<noteq> Standard \<or> rx_standard_total rx \<noteq> None then Inl D_DuplicateStart
          else if unat (sd_total_length s) > MAX_DATA_PHASE_BYTES
          then Inl (D_DeclaredTooLong (sd_total_length s))
          else Inr (Inl (rx\<lparr>rx_had_data := True, rx_standard_total := Some (sd_total_length s)\<rparr>))
      | P_Data d \<Rightarrow>
          if db_transaction_id d \<noteq> tid then Inl (D_UnexpectedFrame tid)
          else res_bind (accept_block framing (lit ''data block'') False (db_payload d) rx) (\<lambda>rx'. Inr (Inl rx'))
      | P_EndData d \<Rightarrow>
          if db_transaction_id d \<noteq> tid then Inl (D_UnexpectedFrame tid)
          else res_bind (accept_block framing (lit ''data end'') True (db_payload d) rx) (\<lambda>rx'. Inr (Inl rx'))
      | P_OperationResponse r \<Rightarrow>
          if oresp_transaction_id r \<noteq> tid then Inl (D_UnexpectedFrame tid)
          else (case rx_standard_total rx of
             None \<Rightarrow> Inr (Inr r)
           | Some declared \<Rightarrow>
               if \<not> rx_standard_ended rx \<or> length (rx_payload rx) \<noteq> unat declared
               then Inl (D_Incomplete declared (length (rx_payload rx)))
               else Inr (Inr r))
      | _ \<Rightarrow> Inl (D_UnexpectedFrame tid))"

section \<open>One transaction\<close>

definition lift_detail :: "ustring \<Rightarrow> Detail + 'a \<Rightarrow> ('a, 'w) exec" where
  "lift_detail here r st = (case r of Inl d \<Rightarrow> (Err (other here d), st) | Inr a \<Rightarrow> (Val a, st))"

definition lift_codec :: "ustring \<Rightarrow> CodecError + 'a \<Rightarrow> ('a, 'w) exec" where
  "lift_codec here r = lift_detail here (detail_of r)"

definition emit_output :: "'w PtpEnv \<Rightarrow> ustring \<Rightarrow> TxMeta \<Rightarrow> PtpDataOutput \<Rightarrow> (unit, 'w) exec" where
  "emit_output env here meta output st =
     (case en_output_sink env of
        None \<Rightarrow> (Val (), st\<lparr>cx_outputs := cx_outputs st @ [output]\<rparr>)
      | Some sink \<Rightarrow>
          (case sink output (en_clocks env) (cx_world st) of
             (r, w) \<Rightarrow>
               (case r of
                  Settled (Inl d) \<Rightarrow>
                    Err \<lparr>se_step = here, se_detail = D_Sink d, se_class = FC_Other, se_meta = Some meta\<rparr>
                | Settled (Inr _) \<Rightarrow> Val ()
                | Fired k c \<Rightarrow> preempt env k c, st\<lparr>cx_world := w\<rparr>)))"

definition frame_reply ::
  "'w PtpEnv \<Rightarrow> ustring \<Rightarrow> u16 \<Rightarrow> u16 option \<Rightarrow> u32 \<Rightarrow> Receiving \<Rightarrow> OperationResponse \<Rightarrow>
    (WireReply, 'w) exec" where
  "frame_reply env here opc prop tid rx r =
     (let meta = \<lparr>tx_operation = opc, tx_property = prop, tx_response_code = oresp_code r,
                  tx_transaction_id = tid\<rparr>;
          reply = \<lparr>wr_meta = meta, wr_payload = rx_payload rx\<rparr>
      in if rx_had_data rx \<or> oresp_params r \<noteq> []
         then x_bind (emit_output env here meta
                \<lparr>do_step_path = here, do_operation = opc, do_transaction_id = tid,
                 do_payload = rx_payload rx, do_response_params = oresp_params r\<rparr>)
                (\<lambda>_. x_return reply)
         else x_return reply)"

fun receive_frames ::
  "'w PtpEnv \<Rightarrow> 'w PtpExecutorTransport \<Rightarrow> ustring \<Rightarrow> u16 \<Rightarrow> u16 option \<Rightarrow> u32 \<Rightarrow> nat \<Rightarrow> Receiving \<Rightarrow>
    (WireReply, 'w) exec" where
  "receive_frames env t here opc prop tid n rx =
     (if n = 0 then x_fail (other here D_FrameLimit)
      else
        x_bind (transport_deadline env here DEFAULT_OP_TIMEOUT_MS (next_command_frame t)) (\<lambda>frame.
        x_bind (lift_codec here (frame_decode (en_command_framing env) frame)) (\<lambda>packet.
        x_bind (lift_detail here (accept_frame (en_command_framing env) tid packet rx)) (\<lambda>r.
          case r of
            Inl rx' \<Rightarrow> receive_frames env t here opc prop tid (n - 1) rx'
          | Inr resp \<Rightarrow> frame_reply env here opc prop tid rx resp))))"

declare receive_frames.simps [simp del]

definition send_frame :: "'w PtpEnv \<Rightarrow> 'w PtpExecutorTransport \<Rightarrow> ustring \<Rightarrow> bytes \<Rightarrow> (unit, 'w) exec" where
  "send_frame env t here frame =
     transport_deadline env here DEFAULT_OP_TIMEOUT_MS (send_command_frame t frame)"

definition send_packet :: "'w PtpEnv \<Rightarrow> 'w PtpExecutorTransport \<Rightarrow> ustring \<Rightarrow> PtpIpPacket \<Rightarrow> (unit, 'w) exec" where
  "send_packet env t here packet =
     x_bind (lift_codec here (frame_encode (en_command_framing env) packet)) (send_frame env t here)"

definition send_data_out ::
  "'w PtpEnv \<Rightarrow> 'w PtpExecutorTransport \<Rightarrow> ustring \<Rightarrow> u16 \<Rightarrow> u32 \<Rightarrow> bytes \<Rightarrow> (unit, 'w) exec" where
  "send_data_out env t here opc tid payload =
     (case en_command_framing env of
        Standard \<Rightarrow>
          x_bind (send_packet env t here
                   (P_StartData \<lparr>sd_transaction_id = tid, sd_total_length = of_nat (length payload)\<rparr>))
            (\<lambda>_. send_packet env t here (P_EndData \<lparr>db_transaction_id = tid, db_payload = payload\<rparr>))
      | framing \<Rightarrow>
          (case build_data framing opc tid payload of
             None \<Rightarrow> Pair Panic
           | Some r \<Rightarrow> x_bind (lift_codec here r) (send_frame env t here)))"

definition issue_frames ::
  "'w PtpEnv \<Rightarrow> 'w PtpExecutorTransport \<Rightarrow> ustring \<Rightarrow> u16 \<Rightarrow> u32 list \<Rightarrow> bytes option \<Rightarrow> u16 option \<Rightarrow>
    (WireReply, 'w) exec" where
  "issue_frames env t here opc params data_out prop =
     x_bind (transport_deadline env here DEFAULT_OP_TIMEOUT_MS (reserve_transaction_id t)) (\<lambda>tid.
     x_bind (send_packet env t here
              (P_OperationRequest
                 \<lparr>oreq_data_phase_info = (if data_out = None then 1 else 2), oreq_code = opc,
                  oreq_transaction_id = tid, oreq_params = params\<rparr>)) (\<lambda>_.
     x_bind (case data_out of None \<Rightarrow> x_return () | Some payload \<Rightarrow> send_data_out env t here opc tid payload) (\<lambda>_.
       receive_frames env t here opc prop tid MAX_COMMAND_FRAMES receiving)))"

definition issue_typed ::
  "'w PtpEnv \<Rightarrow> 'w PtpTransactionTransport \<Rightarrow> ustring \<Rightarrow> u16 \<Rightarrow> u32 list \<Rightarrow> bytes option \<Rightarrow> u16 option \<Rightarrow>
    (WireReply, 'w) exec" where
  "issue_typed env t here opc params data_out prop =
     x_bind (transport_deadline env here DEFAULT_OP_TIMEOUT_MS
              (typed_host (txn_execute t opc params data_out DEFAULT_OP_TIMEOUT_MS))) (\<lambda>r.
       let payload = (case tr_data_in r of None \<Rightarrow> [] | Some bs \<Rightarrow> bs);
           meta = \<lparr>tx_operation = opc, tx_property = prop, tx_response_code = tr_response_code r,
                   tx_transaction_id = 0\<rparr>;
           reply = \<lparr>wr_meta = meta, wr_payload = payload\<rparr>
       in if payload \<noteq> [] \<or> tr_params r \<noteq> []
          then x_bind (emit_output env here meta
                 \<lparr>do_step_path = here, do_operation = opc, do_transaction_id = 0,
                  do_payload = payload, do_response_params = tr_params r\<rparr>)
                 (\<lambda>_. x_return reply)
          else x_return reply)"

definition issue ::
  "'w PtpEnv \<Rightarrow> ustring \<Rightarrow> u16 \<Rightarrow> u32 list \<Rightarrow> bytes option \<Rightarrow> u16 option \<Rightarrow> (WireReply, 'w) exec" where
  "issue env here opc params data_out prop =
     (case en_backend env of
        Frame t \<Rightarrow> issue_frames env t here opc params data_out prop
      | Transaction t \<Rightarrow> issue_typed env t here opc params data_out prop)"

definition frame_transport :: "'w PtpEnv \<Rightarrow> ustring \<Rightarrow> ('w PtpExecutorTransport, 'w) exec" where
  "frame_transport env here =
     (if en_session_ownership env = Some DaemonAttached
      then x_fail (other here (D_DaemonForbids (en_connection env)))
      else (case en_backend env of
         Frame t \<Rightarrow> x_return t
       | Transaction _ \<Rightarrow> x_fail (other here D_NeedsFrameTransport)))"

definition require_ok_reply :: "ustring \<Rightarrow> WireReply \<Rightarrow> (WireReply, 'w) exec" where
  "require_ok_reply here reply =
     (if tx_response_code (wr_meta reply) = OK then x_return reply
      else x_fail (response_error here (wr_meta reply)))"

definition require_ok :: "ustring \<Rightarrow> WireReply \<Rightarrow> (TxMeta, 'w) exec" where
  "require_ok here reply = x_bind (require_ok_reply here reply) (\<lambda>r. x_return (wr_meta r))"

definition require_ok_or_tolerate :: "ustring \<Rightarrow> WireReply \<Rightarrow> bool \<Rightarrow> (TxMeta, 'w) exec" where
  "require_ok_or_tolerate here reply tolerant =
     (let meta = wr_meta reply
      in if tx_response_code meta = OK then x_return meta
         else if tolerant
         then x_bind (x_modify (\<lambda>st. st\<lparr>cx_deferred_tolerance := Some (response_error here meta)\<rparr>))
                (\<lambda>_. x_return meta)
         else x_fail (response_error here meta))"

end
