(* ===== verification/Ptp_Executor.thy ===== *)
theory Ptp_Executor
  imports Ptp_Transaction
begin

text \<open>
  The grammar of steps over one transaction: captures, the verbs, blocks of steps with their
  reports and activities, and the guarded entry of a run
  (\<^verbatim>\<open>crates/camera-protocol-ffi/src/ptp_executor.rs\<close>).

  A verb is a function of the environment and the step path; a verb with nested blocks takes them as
  such functions, so \<open>run_step_once\<close> is a recursion on the step alone.
\<close>

type_synonym 'w block = "'w PtpEnv \<Rightarrow> ustring \<Rightarrow> (TxMeta option, 'w) exec"

section \<open>Captures\<close>

definition bind_slot :: "ustring \<Rightarrow> ActionArgumentValue \<Rightarrow> 'w PtpCtx \<Rightarrow> 'w PtpCtx" where
  "bind_slot slot v st = st\<lparr>cx_bindings := btree_insert slot v (cx_bindings st)\<rparr>"

definition observe :: "u16 \<Rightarrow> int \<Rightarrow> 'w PtpCtx \<Rightarrow> 'w PtpCtx" where
  "observe prop v st = st\<lparr>cx_observed := (cx_observed st)(prop \<mapsto> v)\<rparr>"

definition decode_property :: "'w PtpEnv \<Rightarrow> ustring \<Rightarrow> u16 \<Rightarrow> bytes \<Rightarrow> (int, 'w) exec" where
  "decode_property env here prop payload =
     (case property_value_width (en_manifest env) prop of
        None \<Rightarrow> x_fail (other here (D_NoScalarWidth prop))
      | Some width \<Rightarrow>
          (case decode_scalar width payload of
             Inl e \<Rightarrow> x_fail (decode_failure here (D_PropDecode prop e))
           | Inr v \<Rightarrow> x_return v))"

definition observe_records :: "(u16 \<times> PropValue) list \<Rightarrow> 'w PtpCtx \<Rightarrow> 'w PtpCtx" where
  "observe_records rs st =
     fold (\<lambda>(code, v) s. case ptp_value_i64 v of None \<Rightarrow> s | Some i \<Rightarrow> observe code i s) rs st"

definition observe_property :: "'w PtpEnv \<Rightarrow> ustring \<Rightarrow> u16 \<Rightarrow> bytes \<Rightarrow> (unit, 'w) exec" where
  "observe_property env here prop payload =
     (case property_payload (en_manifest env) prop of
        Some info \<Rightarrow>
          (case ffi_parse_record_stream payload info of
             None \<Rightarrow> Pair Panic
           | Some (Inl e) \<Rightarrow> x_fail (decode_failure here (D_Codec e))
           | Some (Inr status) \<Rightarrow>
               x_modify (\<lambda>st.
                 let st' = observe_records (ds_records status) st
                 in if ds_diagnostics status = [] then st'
                    else st'\<lparr>cx_deferred_tolerance :=
                           Some (other here (D_Skipped prop (ds_diagnostics status)))\<rparr>))
      | None \<Rightarrow>
          x_bind (decode_property env here prop payload) (\<lambda>v. x_modify (observe prop v)))"

fun bind_collections :: "ustring \<Rightarrow> u64 list \<Rightarrow> CaptureInfo list \<Rightarrow> (unit, 'w) exec" where
  "bind_collections here vs [] = x_return ()"
| "bind_collections here vs (c # cs) =
     (if cap_source c \<noteq> PtpU32Array then x_fail (other here D_MixedCaptures)
      else x_bind (x_modify (\<lambda>st. st\<lparr>cx_collections := btree_insert (cap_bind c) vs (cx_collections st)\<rparr>))
             (\<lambda>_. bind_collections here vs cs))"

fun bind_prop_values :: "ustring \<Rightarrow> ActionArgumentValue \<Rightarrow> CaptureInfo list \<Rightarrow> (unit, 'w) exec" where
  "bind_prop_values here v [] = x_return ()"
| "bind_prop_values here v (c # cs) =
     (if cap_source c \<noteq> CS_PropValue then x_fail (other here (D_CaptureSource (lit ''propValue'')))
      else x_bind (x_modify (bind_slot (cap_bind c) v)) (\<lambda>_. bind_prop_values here v cs))"

definition capture_property ::
  "'w PtpEnv \<Rightarrow> ustring \<Rightarrow> u16 \<Rightarrow> CaptureInfo list \<Rightarrow> bytes \<Rightarrow> (unit, 'w) exec" where
  "capture_property env here prop captures payload =
     (if list_ex (\<lambda>c. cap_source c = PtpU32Array) captures
      then (case decode_u32_array payload of
         Inl d \<Rightarrow> x_fail (decode_failure here d)
       | Inr vs \<Rightarrow> bind_collections here vs captures)
      else if property_payload (en_manifest env) prop \<noteq> None
      then (if captures \<noteq> [] then x_fail (other here D_RecordStreamCapture)
            else observe_property env here prop payload)
      else
        (let is_string = (case property (en_manifest env) prop of None \<Rightarrow> False | Some p \<Rightarrow> is_string_property p)
         in if captures = [] \<and> property_value_width (en_manifest env) prop = None \<and> \<not> is_string
            then x_return ()
            else if is_string
            then (case read_scalar rd_ptp_string payload of
               Inl e \<Rightarrow> x_fail (decode_failure here (D_PropDecode prop e))
             | Inr s \<Rightarrow> bind_prop_values here (AV_String s) captures)
            else
              x_bind (decode_property env here prop payload) (\<lambda>v.
              x_bind (x_modify (observe prop v)) (\<lambda>_.
                bind_prop_values here (AV_U64 (word_of_int v)) captures))))"

definition fallback_of :: "u16 \<Rightarrow> CaptureInfo \<Rightarrow> (ustring \<times> u64) option" where
  "fallback_of code c =
     (case cap_fallback c of
        None \<Rightarrow> None
      | Some fb \<Rightarrow>
          if code \<in> set (fb_when_response_codes fb) then Some (cap_bind c, fb_value fb) else None)"

definition bind_numbers :: "(ustring \<times> u64) list \<Rightarrow> 'w PtpCtx \<Rightarrow> 'w PtpCtx" where
  "bind_numbers vs st = fold (\<lambda>(slot, v). bind_slot slot (AV_U64 v)) vs st"

definition bind_capture_fallbacks :: "CaptureInfo list \<Rightarrow> u16 \<Rightarrow> (bool, 'w) exec" where
  "bind_capture_fallbacks captures code =
     (case collect_options (map (fallback_of code) captures) of
        None \<Rightarrow> x_return False
      | Some selected \<Rightarrow>
          if selected = [] then x_return False
          else x_bind (x_modify (bind_numbers selected)) (\<lambda>_. x_return True))"

text \<open>The scalar values are collected first and bound together at the end; a collection is bound at
  once.\<close>

fun gather_captures ::
  "ustring \<Rightarrow> u16 \<Rightarrow> u32 \<Rightarrow> bytes \<Rightarrow> CaptureInfo list \<Rightarrow> (ustring \<times> u64) list \<Rightarrow>
    ((ustring \<times> u64) list, 'w) exec" where
  "gather_captures here opc tid payload [] vs = x_return vs"
| "gather_captures here opc tid payload (c # cs) vs =
     (let next_value = (\<lambda>v. gather_captures here opc tid payload cs (vs @ [(cap_bind c, v)]))
      in case cap_source c of
        ObjectInfoCompressedSize \<Rightarrow>
          if opc \<noteq> GET_OBJECT_INFO then x_fail (other here (D_CaptureSource (lit ''objectInfoCompressedSize'')))
          else (case ObjectInfo_decode payload of
             Inl e \<Rightarrow> x_fail (decode_failure here (D_Decode e))
           | Inr info \<Rightarrow> next_value (ucast (oi_object_compressed_size info)))
      | CS_U32Le \<Rightarrow>
          (case read_scalar rd_u32 payload of
             Inl e \<Rightarrow> x_fail (decode_failure here (D_Decode e))
           | Inr v \<Rightarrow> next_value (ucast v))
      | CS_U64Le \<Rightarrow>
          (case read_scalar rd_u64 payload of
             Inl e \<Rightarrow> x_fail (decode_failure here (D_Decode e))
           | Inr v \<Rightarrow> next_value v)
      | CS_PropValue \<Rightarrow> x_fail (other here (D_CaptureSource (lit ''propValue'')))
      | PtpU32Array \<Rightarrow>
          (case decode_u32_array payload of
             Inl d \<Rightarrow> x_fail (decode_failure here d)
           | Inr collection \<Rightarrow>
               x_bind (x_modify (\<lambda>st. st\<lparr>cx_collections := btree_insert (cap_bind c) collection (cx_collections st)\<rparr>))
                 (\<lambda>_. gather_captures here opc tid payload cs vs))
      | TransactionId \<Rightarrow> next_value (ucast tid))"

definition apply_captures ::
  "ustring \<Rightarrow> u16 \<Rightarrow> u32 \<Rightarrow> CaptureInfo list \<Rightarrow> bytes \<Rightarrow> (unit, 'w) exec" where
  "apply_captures here opc tid captures payload =
     x_bind (gather_captures here opc tid payload captures []) (\<lambda>vs. x_modify (bind_numbers vs))"

definition resolve_param :: "'w PtpEnv \<Rightarrow> 'w PtpCtx \<Rightarrow> EntryParam \<Rightarrow> Detail + u32" where
  "resolve_param env st p =
     (case p of
        EP_Literal v \<Rightarrow> Inr v
      | EP_Runtime slot shift slot_mask \<Rightarrow>
          (let found = (case map_of (cx_bindings st) slot of
                          Some v \<Rightarrow> Some v | None \<Rightarrow> map_of (en_runtime_params env) slot)
           in case (case found of None \<Rightarrow> None | Some v \<Rightarrow> action_value_u64 v) of
                None \<Rightarrow> Inl (D_Unbound slot)
              | Some raw \<Rightarrow>
                  (let shifted = (if shift < 64 then drop_bit shift raw else 0);
                       v = (case slot_mask of None \<Rightarrow> shifted | Some k \<Rightarrow> and shifted k)
                   in if unat v < 2 ^ 32 then Inr (ucast v) else Inl (D_ExceedsU32 slot))))"

fun collect_results :: "('e + 'a) list \<Rightarrow> 'e + 'a list" where
  "collect_results [] = Inr []"
| "collect_results (r # rs) =
     (case r of Inl e \<Rightarrow> Inl e | Inr a \<Rightarrow> res_bind (collect_results rs) (\<lambda>as. Inr (a # as)))"

definition resolve_params :: "'w PtpEnv \<Rightarrow> ustring \<Rightarrow> EntryParam list \<Rightarrow> (u32 list, 'w) exec" where
  "resolve_params env here params st = lift_detail here (collect_results (map (resolve_param env st) params)) st"

section \<open>Verbs without blocks\<close>

definition write_property :: "'w PtpEnv \<Rightarrow> ustring \<Rightarrow> u16 \<Rightarrow> bytes \<Rightarrow> (TxMeta option, 'w) exec" where
  "write_property env here prop payload =
     x_bind (issue env here SET_DEVICE_PROP_VALUE [ucast prop] (Some payload) (Some prop)) (\<lambda>reply.
     x_bind (require_ok here reply) (\<lambda>meta. x_return (Some meta)))"

definition read_property :: "'w PtpEnv \<Rightarrow> ustring \<Rightarrow> u16 \<Rightarrow> (WireReply, 'w) exec" where
  "read_property env here prop = issue env here GET_DEVICE_PROP_VALUE [ucast prop] None (Some prop)"

definition set_prop_verb :: "u16 \<Rightarrow> int \<Rightarrow> 'w block" where
  "set_prop_verb prop v env here =
     (case property_value_width (en_manifest env) prop of
        None \<Rightarrow> x_fail (other here (D_NoScalarWidth prop))
      | Some width \<Rightarrow>
          (case encode_value v width of
             Inl _ \<Rightarrow> x_fail (other here D_ValueOutOfRange)
           | Inr payload \<Rightarrow> write_property env here prop payload))"

definition set_prop_runtime_verb :: "u16 \<Rightarrow> ustring \<Rightarrow> MissingRuntimeValue \<Rightarrow> 'w block" where
  "set_prop_runtime_verb prop slot if_missing env here =
     (case map_of (en_runtime_params env) slot of
        None \<Rightarrow>
          (case if_missing of
             MR_Skip \<Rightarrow> x_return None
           | MR_Error \<Rightarrow> x_fail (other here (D_Unbound slot)))
      | Some v \<Rightarrow>
          x_bind (lift_detail here (encode_runtime_property_value (en_manifest env) prop v))
            (write_property env here prop))"

definition get_prop_verb :: "u16 \<Rightarrow> CaptureInfo list \<Rightarrow> 'w block" where
  "get_prop_verb prop captures env here =
     x_bind (read_property env here prop) (\<lambda>reply.
       let meta = wr_meta reply
       in if tx_response_code meta \<noteq> OK
          then x_bind (bind_capture_fallbacks captures (tx_response_code meta)) (\<lambda>bound.
                 if bound then x_return (Some meta) else x_fail (response_error here meta))
          else x_bind (capture_property env here prop captures (wr_payload reply))
                 (\<lambda>_. x_return (Some meta)))"

definition read_echo_verb :: "u16 \<Rightarrow> CaptureInfo list \<Rightarrow> 'w block" where
  "read_echo_verb prop captures env here =
     x_bind (read_property env here prop) (\<lambda>r.
     x_bind (require_ok_reply here r) (\<lambda>reply.
     x_bind (capture_property env here prop captures (wr_payload reply)) (\<lambda>_.
       write_property env here prop (wr_payload reply))))"

fun send_op_loop ::
  "'w PtpEnv \<Rightarrow> ustring \<Rightarrow> u16 \<Rightarrow> u32 list \<Rightarrow> CaptureInfo list \<Rightarrow> bool \<Rightarrow> nat \<Rightarrow> TxMeta option \<Rightarrow>
    (TxMeta option, 'w) exec" where
  "send_op_loop env here opc params captures tolerant n last_meta =
     (if n = 0 then x_return last_meta
      else
        x_bind (issue env here opc params None None) (\<lambda>reply.
        x_bind
          (if tx_response_code (wr_meta reply) = OK
           then x_bind (apply_captures here opc (tx_transaction_id (wr_meta reply)) captures (wr_payload reply))
                  (\<lambda>_. x_return (wr_meta reply))
           else require_ok_or_tolerate here reply tolerant)
          (\<lambda>meta. send_op_loop env here opc params captures tolerant (n - 1) (Some meta))))"

declare send_op_loop.simps [simp del]

definition send_op_verb :: "u16 \<Rightarrow> EntryParam list \<Rightarrow> CaptureInfo list \<Rightarrow> nat \<Rightarrow> bool \<Rightarrow> 'w block" where
  "send_op_verb opc params captures rep tolerant env here =
     x_bind (resolve_params env here params) (\<lambda>resolved.
       send_op_loop env here opc resolved captures tolerant (max rep 1) None)"

definition open_channel_verb :: "SocketRole \<Rightarrow> 'w block" where
  "open_channel_verb role env here =
     x_bind (frame_transport env here) (\<lambda>t.
     x_bind (transport_deadline env here DEFAULT_OP_TIMEOUT_MS (open_channel t role)) (\<lambda>_. x_return None))"

definition close_channel ::
  "'w PtpEnv \<Rightarrow> 'w PtpExecutorTransport \<Rightarrow> ustring \<Rightarrow> bool \<Rightarrow> (unit, 'w) exec" where
  "close_channel env t here sentinel =
     x_bind (if sentinel then lift_detail here (transport_close (en_manifest env) (en_connection env))
             else x_return None) (\<lambda>frame.
       transport_deadline env here DEFAULT_OP_TIMEOUT_MS (close_command_channel t frame))"

definition close_session_verb :: "bool \<Rightarrow> bool \<Rightarrow> 'w block" where
  "close_session_verb sentinel tolerant env here =
     x_bind (frame_transport env here) (\<lambda>t.
     x_bind (issue env here CLOSE_SESSION [] None None) (\<lambda>reply.
     x_bind (require_ok_or_tolerate here reply tolerant) (\<lambda>meta.
     x_bind (close_channel env t here sentinel) (\<lambda>_. x_return (Some meta)))))"

definition reopen_session_verb :: "bool \<Rightarrow> 'w block" where
  "reopen_session_verb tolerant env here =
     x_bind (frame_transport env here) (\<lambda>t.
     x_bind (issue env here CLOSE_SESSION [] None None) (\<lambda>reply.
     x_bind (require_ok_or_tolerate here reply tolerant) (\<lambda>_.
     x_bind (close_channel env t here True) (\<lambda>_.
     x_bind (transport_deadline env here DEFAULT_OP_TIMEOUT_MS (reopen_command_session t)) (\<lambda>opened.
     x_bind (require_ok_or_tolerate here
               \<lparr>wr_meta = \<lparr>tx_operation = OPEN_SESSION, tx_property = None,
                           tx_response_code = so_response_code opened,
                           tx_transaction_id = so_transaction_id opened\<rparr>, wr_payload = []\<rparr> tolerant)
       (\<lambda>meta. x_return (Some meta)))))))"

section \<open>Waiting\<close>

definition await_event :: "'w PtpEnv \<Rightarrow> ustring \<Rightarrow> u16 \<Rightarrow> (unit, 'w) exec" where
  "await_event env here code =
     (case en_backend env of
        Frame t \<Rightarrow>
          x_bind (transport_deadline env here DEFAULT_OP_TIMEOUT_MS (next_event_frame t code)) (\<lambda>frame.
          x_bind (lift_codec here (frame_decode (en_event_framing env) frame)) (\<lambda>packet.
            case packet of
              P_Event e \<Rightarrow> if ev_code e = code then x_return () else x_fail (other here (D_WrongEvent code))
            | _ \<Rightarrow> x_fail (other here (D_WrongEvent code))))
      | Transaction t \<Rightarrow>
          x_bind (transport_deadline env here DEFAULT_OP_TIMEOUT_MS (typed_host (txn_next_event t code))) (\<lambda>e.
            if te_event_code e \<noteq> code then x_fail (other here (D_WrongEvent code)) else x_return ()))"

text \<open>On a connection that may lose events an elapsed event wait goes on with the declared poll.\<close>

definition await_first :: "'w PtpEnv \<Rightarrow> ustring \<Rightarrow> FfiAwaitSource \<Rightarrow> (unit, 'w) exec" where
  "await_first env here source =
     (case source of
        FA_Poll _ \<Rightarrow> x_return ()
      | FA_Event code then_poll \<Rightarrow>
          x_handle (await_event env here code) x_return (\<lambda>e.
            if \<not> (en_event_delivery env = ED_BestEffort \<and> se_class e = FC_Deadline) then x_fail e
            else if then_poll = None then x_fail (other here D_BestEffortNeedsPoll)
            else x_return ()))"

definition await_poll :: "FfiAwaitSource \<Rightarrow> u16 option" where
  "await_poll source = (case source of FA_Poll prop \<Rightarrow> Some prop | FA_Event _ then_poll \<Rightarrow> then_poll)"

definition pause :: "'w PtpEnv \<Rightarrow> ustring \<Rightarrow> nat \<Rightarrow> (unit, 'w) exec" where
  "pause env here ms =
     transport_deadline env here (sat_add u32_max ms DEFAULT_OP_TIMEOUT_MS) (backend_sleep (en_backend env) ms)"

definition poll_once ::
  "'w PtpEnv \<Rightarrow> ustring \<Rightarrow> u16 \<Rightarrow> (WireReply, 'w) exec" where
  "poll_once env here prop =
     x_bind (read_property env here prop) (\<lambda>r.
     x_bind (require_ok_reply here r) (\<lambda>reply.
     x_bind (observe_property env here prop (wr_payload reply)) (\<lambda>_. x_return reply)))"

definition await_done ::
  "'w PtpEnv \<Rightarrow> ustring \<Rightarrow> CaptureInfo list \<Rightarrow> (u16 \<times> WireReply) option \<Rightarrow> (TxMeta option, 'w) exec" where
  "await_done env here captures polled =
     (case polled of
        Some (prop, reply) \<Rightarrow>
          x_bind (capture_property env here prop captures (wr_payload reply))
            (\<lambda>_. x_return (Some (wr_meta reply)))
      | None \<Rightarrow>
          if captures \<noteq> [] then x_fail (other here D_NoPolledValue) else x_return None)"

fun await_loop ::
  "nat \<Rightarrow> 'w PtpEnv \<Rightarrow> ustring \<Rightarrow> Predicate \<Rightarrow> u16 option \<Rightarrow> 'w block \<Rightarrow> CaptureInfo list \<Rightarrow> nat \<Rightarrow>
    (TxMeta option, 'w) exec" where
  "await_loop 0 env here predicate poll on_each captures interval_ms = Pair Stuck"
| "await_loop (Suc fuel) env here predicate poll on_each captures interval_ms =
     x_bind (case poll of
               None \<Rightarrow> x_return None
             | Some prop \<Rightarrow> x_bind (poll_once env here prop) (\<lambda>reply. x_return (Some (prop, reply)))) (\<lambda>polled st.
       if pred_eval predicate (cx_observed st) then await_done env here captures polled st
       else if poll = None then x_fail (other here D_EventRejected) st
       else
         x_bind (on_each env (here @ lit ''.onEach'')) (\<lambda>_.
         x_bind (pause env here (if interval_ms = 0 then DEFAULT_POLL_INTERVAL_MS else interval_ms)) (\<lambda>_.
           await_loop fuel env here predicate poll on_each captures interval_ms)) st)"

definition run_await_body ::
  "FfiAwaitSource \<Rightarrow> FfiPredicate \<Rightarrow> 'w block \<Rightarrow> CaptureInfo list \<Rightarrow> nat \<Rightarrow> 'w block" where
  "run_await_body source until on_each captures interval_ms env here =
     x_bind (await_first env here source) (\<lambda>_.
       await_loop (en_fuel env) env here (predicate_from_ffi until) (await_poll source) on_each captures
         interval_ms)"

definition await_verb ::
  "FfiAwaitSource \<Rightarrow> FfiPredicate \<Rightarrow> 'w block \<Rightarrow> CaptureInfo list \<Rightarrow> nat \<Rightarrow> nat \<Rightarrow> 'w block" where
  "await_verb source until on_each captures timeout_ms interval_ms env here =
     (let budget = max timeout_ms 1
      in clocked here (D_AwaitDeadline budget)
           (run_await_body source until on_each captures interval_ms (with_clock budget env) here))"

section \<open>Activities\<close>

definition failure_kind :: "StepError \<Rightarrow> ExecutorStepFailureKind" where
  "failure_kind e = (if se_class e = FC_Deadline then DeadlineExceeded else OtherFailure)"

definition activity_starts_at :: "u32 \<Rightarrow> ConnectionActivityDescriptor \<Rightarrow> bool" where
  "activity_starts_at index d =
     (case cd_binding d of CB_ExecutorSpan start _ \<Rightarrow> start = index | _ \<Rightarrow> False)"

definition activity_for_start :: "'w PtpEnv \<Rightarrow> u32 \<Rightarrow> ConnectionActivityDescriptor option" where
  "activity_for_start env index = find (activity_starts_at index) (en_activities env)"

definition activity_ends_after :: "u32 \<Rightarrow> 'w PtpCtx \<Rightarrow> bool" where
  "activity_ends_after index st =
     (case cx_active_activity st of
        None \<Rightarrow> False
      | Some a \<Rightarrow>
          (case cd_binding (pa_descriptor a) of CB_ExecutorSpan _ end_exclusive \<Rightarrow> end_exclusive = index + 1
           | _ \<Rightarrow> False))"

definition finish_activity ::
  "(ActiveActivity \<Rightarrow> ConnectionActivityEvent) \<Rightarrow> 'w PtpCtx \<Rightarrow> 'w PtpCtx" where
  "finish_activity event st =
     (case cx_active_activity st of
        None \<Rightarrow> st
      | Some a \<Rightarrow>
          st\<lparr>cx_active_activity := None,
             cx_activity_events := cx_activity_events st @ [event (pa_lifecycle a)]\<rparr>)"

definition finish_activity_success :: "'w PtpCtx \<Rightarrow> 'w PtpCtx" where
  "finish_activity_success =
     finish_activity (\<lambda>a. AE_Succeeded (aa_id a) (aa_version a) (aa_retry_count a) (aa_last_retry a))"

definition finish_activity_failure :: "StepError \<Rightarrow> 'w PtpCtx \<Rightarrow> 'w PtpCtx" where
  "finish_activity_failure e =
     finish_activity
       (\<lambda>a. AE_Failed (aa_id a) (aa_version a) (aa_retry_count a) (aa_last_retry a) (failure_kind e))"

definition start_activity :: "ConnectionActivityDescriptor \<Rightarrow> 'w PtpCtx \<Rightarrow> 'w PtpCtx" where
  "start_activity d st =
     (let st' = finish_activity_success st
      in st'\<lparr>cx_activity_events := cx_activity_events st' @ [AE_Started (cd_id d) (cd_version d)],
             cx_active_activity := Some
               \<lparr>pa_descriptor = d,
                pa_lifecycle = \<lparr>aa_id = cd_id d, aa_version = cd_version d, aa_retry_count = 0,
                                aa_last_retry = None\<rparr>\<rparr>\<rparr>)"

definition retry_activity :: "nat \<Rightarrow> nat \<Rightarrow> StepError \<Rightarrow> 'w PtpCtx \<Rightarrow> 'w PtpCtx" where
  "retry_activity ordinal limit e st =
     (case cx_active_activity st of
        None \<Rightarrow> st
      | Some a \<Rightarrow>
          (let r = \<lparr>cr_ordinal = ordinal, cr_limit = limit, cr_failure = failure_kind e\<rparr>;
               l = pa_lifecycle a
           in st\<lparr>cx_active_activity := Some (a\<lparr>pa_lifecycle :=
                   l\<lparr>aa_retry_count := sat_add u32_max (aa_retry_count l) 1, aa_last_retry := Some r\<rparr>\<rparr>),
                 cx_activity_events := cx_activity_events st @ [AE_Retrying (aa_id l) (aa_version l) r]\<rparr>))"

section \<open>Verbs with blocks\<close>

definition retry_selects :: "u16 list \<Rightarrow> RetryFailureClass list \<Rightarrow> StepError \<Rightarrow> bool" where
  "retry_selects codes classes e =
     (case se_class e of
        FC_Response \<Rightarrow>
          (case se_meta e of None \<Rightarrow> False | Some meta \<Rightarrow> tx_response_code meta \<in> set codes)
      | FC_Decode \<Rightarrow> RF_Decode \<in> set classes
      | _ \<Rightarrow> False)"

definition note_attempts :: "nat \<Rightarrow> (unit, 'w) exec" where
  "note_attempts n = x_modify (\<lambda>st. st\<lparr>cx_control_attempts := Some n\<rparr>)"

function retry_loop ::
  "'w PtpEnv \<Rightarrow> ustring \<Rightarrow> 'w block \<Rightarrow> 'w block option \<Rightarrow> (StepError \<Rightarrow> bool) \<Rightarrow> nat \<Rightarrow> nat \<Rightarrow> nat \<Rightarrow>
    (TxMeta option, 'w) exec" where
  "retry_loop env here body fallback sel delay limit attempt =
     x_handle (body env (here @ lit ''.steps''))
       (\<lambda>meta. x_bind (note_attempts (attempt - 1)) (\<lambda>_. x_return meta))
       (\<lambda>e. if sel e \<and> attempt < limit
            then x_bind (x_modify (retry_activity (attempt + 1) limit e)) (\<lambda>_.
                 x_bind (if delay > 0 then pause env here delay else x_return ()) (\<lambda>_.
                   retry_loop env here body fallback sel delay limit (attempt + 1)))
            else x_bind (note_attempts (attempt - 1)) (\<lambda>_.
                 case fallback of
                   Some steps \<Rightarrow> if sel e then steps env (here @ lit ''.fallback'') else x_fail e
                 | None \<Rightarrow> x_fail e))"
  by auto
termination
  by (relation "measure (\<lambda>(_, _, _, _, _, _, limit, attempt). limit - attempt)") auto

declare retry_loop.simps [simp del]

definition retry_verb ::
  "'w block \<Rightarrow> 'w block option \<Rightarrow> u16 list \<Rightarrow> RetryFailureClass list \<Rightarrow> nat \<Rightarrow> nat \<Rightarrow> 'w block" where
  "retry_verb body fallback codes classes max_attempts delay env here =
     retry_loop env here body fallback (retry_selects codes classes) delay (max max_attempts 1) 1"

definition restore ::
  "ustring \<Rightarrow> ActionArgumentValue option \<Rightarrow> 'w PtpCtx \<Rightarrow> 'w PtpCtx" where
  "restore slot previous st =
     (case previous of
        Some v \<Rightarrow> bind_slot slot v st
      | None \<Rightarrow> st\<lparr>cx_bindings := filter (\<lambda>(k, _). k \<noteq> slot) (cx_bindings st)\<rparr>)"

text \<open>What runs after a block that returned, with a value or with an error; a block that was dropped
  runs nothing more.\<close>

definition x_finally :: "('a, 'w) exec \<Rightarrow> ('w PtpCtx \<Rightarrow> 'w PtpCtx) \<Rightarrow> ('a, 'w) exec" where
  "x_finally m f =
     x_handle m (\<lambda>a. x_bind (x_modify f) (\<lambda>_. x_return a)) (\<lambda>e. x_bind (x_modify f) (\<lambda>_. x_fail e))"

fun for_each_loop ::
  "'w PtpEnv \<Rightarrow> ustring \<Rightarrow> ustring \<Rightarrow> 'w block \<Rightarrow> nat \<Rightarrow> u64 list \<Rightarrow> TxMeta option \<Rightarrow> (TxMeta option, 'w) exec" where
  "for_each_loop env here slot body index [] last_meta st = (Val last_meta, st)"
| "for_each_loop env here slot body index (v # vs) last_meta st =
     (let previous = map_of (cx_bindings st) slot
      in x_bind
           (x_finally (body env (here @ lit ''.forEach['' @ decimal index @ lit '']'')) (restore slot previous))
           (for_each_loop env here slot body (index + 1) vs) (bind_slot slot (AV_U64 v) st))"

definition for_each_verb :: "ustring \<Rightarrow> ustring \<Rightarrow> 'w block \<Rightarrow> 'w block" where
  "for_each_verb collection slot body env here st =
     (case map_of (cx_collections st) collection of
        None \<Rightarrow> (Err (other here (D_CollectionUnbound collection)), st)
      | Some vs \<Rightarrow>
          if length vs > MAX_FOREACH_ITERS then (Err (other here D_CollectionTooLong), st)
          else for_each_loop env here slot body 0 vs None st)"

definition MAX_CHUNK_ITERS :: nat where
  "MAX_CHUNK_ITERS = 4096"

text \<open>\<open>budget\<close> is the number of windows still allowed.\<close>

fun chunk_loop ::
  "'w PtpEnv \<Rightarrow> ustring \<Rightarrow> u64 \<Rightarrow> u64 \<Rightarrow> ustring \<Rightarrow> ustring \<Rightarrow> 'w block \<Rightarrow> nat \<Rightarrow> u64 \<Rightarrow> TxMeta option \<Rightarrow>
    (TxMeta option, 'w) exec" where
  "chunk_loop env here whole window offset_bind length_bind body budget offset last_meta st =
     (if \<not> offset < whole then (Val last_meta, st)
      else if budget = 0 then (Err (other here D_TooManyWindows), st)
      else
        (let len = min (whole - offset) window;
             old_offset = map_of (cx_bindings st) offset_bind;
             st1 = bind_slot offset_bind (AV_U64 offset) st;
             old_length = map_of (cx_bindings st1) length_bind;
             st2 = bind_slot length_bind (AV_U64 len) st1
         in x_bind
              (x_finally
                 (body env (here @ lit ''.chunk['' @ decimal (MAX_CHUNK_ITERS - budget) @ lit '']''))
                 (\<lambda>s. restore length_bind old_length (restore offset_bind old_offset s)))
              (chunk_loop env here whole window offset_bind length_bind body (budget - 1) (offset + len)) st2))"

declare chunk_loop.simps [simp del]

definition bound_u64 :: "'w PtpCtx \<Rightarrow> ustring \<Rightarrow> u64 option" where
  "bound_u64 st slot =
     (case map_of (cx_bindings st) slot of None \<Rightarrow> None | Some v \<Rightarrow> action_value_u64 v)"

definition chunk_verb :: "ustring \<Rightarrow> FfiChunkSize \<Rightarrow> ustring \<Rightarrow> ustring \<Rightarrow> 'w block \<Rightarrow> 'w block" where
  "chunk_verb whole_slot chunk_size offset_bind length_bind body env here st =
     (case bound_u64 st whole_slot of
        None \<Rightarrow> (Err (other here D_ChunkTotalUnbound), st)
      | Some whole \<Rightarrow>
          (case (case chunk_size of FC_Literal v \<Rightarrow> Some (ucast v) | FC_Runtime slot \<Rightarrow> bound_u64 st slot) of
             None \<Rightarrow>
               (Err (other here
                  (D_NotBoundU64 (case chunk_size of FC_Runtime slot \<Rightarrow> slot | FC_Literal _ \<Rightarrow> []))), st)
           | Some window \<Rightarrow>
               if window = 0 then (Err (other here D_ChunkSizeZero), st)
               else chunk_loop env here whole window offset_bind length_bind body MAX_CHUNK_ITERS 0 None st))"

definition if_verb :: "ustring \<Rightarrow> u64 \<Rightarrow> 'w block \<Rightarrow> 'w block option \<Rightarrow> 'w block" where
  "if_verb slot equals then_steps else_steps env here st =
     (case bound_u64 st slot of
        None \<Rightarrow> (Err (other here (D_NotBoundU64 slot)), st)
      | Some actual \<Rightarrow>
          if actual = equals then then_steps env (here @ lit ''.then'') st
          else (case else_steps of
             None \<Rightarrow> (Val None, st)
           | Some steps \<Rightarrow> steps env (here @ lit ''.else'') st))"

section \<open>Steps and their reports\<close>

definition activity_correlation :: "'w PtpCtx \<Rightarrow> ustring option \<times> u32 option" where
  "activity_correlation st =
     (case cx_active_activity st of
        None \<Rightarrow> (None, None)
      | Some a \<Rightarrow> (Some (aa_id (pa_lifecycle a)), Some (aa_version (pa_lifecycle a))))"

definition report :: "StepReport \<Rightarrow> 'w PtpCtx \<Rightarrow> 'w PtpCtx" where
  "report r st = st\<lparr>cx_reports := cx_reports st @ [r]\<rparr>"

definition started_report ::
  "'w PtpEnv \<Rightarrow> ustring \<Rightarrow> EntryStep \<Rightarrow> ustring option \<times> u32 option \<Rightarrow> StepReport" where
  "started_report env here step corr =
     \<lparr>sr_step_path = here, sr_verb = step_verb step, sr_characteristic = None,
      sr_operation = fst (step_codes step (en_runtime_params env)),
      sr_property = snd (step_codes step (en_runtime_params env)),
      sr_response_code = None, sr_transaction_id = None, sr_tolerant = step_tolerant step,
      sr_outcome = SO_Started, sr_error = None, sr_attempts = 0,
      sr_activity_id = fst corr, sr_activity_version = snd corr\<rparr>"

definition option_or :: "'a option \<Rightarrow> 'a option \<Rightarrow> 'a option" where
  "option_or a b = (case a of None \<Rightarrow> b | Some x \<Rightarrow> Some x)"

definition terminal_report ::
  "'w PtpEnv \<Rightarrow> ustring \<Rightarrow> EntryStep \<Rightarrow> StepOutcome \<Rightarrow> Detail option \<Rightarrow> nat \<Rightarrow> TxMeta option \<Rightarrow>
    ustring option \<times> u32 option \<Rightarrow> StepReport" where
  "terminal_report env here step verdict detail attempts meta corr =
     \<lparr>sr_step_path = here, sr_verb = step_verb step, sr_characteristic = None,
      sr_operation = option_or (map_option tx_operation meta) (fst (step_codes step (en_runtime_params env))),
      sr_property = option_or (case meta of None \<Rightarrow> None | Some m \<Rightarrow> tx_property m)
                      (snd (step_codes step (en_runtime_params env))),
      sr_response_code = map_option tx_response_code meta,
      sr_transaction_id = map_option tx_transaction_id meta,
      sr_tolerant = step_tolerant step, sr_outcome = verdict, sr_error = detail, sr_attempts = attempts,
      sr_activity_id = fst corr, sr_activity_version = snd corr\<rparr>"

fun is_await :: "EntryStep \<Rightarrow> bool" where
  "is_await (AwaitUntilStep s u b c d i t) = True"
| "is_await _ = False"

fun is_retry :: "EntryStep \<Rightarrow> bool" where
  "is_retry (Retry b f rc fc n d t) = True"
| "is_retry _ = False"

definition count_step :: "'w PtpCtx \<Rightarrow> 'w PtpCtx" where
  "count_step st = st\<lparr>cx_steps_run := cx_steps_run st + 1\<rparr>"

text \<open>The terminal report of a step whose body returned.\<close>

definition conclude_step ::
  "'w PtpEnv \<Rightarrow> ustring \<Rightarrow> EntryStep \<Rightarrow> ustring option \<times> u32 option \<Rightarrow> StepError + TxMeta option \<Rightarrow>
    (TxMeta option, 'w) exec" where
  "conclude_step env here step corr result st =
     (let deferred = cx_deferred_tolerance st;
          attempts = (if is_retry step then case cx_control_attempts st of None \<Rightarrow> 0 | Some n \<Rightarrow> n else 0);
          st' = st\<lparr>cx_deferred_tolerance := None,
                   cx_control_attempts := (if is_retry step then None else cx_control_attempts st)\<rparr>;
          terminal = (\<lambda>verdict detail meta. report (terminal_report env here step verdict detail attempts meta corr))
      in case result of
           Inr meta \<Rightarrow>
             (case deferred of
                None \<Rightarrow> (Val meta, terminal SO_Succeeded None meta (count_step st'))
              | Some e \<Rightarrow>
                  (Val (option_or (se_meta e) meta),
                   terminal SO_Tolerated (Some (se_detail e)) (option_or (se_meta e) meta) (count_step st')))
         | Inl e \<Rightarrow>
             if step_tolerant step \<and> se_class e = FC_Response
             then (Val (se_meta e), terminal SO_Tolerated (Some (se_detail e)) (se_meta e) (count_step st'))
             else (Err e, terminal SO_Failed (Some (se_detail e)) (se_meta e) st'))"

definition start_step :: "'w PtpEnv \<Rightarrow> ustring \<Rightarrow> EntryStep \<Rightarrow> 'w PtpCtx \<Rightarrow> 'w PtpCtx" where
  "start_step env here step st =
     (report (started_report env here step (activity_correlation st)) st)
       \<lparr>cx_control_attempts := None, cx_deferred_tolerance := None\<rparr>"

definition run_step :: "EntryStep \<Rightarrow> 'w block \<Rightarrow> 'w block" where
  "run_step step once env here st =
     (let corr = activity_correlation st
      in x_handle
           (if is_await step then once env here
            else clocked here (D_StepDeadline DEFAULT_STEP_TIMEOUT_MS)
                   (once (with_clock DEFAULT_STEP_TIMEOUT_MS env) here))
           (\<lambda>meta. conclude_step env here step corr (Inr meta))
           (\<lambda>e. conclude_step env here step corr (Inl e))
           (start_step env here step st))"

definition step_path :: "ustring \<Rightarrow> nat \<Rightarrow> EntryStep \<Rightarrow> ustring" where
  "step_path path index step = path @ lit ''['' @ decimal index @ lit ''].'' @ step_verb step"

text \<open>A block of steps. Only the top level opens and closes activities.\<close>

definition open_activity :: "bool \<Rightarrow> 'w PtpEnv \<Rightarrow> nat \<Rightarrow> 'w PtpCtx \<Rightarrow> 'w PtpCtx" where
  "open_activity top_level env index st =
     (if top_level
      then case activity_for_start env (of_nat index) of None \<Rightarrow> st | Some a \<Rightarrow> start_activity a st
      else st)"

definition close_activity :: "bool \<Rightarrow> nat \<Rightarrow> 'w PtpCtx \<Rightarrow> 'w PtpCtx" where
  "close_activity top_level index st =
     (if top_level \<and> activity_ends_after (of_nat index) st then finish_activity_success st else st)"

fun walk_block ::
  "bool \<Rightarrow> (EntryStep \<times> 'w block) list \<Rightarrow> nat \<Rightarrow> TxMeta option \<Rightarrow> 'w block" where
  "walk_block top_level [] index last_meta env path = x_return last_meta"
| "walk_block top_level ((step, once) # rest) index last_meta env path =
     x_bind (x_modify (open_activity top_level env index)) (\<lambda>_.
       x_handle (run_step step once env (step_path path index step))
         (\<lambda>meta. x_bind (x_modify (close_activity top_level index)) (\<lambda>_.
            walk_block top_level rest (index + 1) meta env path))
         (\<lambda>e. x_bind (x_modify (\<lambda>st. if top_level then finish_activity_failure e st else st)) (\<lambda>_. x_fail e)))"

definition nested :: "(EntryStep \<times> 'w block) list \<Rightarrow> 'w block" where
  "nested steps = walk_block False steps 0 None"

fun run_step_once :: "EntryStep \<Rightarrow> 'w block" where
  "run_step_once (SetProp prop v t) = set_prop_verb prop v"
| "run_step_once (SetPropRuntime prop slot missing t) = set_prop_runtime_verb prop slot missing"
| "run_step_once (GetProp prop captures t) = get_prop_verb prop captures"
| "run_step_once (ReadEcho prop captures t) = read_echo_verb prop captures"
| "run_step_once (SendOp opc params captures rep t) = send_op_verb opc params captures rep t"
| "run_step_once (OpenChannel role t) = open_channel_verb role"
| "run_step_once (ReopenSession t) = reopen_session_verb t"
| "run_step_once (CloseSession sentinel t) = close_session_verb sentinel t"
| "run_step_once (AwaitUntilStep source until on_each captures timeout_ms interval_ms t) =
     await_verb source until (nested (map (\<lambda>s. (s, run_step_once s)) on_each)) captures timeout_ms interval_ms"
| "run_step_once (Retry steps fallback codes classes max_attempts delay t) =
     retry_verb (nested (map (\<lambda>s. (s, run_step_once s)) steps))
       (if fallback = [] then None else Some (nested (map (\<lambda>s. (s, run_step_once s)) fallback)))
       codes classes max_attempts delay"
| "run_step_once (ForEachLoop collection slot body t) =
     for_each_verb collection slot (nested (map (\<lambda>s. (s, run_step_once s)) body))"
| "run_step_once (ChunkLoop whole chunk_size offset_bind length_bind body t) =
     chunk_verb whole chunk_size offset_bind length_bind (nested (map (\<lambda>s. (s, run_step_once s)) body))"
| "run_step_once (If slot equals then_steps t) =
     if_verb slot equals (nested (map (\<lambda>s. (s, run_step_once s)) then_steps)) None"
| "run_step_once (IfElse slot equals then_steps else_steps t) =
     if_verb slot equals (nested (map (\<lambda>s. (s, run_step_once s)) then_steps))
       (Some (nested (map (\<lambda>s. (s, run_step_once s)) else_steps)))"

definition walk_steps :: "EntryStep list \<Rightarrow> bool \<Rightarrow> 'w block" where
  "walk_steps steps top_level = walk_block top_level (map (\<lambda>s. (s, run_step_once s)) steps) 0 None"

section \<open>Entry checks\<close>

fun first_error :: "(EntryStep \<times> (ustring \<Rightarrow> 'e option)) list \<Rightarrow> nat \<Rightarrow> ustring \<Rightarrow> 'e option" where
  "first_error [] index path = None"
| "first_error ((s, f) # fs) index path =
     option_or (f (step_path path index s)) (first_error fs (index + 1) path)"

text \<open>Both entry checks visit a step before its blocks, the blocks in order.\<close>

fun preflight_step :: "(EntryStep \<Rightarrow> ustring \<Rightarrow> 'e option) \<Rightarrow> EntryStep \<Rightarrow> ustring \<Rightarrow> 'e option" where
  "preflight_step own s here =
     option_or (own s here)
       (case s of
          AwaitUntilStep _ _ on_each _ _ _ _ \<Rightarrow>
            first_error (map (\<lambda>x. (x, preflight_step own x)) on_each) 0 (here @ lit ''.onEach'')
        | Retry steps fallback _ _ _ _ _ \<Rightarrow>
            option_or (first_error (map (\<lambda>x. (x, preflight_step own x)) steps) 0 (here @ lit ''.steps''))
              (first_error (map (\<lambda>x. (x, preflight_step own x)) fallback) 0 (here @ lit ''.fallback''))
        | ForEachLoop _ _ body _ \<Rightarrow>
            first_error (map (\<lambda>x. (x, preflight_step own x)) body) 0 (here @ lit ''.body'')
        | ChunkLoop _ _ _ _ body _ \<Rightarrow>
            first_error (map (\<lambda>x. (x, preflight_step own x)) body) 0 (here @ lit ''.body'')
        | If _ _ then_steps _ \<Rightarrow>
            first_error (map (\<lambda>x. (x, preflight_step own x)) then_steps) 0 (here @ lit ''.then'')
        | IfElse _ _ then_steps else_steps _ \<Rightarrow>
            option_or (first_error (map (\<lambda>x. (x, preflight_step own x)) then_steps) 0 (here @ lit ''.then''))
              (first_error (map (\<lambda>x. (x, preflight_step own x)) else_steps) 0 (here @ lit ''.else''))
        | _ \<Rightarrow> None)"

declare preflight_step.simps [simp del]

definition preflight :: "(EntryStep \<Rightarrow> ustring \<Rightarrow> 'e option) \<Rightarrow> EntryStep list \<Rightarrow> 'e option" where
  "preflight own steps = first_error (map (\<lambda>x. (x, preflight_step own x)) steps) 0 (lit ''steps'')"

fun runtime_write_error ::
  "CameraManifest \<Rightarrow> (ustring \<times> ActionArgumentValue) list \<Rightarrow> EntryStep \<Rightarrow> ustring \<Rightarrow> (ustring \<times> Detail) option" where
  "runtime_write_error m rt (SetPropRuntime prop slot if_missing t) here =
     (case map_of rt slot of
        Some v \<Rightarrow>
          (case encode_runtime_property_value m prop v of Inl d \<Rightarrow> Some (here, d) | Inr _ \<Rightarrow> None)
      | None \<Rightarrow> if if_missing = MR_Skip then None else Some (here, D_Unbound slot))"
| "runtime_write_error m rt s here = None"

fun step_captures :: "EntryStep \<Rightarrow> CaptureInfo list" where
  "step_captures (GetProp p captures t) = captures"
| "step_captures (ReadEcho p captures t) = captures"
| "step_captures (SendOp h ps captures n t) = captures"
| "step_captures (AwaitUntilStep s u b captures d i t) = captures"
| "step_captures _ = []"

definition transaction_id_capture :: "EntryStep \<Rightarrow> ustring \<Rightarrow> (ustring \<times> ustring) option" where
  "transaction_id_capture s here =
     map_option (\<lambda>c. (here, cap_bind c)) (find (\<lambda>c. cap_source c = TransactionId) (step_captures s))"

definition preflight_runtime_set_props ::
  "CameraManifest \<Rightarrow> EntryStep list \<Rightarrow> (ustring \<times> ActionArgumentValue) list \<Rightarrow> (ustring \<times> Detail) option" where
  "preflight_runtime_set_props m steps rt = preflight (runtime_write_error m rt) steps"

definition preflight_transaction_id_captures :: "EntryStep list \<Rightarrow> (ustring \<times> ustring) option" where
  "preflight_transaction_id_captures steps = preflight transaction_id_capture steps"

section \<open>A run\<close>

datatype PtpExecutorError =
    ActionRejected ustring
  | UnknownPlan
  | UnsupportedPlan
  | StepFailed ustring ExecutorStepFailureKind Detail "(ustring \<times> ustring) list"

record PtpExecutionOutcome =
  eo_scope :: "(ustring \<times> ActionArgumentValue) list"
  eo_collections :: "(ustring \<times> u64 list) list"
  eo_outputs :: "PtpDataOutput list"
  eo_steps_run :: u32

text \<open>\<open>Died\<close> is a panic and \<open>Starved\<close> a waiting loop that ran out of fuel.\<close>

datatype run_result = Finished "PtpExecutorError + PtpExecutionOutcome" | Died | Starved

definition error_context :: "TxMeta option \<Rightarrow> (ustring \<times> ustring) list" where
  "error_context meta =
     (case meta of
        None \<Rightarrow> []
      | Some m \<Rightarrow>
          [(lit ''operation'', lit ''0x'' @ fmt_hex 4 (unat (tx_operation m))),
           (lit ''response'', lit ''0x'' @ fmt_hex 4 (unat (tx_response_code m))),
           (lit ''transactionId'', decimal (unat (tx_transaction_id m)))])"

definition step_failed :: "StepError \<Rightarrow> PtpExecutorError" where
  "step_failed e = StepFailed (se_step e) (failure_kind e) (se_detail e) (error_context (se_meta e))"

definition outcome_of :: "'w PtpCtx \<Rightarrow> PtpExecutionOutcome" where
  "outcome_of st =
     \<lparr>eo_scope = cx_bindings st, eo_collections = cx_collections st, eo_outputs = cx_outputs st,
      eo_steps_run = cx_steps_run st\<rparr>"

fun is_transaction :: "'w TxnBackend \<Rightarrow> bool" where
  "is_transaction (Transaction t) = True"
| "is_transaction (Frame t) = False"

text \<open>A connection's declared ownership, not its kind, selects the transport.\<close>

definition seam_mismatch :: "Connection \<Rightarrow> 'w TxnBackend \<Rightarrow> bool" where
  "seam_mismatch c backend \<longleftrightarrow>
     (case cn_session c of
        None \<Rightarrow> False
      | Some DaemonAttached \<Rightarrow> \<not> is_transaction backend
      | Some InitiatorOwned \<Rightarrow> is_transaction backend)"

definition run_env ::
  "nat \<Rightarrow> CameraManifest \<Rightarrow> ustring \<Rightarrow> Connection \<Rightarrow> PtpFraming \<Rightarrow> ConnectionActivityDescriptor list \<Rightarrow>
    'w TxnBackend \<Rightarrow> (ustring \<times> ActionArgumentValue) list \<Rightarrow> 'w PtpDataOutputSink option \<Rightarrow> 'w PtpEnv" where
  "run_env fuel m name c framing activities backend rt sink =
     \<lparr>en_manifest = m, en_connection = name, en_command_framing = framing,
      en_event_framing = (case cn_event_framing c of None \<Rightarrow> framing | Some f \<Rightarrow> framing_of f),
      en_event_delivery = (case cn_events c of None \<Rightarrow> ED_Reliable | Some d \<Rightarrow> d),
      en_session_ownership = cn_session c, en_backend = backend, en_activities = activities,
      en_runtime_params = rt, en_output_sink = sink, en_clocks = [], en_fuel = fuel\<rparr>"

definition run_ctx :: "(ustring \<times> ActionArgumentValue) list \<Rightarrow> 'w \<Rightarrow> 'w PtpCtx" where
  "run_ctx rt w =
     \<lparr>cx_observed = (\<lambda>_. None), cx_bindings = rt, cx_collections = [], cx_outputs = [], cx_steps_run = 0,
      cx_control_attempts = None, cx_deferred_tolerance = None, cx_active_activity = None,
      cx_reports = [], cx_activity_events = [], cx_world = w\<rparr>"

definition scope_map :: "(ustring \<times> ActionArgumentValue) list \<Rightarrow> (ustring \<times> ActionArgumentValue) list" where
  "scope_map vs = fold (\<lambda>(k, v). btree_insert k v) vs []"

definition run_finished :: "TxMeta option walk \<times> 'w PtpCtx \<Rightarrow> run_result \<times> 'w PtpCtx" where
  "run_finished r =
     (case r of
        (Val _, st) \<Rightarrow> (let st' = finish_activity_success st in (Finished (Inr (outcome_of st')), st'))
      | (Err e, st) \<Rightarrow> (Finished (Inl (step_failed e)), st)
      | (Stuck, st) \<Rightarrow> (Starved, st)
      | (_, st) \<Rightarrow> (Died, st))"

definition run_steps ::
  "nat \<Rightarrow> CameraManifest \<Rightarrow> ustring \<Rightarrow> EntryStep list \<Rightarrow> ConnectionActivityDescriptor list \<Rightarrow> 'w TxnBackend \<Rightarrow>
    (ustring \<times> ActionArgumentValue) list \<Rightarrow> 'w PtpDataOutputSink option \<Rightarrow> 'w \<Rightarrow> run_result \<times> 'w PtpCtx" where
  "run_steps fuel m name steps activities backend params sink w =
     (let rt = scope_map params;
          refuse = (\<lambda>e. (Finished (Inl e), run_ctx rt w))
      in case map_of (cm_connections m) name of
           None \<Rightarrow> refuse UnknownPlan
         | Some c \<Rightarrow>
             if seam_mismatch c backend then refuse UnsupportedPlan
             else if is_transaction backend \<and> preflight_transaction_id_captures steps \<noteq> None
             then refuse UnsupportedPlan
             else if cn_command_framing c = None \<and> \<not> is_transaction backend then refuse UnsupportedPlan
             else
               (let framing = (case cn_command_framing c of None \<Rightarrow> Standard | Some f \<Rightarrow> framing_of f)
                in case preflight_runtime_set_props m steps rt of
                     Some (here, d) \<Rightarrow> refuse (StepFailed here OtherFailure d [])
                   | None \<Rightarrow>
                       run_finished
                         (walk_steps steps True
                            (run_env fuel m name c framing activities backend rt sink) (lit ''steps'')
                            (run_ctx rt w))))"

section \<open>Entry points\<close>

text \<open>The frame and transaction entry points differ in the backend they pass. The panic of an
  unmappable step is \<^const>\<open>None\<close>; steps are validated when a store is loaded.\<close>

definition mode_entry :: "CameraManifest \<Rightarrow> ustring \<Rightarrow> ustring option \<Rightarrow> ustring \<Rightarrow> ModeEntry option" where
  "mode_entry m connection from_mode to_mode =
     (case map_of (cm_connections m) connection of
        None \<Rightarrow> None
      | Some c \<Rightarrow> find (\<lambda>e. me_to e = to_mode \<and> me_from e = from_mode) (cn_entries c))"

definition run_mode_entry ::
  "nat \<Rightarrow> CameraManifest \<Rightarrow> ustring \<Rightarrow> ustring option \<Rightarrow> ustring \<Rightarrow> 'w TxnBackend \<Rightarrow> (ustring \<times> u64) list \<Rightarrow> 'w \<Rightarrow>
    (run_result \<times> 'w PtpCtx) option" where
  "run_mode_entry fuel m connection from_mode to_mode backend params w =
     (let refuse = (\<lambda>e. Some (Finished (Inl e), run_ctx [] w))
      in case mode_entry m connection from_mode to_mode of
           None \<Rightarrow> refuse UnknownPlan
         | Some e \<Rightarrow>
             (case me_execution e of
                ME_Ptp steps \<Rightarrow>
                  map_option
                    (\<lambda>mapped. run_steps fuel m connection mapped (me_activities e) backend
                       (map (\<lambda>(k, v). (k, AV_U64 v)) params) None w)
                    (collect_options (map map_step steps))
              | ME_ReestablishConnection exit_steps \<Rightarrow>
                  (case collect_options (map map_step exit_steps) of
                     None \<Rightarrow> None | Some _ \<Rightarrow> refuse UnsupportedPlan)
              | ME_UserInstruction _ \<Rightarrow> refuse UnsupportedPlan))"

definition run_mode_reestablishment_exit ::
  "nat \<Rightarrow> CameraManifest \<Rightarrow> ustring \<Rightarrow> ustring option \<Rightarrow> ustring \<Rightarrow> 'w PtpExecutorTransport \<Rightarrow>
    (ustring \<times> u64) list \<Rightarrow> 'w \<Rightarrow> (run_result \<times> 'w PtpCtx) option" where
  "run_mode_reestablishment_exit fuel m connection from_mode to_mode t params w =
     (let refuse = (\<lambda>e. Some (Finished (Inl e), run_ctx [] w))
      in case mode_entry m connection from_mode to_mode of
           None \<Rightarrow> refuse UnknownPlan
         | Some e \<Rightarrow>
             (case me_execution e of
                ME_ReestablishConnection exit_steps \<Rightarrow>
                  map_option
                    (\<lambda>mapped. run_steps fuel m connection mapped (me_activities e) (Frame t)
                       (map (\<lambda>(k, v). (k, AV_U64 v)) params) None w)
                    (collect_options (map map_step exit_steps))
              | ME_Ptp steps \<Rightarrow>
                  (case collect_options (map map_step steps) of
                     None \<Rightarrow> None | Some _ \<Rightarrow> refuse UnsupportedPlan)
              | ME_UserInstruction _ \<Rightarrow> refuse UnsupportedPlan))"

definition resolve_initiator ::
  "(ActionCatalogEntry list \<Rightarrow> ustring) \<Rightarrow> CameraManifest \<Rightarrow> ActionInvocationRequest \<Rightarrow>
    PtpExecutorError + (Action \<times> (ustring \<times> ActionArgumentValue) list)" where
  "resolve_initiator digest m request =
     (if ir_role request \<noteq> Initiator then Inl (ActionRejected (lit ''wrongRole''))
      else (case resolve_action_invocation digest m request of
         Inl e \<Rightarrow> Inl (ActionRejected (resolution_error_code e))
       | Inr resolved \<Rightarrow>
           (case action m (ir_connection request) (ri_action resolved) of
              None \<Rightarrow> Inl UnknownPlan
            | Some a \<Rightarrow> Inr (a, ri_parameters resolved))))"

definition run_initiator_action ::
  "nat \<Rightarrow> (ActionCatalogEntry list \<Rightarrow> ustring) \<Rightarrow> CameraManifest \<Rightarrow> ActionInvocationRequest \<Rightarrow>
    'w TxnBackend \<Rightarrow> 'w PtpDataOutputSink option \<Rightarrow> 'w \<Rightarrow> (run_result \<times> 'w PtpCtx) option" where
  "run_initiator_action fuel digest m request backend sink w =
     (let refuse = (\<lambda>e. Some (Finished (Inl e), run_ctx [] w))
      in case resolve_initiator digest m request of
           Inl e \<Rightarrow> refuse e
         | Inr (a, params) \<Rightarrow>
             (case ac_initiator a of
                None \<Rightarrow> refuse UnsupportedPlan
              | Some i \<Rightarrow>
                  map_option
                    (\<lambda>mapped. run_steps fuel m (ir_connection request) mapped (ai_activities i) backend params sink w)
                    (try_map_steps (ai_steps i))))"

end
