(* ===== verification/Ptp_Executor_Return.thy ===== *)
theory Ptp_Executor_Return
  imports Ptp_Executor
begin

text \<open>
  A run returns. The clocks of the host bound a run: a host that answers only finitely many calls
  before a clock fires leaves no step waiting. The judgement \<open>returns\<close> carries this through the
  grammar, together with the two other ways of not returning, a panic and a clock that no scope
  catches; its rules are the collection \<open>returns_intros\<close>.
\<close>

named_theorems returns_intros

section \<open>Hosts\<close>

definition draws ::
  "('w \<Rightarrow> nat) \<Rightarrow> (nat list \<Rightarrow> 'w \<Rightarrow> ('c, 'e, 'a) race \<times> 'w) \<Rightarrow> bool" where
  "draws \<mu> call \<longleftrightarrow>
     (\<forall>budgets w r w'. call budgets w = (r, w') \<longrightarrow>
        \<mu> w' \<le> \<mu> w \<and> ((\<exists>x. r = Settled x) \<longrightarrow> \<mu> w' < \<mu> w))"

fun host_draws :: "('w \<Rightarrow> nat) \<Rightarrow> 'w TxnBackend \<Rightarrow> bool" where
  "host_draws \<mu> (Frame t) \<longleftrightarrow>
     draws \<mu> (reserve_transaction_id t) \<and> (\<forall>f. draws \<mu> (send_command_frame t f)) \<and>
     draws \<mu> (next_command_frame t) \<and> (\<forall>e. draws \<mu> (next_event_frame t e)) \<and>
     (\<forall>r. draws \<mu> (open_channel t r)) \<and> (\<forall>f. draws \<mu> (close_command_channel t f)) \<and>
     draws \<mu> (reopen_command_session t) \<and> (\<forall>ms. draws \<mu> (sleep_frame t ms))"
| "host_draws \<mu> (Transaction t) \<longleftrightarrow>
     (\<forall>opc ps d ms. draws \<mu> (txn_execute t opc ps d ms)) \<and> (\<forall>e. draws \<mu> (txn_next_event t e)) \<and>
     (\<forall>ms. draws \<mu> (txn_sleep t ms))"

definition sink_draws :: "('w \<Rightarrow> nat) \<Rightarrow> 'w PtpDataOutputSink option \<Rightarrow> bool" where
  "sink_draws \<mu> sink \<longleftrightarrow> (case sink of None \<Rightarrow> True | Some s \<Rightarrow> \<forall>out. draws \<mu> (s out))"

text \<open>The record-stream decoder does not panic on the manifest's layouts.\<close>

definition decodable :: "CameraManifest \<Rightarrow> bool" where
  "decodable m \<longleftrightarrow>
     (\<forall>prop info payload. property_payload m prop = Some info \<longrightarrow> ffi_parse_record_stream payload info \<noteq> None)"

definition bounded_env :: "nat \<Rightarrow> ('w \<Rightarrow> nat) \<Rightarrow> 'w PtpEnv \<Rightarrow> bool" where
  "bounded_env N \<mu> env \<longleftrightarrow>
     host_draws \<mu> (en_backend env) \<and> sink_draws \<mu> (en_output_sink env) \<and> decodable (en_manifest env) \<and>
     N \<le> en_fuel env"

section \<open>The judgement\<close>

definition returns :: "nat \<Rightarrow> ('w \<Rightarrow> nat) \<Rightarrow> nat \<Rightarrow> ('a, 'w) exec \<Rightarrow> bool" where
  "returns N \<mu> d m \<longleftrightarrow>
     (\<forall>st r st'. \<mu> (cx_world st) < N \<longrightarrow> m st = (r, st') \<longrightarrow>
        \<mu> (cx_world st') \<le> \<mu> (cx_world st) \<and> r \<noteq> Stuck \<and> r \<noteq> Panic \<and> (\<forall>k c. r = Preempt k c \<longrightarrow> k < d))"

lemma returnsI:
  assumes "\<And>st r st'. \<mu> (cx_world st) < N \<Longrightarrow> m st = (r, st') \<Longrightarrow>
    \<mu> (cx_world st') \<le> \<mu> (cx_world st) \<and> r \<noteq> Stuck \<and> r \<noteq> Panic \<and> (\<forall>k c. r = Preempt k c \<longrightarrow> k < d)"
  shows "returns N \<mu> d m"
  using assms by (simp add: returns_def)

lemma returnsD:
  assumes "returns N \<mu> d m" "m st = (r, st')" "\<mu> (cx_world st) < N"
  shows "\<mu> (cx_world st') \<le> \<mu> (cx_world st)" "\<mu> (cx_world st') < N" "r \<noteq> Stuck" "r \<noteq> Panic"
    "r = Preempt k c \<Longrightarrow> k < d"
  using assms by (fastforce simp: returns_def)+

lemma returns_return [returns_intros]: "returns N \<mu> d (x_return a)"
  and returns_fail [returns_intros]: "returns N \<mu> d (x_fail e)"
  and returns_lift_detail [returns_intros]: "returns N \<mu> d (lift_detail here r)"
  and returns_lift_codec [returns_intros]: "returns N \<mu> d (lift_codec here r')"
  by (auto simp: returns_def x_return_def x_fail_def lift_detail_def lift_codec_def split: sum.splits)

lemma returns_modify [returns_intros]:
  assumes "\<And>st. cx_world (f st) = cx_world st"
  shows "returns N \<mu> d (x_modify f)"
  using assms by (auto simp: returns_def x_modify_def)

text \<open>The continuation may assume that its argument came out of the first computation.\<close>

lemma returns_handle_from:
  assumes "returns N \<mu> d m" "\<And>a st st'. m st = (Val a, st') \<Longrightarrow> returns N \<mu> d (f a)"
    "\<And>e. returns N \<mu> d (g e)"
  shows "returns N \<mu> d (x_handle m f g)"
proof (rule returnsI)
  fix st r st' assume st: "\<mu> (cx_world st) < N" and run: "x_handle m f g st = (r, st')"
  obtain r1 st1 where first: "m st = (r1, st1)" by (cases "m st")
  note m = returnsD [OF assms(1) first st]
  show "\<mu> (cx_world st') \<le> \<mu> (cx_world st) \<and> r \<noteq> Stuck \<and> r \<noteq> Panic \<and> (\<forall>k c. r = Preempt k c \<longrightarrow> k < d)"
  proof (cases r1)
    case (Val a)
    with run first have "f a st1 = (r, st')" by (simp add: x_handle_def)
    from returnsD [OF assms(2) this m(2)] m(1) first Val show ?thesis by (auto intro: order_trans)
  next
    case (Err e)
    with run first have "g e st1 = (r, st')" by (simp add: x_handle_def)
    from returnsD [OF assms(3) this m(2)] m(1) show ?thesis by (auto intro: order_trans)
  qed (use m run first in \<open>auto simp: x_handle_def\<close>)
qed

lemma returns_handle [returns_intros]:
  assumes "returns N \<mu> d m" "\<And>a. returns N \<mu> d (f a)" "\<And>e. returns N \<mu> d (g e)"
  shows "returns N \<mu> d (x_handle m f g)"
  using assms by (rule returns_handle_from)

lemma returns_bind_from:
  assumes "returns N \<mu> d m" "\<And>a st st'. m st = (Val a, st') \<Longrightarrow> returns N \<mu> d (f a)"
  shows "returns N \<mu> d (x_bind m f)"
  unfolding x_bind_def using assms by (auto intro!: returns_handle_from returns_fail)

lemma returns_bind [returns_intros]:
  assumes "returns N \<mu> d m" "\<And>a. returns N \<mu> d (f a)"
  shows "returns N \<mu> d (x_bind m f)"
  using assms by (rule returns_bind_from)

lemma returns_finally [returns_intros]:
  assumes "returns N \<mu> d m" "\<And>st. cx_world (f st) = cx_world st"
  shows "returns N \<mu> d (x_finally m f)"
  unfolding x_finally_def using assms by (intro returns_intros)

lemma returns_case_option [returns_intros]:
  assumes "v = None \<Longrightarrow> returns N \<mu> d m" "\<And>x. v = Some x \<Longrightarrow> returns N \<mu> d (f x)"
  shows "returns N \<mu> d (case v of None \<Rightarrow> m | Some x \<Rightarrow> f x)"
  using assms by (cases v) auto

lemma returns_case_sum [returns_intros]:
  assumes "\<And>e. v = Inl e \<Longrightarrow> returns N \<mu> d (g e)" "\<And>x. v = Inr x \<Longrightarrow> returns N \<mu> d (f x)"
  shows "returns N \<mu> d (case v of Inl e \<Rightarrow> g e | Inr x \<Rightarrow> f x)"
  using assms by (cases v) auto

lemma returns_if [returns_intros]:
  assumes "b \<Longrightarrow> returns N \<mu> d m" "\<not> b \<Longrightarrow> returns N \<mu> d m'"
  shows "returns N \<mu> d (if b then m else m')"
  using assms by simp

section \<open>Calls and clocks\<close>

lemma draws_typed: "draws \<mu> call \<Longrightarrow> draws \<mu> (typed_host call)"
  by (auto simp: draws_def typed_host_def split: prod.splits elim!: race_from.elims)

lemma returns_deadline [returns_intros]:
  assumes "draws \<mu> call" "en_clocks env \<noteq> []"
  shows "returns N \<mu> (length (en_clocks env)) (transport_deadline env here ms call)"
proof (rule returnsI)
  fix st r st' assume "\<mu> (cx_world st) < N" and run: "transport_deadline env here ms call st = (r, st')"
  obtain a w where answer: "call (ms # en_clocks env) (cx_world st) = (a, w)"
    by (cases "call (ms # en_clocks env) (cx_world st)")
  with assms have "\<mu> w \<le> \<mu> (cx_world st)" unfolding draws_def by blast
  moreover have "min k (length (en_clocks env) - 1) < length (en_clocks env)" for k
    using assms(2) by (cases "en_clocks env") auto
  ultimately show "\<mu> (cx_world st') \<le> \<mu> (cx_world st) \<and> r \<noteq> Stuck \<and> r \<noteq> Panic \<and>
      (\<forall>k c. r = Preempt k c \<longrightarrow> k < length (en_clocks env))"
    using run answer
    by (auto simp: transport_deadline_def clock_result_def preempt_def Let_def
        split: race.splits sum.splits if_splits)
qed

lemma deadline_settled:
  assumes "draws \<mu> call" "transport_deadline env here ms call st = (Val a, st')"
  shows "\<mu> (cx_world st') < \<mu> (cx_world st)"
proof -
  obtain b w where answer: "call (ms # en_clocks env) (cx_world st) = (b, w)"
    by (cases "call (ms # en_clocks env) (cx_world st)")
  with assms(2) have "\<exists>x. b = Settled x" "st' = st\<lparr>cx_world := w\<rparr>"
    by (auto simp: transport_deadline_def clock_result_def preempt_def Let_def
        split: race.splits sum.splits if_splits)
  with answer assms(1) show ?thesis unfolding draws_def by fastforce
qed

lemma returns_clocked [returns_intros]:
  assumes "returns N \<mu> (Suc d) m"
  shows "returns N \<mu> d (clocked here detail m)"
proof (rule returnsI)
  fix st r st' assume st: "\<mu> (cx_world st) < N" and run: "clocked here detail m st = (r, st')"
  obtain r1 st1 where first: "m st = (r1, st1)" by (cases "m st")
  with run returnsD [OF assms first st]
  show "\<mu> (cx_world st') \<le> \<mu> (cx_world st) \<and> r \<noteq> Stuck \<and> r \<noteq> Panic \<and> (\<forall>k c. r = Preempt k c \<longrightarrow> k < d)"
    by (auto simp: clocked_def clock_result_def split: walk.splits sum.splits if_splits)
qed

section \<open>One transaction\<close>

definition rx_ok :: "Receiving \<Rightarrow> bool" where
  "rx_ok rx \<longleftrightarrow>
     (rx_had_data rx \<or> rx_payload rx = []) \<and> length (rx_payload rx) \<le> MAX_DATA_PHASE_BYTES \<and>
     (case rx_standard_total rx of None \<Rightarrow> True | Some t \<Rightarrow> unat t \<le> MAX_DATA_PHASE_BYTES)"

lemma rx_ok_length: "rx_ok rx \<Longrightarrow> length (rx_payload rx) \<le> MAX_DATA_PHASE_BYTES"
  by (simp add: rx_ok_def)

lemma rx_ok_start [simp]: "rx_ok receiving"
  by (simp add: rx_ok_def receiving_def)

lemma accept_block_ok:
  assumes "rx_ok rx" "accept_block framing kind final block rx = Inr rx'"
  shows "rx_ok rx'"
  using assms
  by (auto simp: accept_block_def check_data_frame_def rx_ok_def sat_add_def MAX_DATA_PHASE_BYTES_def
      split: PtpFraming.splits option.splits if_splits)

lemma accept_frame_ok:
  assumes "rx_ok rx" "accept_frame framing tid packet rx = Inr (Inl rx')"
  shows "rx_ok rx'"
proof (cases packet)
  case (P_StartData start)
  with assms show ?thesis by (auto simp: accept_frame_def rx_ok_def split: if_splits)
next
  case (P_Data d)
  with assms show ?thesis
    by (auto simp: accept_frame_def res_bind_Inr_iff split: if_splits intro: accept_block_ok)
next
  case (P_EndData d)
  with assms show ?thesis
    by (auto simp: accept_frame_def res_bind_Inr_iff split: if_splits intro: accept_block_ok)
qed (use assms in \<open>auto simp: accept_frame_def split: if_splits option.splits\<close>)

lemma returns_emit [returns_intros]:
  assumes "sink_draws \<mu> (en_output_sink env)" "en_clocks env \<noteq> []"
  shows "returns N \<mu> (length (en_clocks env)) (emit_output env here meta out)"
proof (rule returnsI)
  fix st r st' assume "\<mu> (cx_world st) < N" and run: "emit_output env here meta out st = (r, st')"
  have clock: "min k (length (en_clocks env) - 1) < length (en_clocks env)" for k
    using assms(2) by (cases "en_clocks env") auto
  show "\<mu> (cx_world st') \<le> \<mu> (cx_world st) \<and> r \<noteq> Stuck \<and> r \<noteq> Panic \<and>
      (\<forall>k c. r = Preempt k c \<longrightarrow> k < length (en_clocks env))"
  proof (cases "en_output_sink env")
    case (Some sink)
    obtain a w where answer: "sink out (en_clocks env) (cx_world st) = (a, w)"
      by (cases "sink out (en_clocks env) (cx_world st)")
    with assms(1) Some have "\<mu> w \<le> \<mu> (cx_world st)" unfolding sink_draws_def draws_def by auto
    with run answer Some clock show ?thesis
      by (auto simp: emit_output_def preempt_def split: race.splits sum.splits)
  qed (use run in \<open>auto simp: emit_output_def\<close>)
qed

lemma returns_frame_reply [returns_intros]:
  assumes "sink_draws \<mu> (en_output_sink env)" "en_clocks env \<noteq> []"
  shows "returns N \<mu> (length (en_clocks env)) (frame_reply env here opc prop tid rx r)"
  unfolding frame_reply_def Let_def using assms by (intro returns_intros)

lemma x_bind_Val:
  "x_bind m f st = (Val b, st') \<longleftrightarrow> (\<exists>a st1. m st = (Val a, st1) \<and> f a st1 = (Val b, st'))"
  by (auto simp: x_bind_def x_handle_def x_fail_def split: prod.splits walk.splits)

lemma x_return_Val [simp]: "x_return a st = (r, st') \<longleftrightarrow> r = Val a \<and> st' = st"
  by (auto simp: x_return_def)

lemma x_fail_Val [simp]: "x_fail e st = (r, st') \<longleftrightarrow> r = Err e \<and> st' = st"
  by (auto simp: x_fail_def)

lemma lift_detail_Val [simp]: "lift_detail here r st = (Val a, st') \<longleftrightarrow> r = Inr a \<and> st' = st"
  by (auto simp: lift_detail_def split: sum.splits)

lemma returns_receive_frames:
  assumes "draws \<mu> (next_command_frame t)" "sink_draws \<mu> (en_output_sink env)" "en_clocks env \<noteq> []"
  shows "returns N \<mu> (length (en_clocks env)) (receive_frames env t here opc prop tid n rx)"
proof (induction n arbitrary: rx)
  case 0
  then show ?case by (simp add: receive_frames.simps returns_intros)
next
  case (Suc n)
  have "returns N \<mu> (length (en_clocks env))
      (case r of Inl rx' \<Rightarrow> receive_frames env t here opc prop tid n rx'
       | Inr resp \<Rightarrow> frame_reply env here opc prop tid rx resp)" for r
    using Suc assms by (intro returns_case_sum returns_frame_reply)
  then show ?case
    using assms
    by (subst receive_frames.simps)
       (simp, intro returns_bind returns_deadline returns_lift_codec returns_lift_detail)
qed

lemma frame_reply_payload:
  "frame_reply env here opc prop tid rx r st = (Val reply, st') \<Longrightarrow> wr_payload reply = rx_payload rx"
  by (auto simp: frame_reply_def Let_def x_bind_Val split: if_splits)

lemma receive_frames_payload:
  assumes "rx_ok rx" "receive_frames env t here opc prop tid n rx st = (Val reply, st')"
  shows "length (wr_payload reply) \<le> MAX_DATA_PHASE_BYTES"
  using assms
proof (induction n arbitrary: rx st)
  case 0
  then show ?case by (simp add: receive_frames.simps)
next
  case (Suc n)
  from Suc.prems(2) obtain packet r st1 where step:
    "accept_frame (en_command_framing env) tid packet rx = Inr r"
    "(case r of Inl rx' \<Rightarrow> receive_frames env t here opc prop tid n rx'
      | Inr resp \<Rightarrow> frame_reply env here opc prop tid rx resp) st1 = (Val reply, st')"
    by (subst (asm) receive_frames.simps) (auto simp: x_bind_Val)
  then show ?case
  proof (cases r)
    case (Inl rx')
    then have "rx_ok rx'" using accept_frame_ok [OF Suc.prems(1)] step(1) by blast
    from Suc.IH [OF this] step(2) Inl show ?thesis by simp
  qed (use step Suc.prems(1) in \<open>auto dest!: frame_reply_payload simp: rx_ok_length\<close>)
qed

definition sendable :: "'w PtpEnv \<Rightarrow> bytes \<Rightarrow> bool" where
  "sendable env payload \<longleftrightarrow>
     (\<forall>t. en_backend env = Frame t \<longrightarrow> length payload \<le> MAX_DATA_PHASE_BYTES)"

lemma build_data_total: "length payload \<le> MAX_DATA_PHASE_BYTES \<Longrightarrow> build_data framing opc tid payload \<noteq> None"
  by (auto simp: build_data_def fuji_encode_data_def data_frame_header_def MAX_DATA_PHASE_BYTES_def
      unsigned_of_nat take_bit_eq_mod split: PtpFraming.splits)

lemma returns_send_packet [returns_intros]:
  assumes "\<And>f. draws \<mu> (send_command_frame t f)" "en_clocks env \<noteq> []"
  shows "returns N \<mu> (length (en_clocks env)) (send_packet env t here packet)"
  unfolding send_packet_def send_frame_def using assms by (intro returns_intros)

lemma returns_send_data_out:
  assumes "\<And>f. draws \<mu> (send_command_frame t f)" "en_clocks env \<noteq> []"
    "length payload \<le> MAX_DATA_PHASE_BYTES"
  shows "returns N \<mu> (length (en_clocks env)) (send_data_out env t here opc tid payload)"
proof -
  have "returns N \<mu> (length (en_clocks env)) (x_bind (lift_codec here r) (send_frame env t here))" for r
    unfolding send_frame_def using assms by (intro returns_intros)
  moreover obtain r1 r2 where "build_data Compressed opc tid payload = Some r1"
    "build_data Usb opc tid payload = Some r2"
    using build_data_total [OF assms(3)] by blast
  ultimately show ?thesis
    using assms
    by (auto simp: send_data_out_def intro!: returns_bind [OF returns_send_packet returns_send_packet]
        split: PtpFraming.splits)
qed

lemma returns_issue:
  assumes "bounded_env N \<mu> env" "en_clocks env \<noteq> []"
    "\<And>payload. data_out = Some payload \<Longrightarrow> sendable env payload"
  shows "returns N \<mu> (length (en_clocks env)) (issue env here opc params data_out prop)"
proof (cases "en_backend env")
  case (Frame t)
  have host: "draws \<mu> (reserve_transaction_id t)" "\<And>f. draws \<mu> (send_command_frame t f)"
    "draws \<mu> (next_command_frame t)" "sink_draws \<mu> (en_output_sink env)"
    using assms(1) Frame by (simp_all add: bounded_env_def)
  have "returns N \<mu> (length (en_clocks env))
      (case data_out of None \<Rightarrow> x_return () | Some payload \<Rightarrow> send_data_out env t here opc tid payload)" for tid
    using host assms(2,3) Frame by (auto simp: sendable_def intro!: returns_intros returns_send_data_out)
  then show ?thesis
    using Frame host assms(2)
    by (auto simp: issue_def issue_frames_def
        intro!: returns_bind returns_deadline returns_send_packet returns_receive_frames)
next
  case (Transaction t)
  then have "draws \<mu> (typed_host (txn_execute t opc params data_out DEFAULT_OP_TIMEOUT_MS))"
    "sink_draws \<mu> (en_output_sink env)"
    using assms(1) by (simp_all add: bounded_env_def draws_typed)
  then show ?thesis
    unfolding issue_def issue_typed_def Let_def using Transaction assms(2)
    by (auto intro!: returns_intros)
qed

lemma issue_payload:
  assumes "issue env here opc params data_out prop st = (Val reply, st')"
  shows "sendable env (wr_payload reply)"
  unfolding sendable_def
proof (intro allI impI)
  fix t assume "en_backend env = Frame t"
  with assms obtain tid st1 where
    "receive_frames env t here opc prop tid MAX_COMMAND_FRAMES receiving st1 = (Val reply, st')"
    by (auto simp: issue_def issue_frames_def x_bind_Val)
  then show "length (wr_payload reply) \<le> MAX_DATA_PHASE_BYTES"
    using receive_frames_payload rx_ok_start by blast
qed

section \<open>Captures and verbs\<close>

lemma returns_require_ok_reply [returns_intros]: "returns N \<mu> d (require_ok_reply here reply)"
  and returns_require_ok [returns_intros]: "returns N \<mu> d (require_ok here reply)"
  unfolding require_ok_def require_ok_reply_def by (intro returns_intros)+

lemma returns_require_ok_or_tolerate [returns_intros]:
  "returns N \<mu> d (require_ok_or_tolerate here reply tolerant)"
  unfolding require_ok_or_tolerate_def Let_def by (intro returns_intros) simp

lemma bind_slot_world [simp]: "cx_world (bind_slot slot v st) = cx_world st"
  and observe_world [simp]: "cx_world (observe prop i st) = cx_world st"
  by (simp_all add: bind_slot_def observe_def)

lemma fold_world:
  "(\<And>x st. cx_world (f x st) = cx_world st) \<Longrightarrow> cx_world (fold f xs st) = cx_world st"
  by (induction xs arbitrary: st) auto

lemma bind_numbers_world [simp]: "cx_world (bind_numbers vs st) = cx_world st"
  unfolding bind_numbers_def by (rule fold_world) (simp split: prod.splits)

lemma observe_records_world [simp]: "cx_world (observe_records rs st) = cx_world st"
  unfolding observe_records_def by (rule fold_world) (simp split: prod.splits option.splits)

lemma returns_decode_property [returns_intros]: "returns N \<mu> d (decode_property env here prop payload)"
  unfolding decode_property_def by (intro returns_intros)

lemma returns_observe_property:
  assumes "decodable (en_manifest env)"
  shows "returns N \<mu> d (observe_property env here prop payload)"
proof (cases "property_payload (en_manifest env) prop")
  case None
  then show ?thesis by (simp add: observe_property_def returns_intros)
next
  case (Some info)
  with assms obtain r where "ffi_parse_record_stream payload info = Some r"
    unfolding decodable_def by blast
  with Some show ?thesis
    by (cases r) (auto simp: observe_property_def Let_def intro!: returns_intros)
qed

lemma returns_bind_collections [returns_intros]: "returns N \<mu> d (bind_collections here vs cs)"
  by (induction cs) (auto intro!: returns_intros)

lemma returns_bind_prop_values [returns_intros]: "returns N \<mu> d (bind_prop_values here v cs)"
  by (induction cs) (auto intro!: returns_intros)

lemma returns_capture_property:
  assumes "decodable (en_manifest env)"
  shows "returns N \<mu> d (capture_property env here prop cs payload)"
  unfolding capture_property_def Let_def using assms
  by (auto intro!: returns_intros returns_observe_property)

lemma returns_bind_capture_fallbacks [returns_intros]: "returns N \<mu> d (bind_capture_fallbacks cs code)"
  unfolding bind_capture_fallbacks_def by (intro returns_intros) simp

lemma returns_gather_captures [returns_intros]:
  "returns N \<mu> d (gather_captures here opc tid payload cs vs)"
  by (induction cs arbitrary: vs) (auto intro!: returns_intros split: CaptureSource.splits)

lemma returns_apply_captures [returns_intros]: "returns N \<mu> d (apply_captures here opc tid cs payload)"
  unfolding apply_captures_def by (intro returns_intros) simp

lemma returns_resolve_params [returns_intros]: "returns N \<mu> d (resolve_params env here params)"
  by (auto simp: returns_def resolve_params_def lift_detail_def split: sum.splits)

text \<open>A verb runs inside at least one clock, an await brings its own.\<close>

definition block_returns :: "nat \<Rightarrow> ('w \<Rightarrow> nat) \<Rightarrow> bool \<Rightarrow> 'w block \<Rightarrow> bool" where
  "block_returns N \<mu> clocked_outside b \<longleftrightarrow>
     (\<forall>env here. bounded_env N \<mu> env \<longrightarrow> (clocked_outside \<longrightarrow> en_clocks env \<noteq> []) \<longrightarrow>
        returns N \<mu> (length (en_clocks env)) (b env here))"

lemma block_returnsI:
  assumes "\<And>env here. bounded_env N \<mu> env \<Longrightarrow> (outside \<Longrightarrow> en_clocks env \<noteq> []) \<Longrightarrow>
    returns N \<mu> (length (en_clocks env)) (b env here)"
  shows "block_returns N \<mu> outside b"
  using assms by (simp add: block_returns_def)

lemma block_returnsD:
  assumes "block_returns N \<mu> outside b" "bounded_env N \<mu> env" "en_clocks env \<noteq> []"
  shows "returns N \<mu> (length (en_clocks env)) (b env here)"
  using assms by (simp add: block_returns_def)

lemma bounded_env_clock [simp]: "bounded_env N \<mu> (with_clock ms env) = bounded_env N \<mu> env"
  and with_clock_clocks [simp]: "en_clocks (with_clock ms env) = ms # en_clocks env"
  by (simp_all add: bounded_env_def with_clock_def)

lemma bounded_decodable: "bounded_env N \<mu> env \<Longrightarrow> decodable (en_manifest env)"
  by (simp add: bounded_env_def)

lemma encoded_value_sendable:
  "encode_value v width = Inr bs \<Longrightarrow> sendable env bs"
  by (cases width) (auto simp: sendable_def try_from_def MAX_DATA_PHASE_BYTES_def split: if_splits)

lemma ptp_string_short:
  assumes "wr_run (wr_ptp_string s) = Inr bs"
  shows "length bs \<le> 511"
proof (cases "str_fits s")
  case True
  then have "bs = str_wire s"
    using assms writes_ptp_string [OF True] by (auto simp: wr_run_def writes_def)
  moreover have "length (concat (map u16_le us)) = 2 * length us" for us
    by (induction us) auto
  ultimately show ?thesis using True by (simp add: str_wire_def str_fits_def)
next
  case False
  then show ?thesis using assms by (simp add: wr_run_def wr_ptp_string_too_long)
qed

lemma property_text_sendable: "encode_property_text m prop s = Inr bs \<Longrightarrow> sendable env bs"
  by (auto simp: encode_property_text_def codec_result_def sendable_def MAX_DATA_PHASE_BYTES_def
      dest!: ptp_string_short split: option.splits if_splits sum.splits)

lemma encoded_runtime_sendable:
  assumes "encode_runtime_property_value m prop v = Inr bs"
  shows "sendable env bs"
  using assms
  by (auto simp: encode_runtime_property_value_def encode_structured_integer_property_def detail_of_def Let_def
      split: option.splits ActionArgumentValue.splits if_splits sum.splits
      intro: property_text_sendable encoded_value_sendable)

lemma returns_write_property:
  assumes "bounded_env N \<mu> env" "en_clocks env \<noteq> []" "sendable env payload"
  shows "returns N \<mu> (length (en_clocks env)) (write_property env here prop payload)"
  unfolding write_property_def using assms by (auto intro!: returns_intros returns_issue)

lemma returns_read_property [returns_intros]:
  assumes "bounded_env N \<mu> env" "en_clocks env \<noteq> []"
  shows "returns N \<mu> (length (en_clocks env)) (read_property env here prop)"
  unfolding read_property_def using assms by (auto intro!: returns_issue)

lemma returns_frame_transport [returns_intros]: "returns N \<mu> d (frame_transport env here)"
  unfolding frame_transport_def by (auto intro!: returns_intros split: TxnBackend.splits)

lemma frame_transport_Val:
  "frame_transport env here st = (Val t, st') \<Longrightarrow> en_backend env = Frame t"
  by (auto simp: frame_transport_def split: if_splits TxnBackend.splits)

lemma set_prop_verb_returns: "block_returns N \<mu> True (set_prop_verb prop v)"
  unfolding set_prop_verb_def
  by (auto intro!: block_returnsI returns_intros returns_write_property dest: encoded_value_sendable)

lemma set_prop_runtime_returns: "block_returns N \<mu> True (set_prop_runtime_verb prop slot missing)"
  unfolding set_prop_runtime_verb_def
  by (auto intro!: block_returnsI returns_case_option returns_bind_from returns_lift_detail returns_return
      returns_fail returns_write_property dest: encoded_runtime_sendable split: MissingRuntimeValue.splits)

lemma get_prop_returns: "block_returns N \<mu> True (get_prop_verb prop captures)"
  unfolding get_prop_verb_def Let_def
  by (intro block_returnsI returns_intros returns_capture_property) (auto dest: bounded_decodable)

lemma read_echo_returns: "block_returns N \<mu> True (read_echo_verb prop captures)"
proof (rule block_returnsI)
  fix env :: "'a PtpEnv" and here assume env: "bounded_env N \<mu> env" and "True \<Longrightarrow> en_clocks env \<noteq> []"
  have "returns N \<mu> (length (en_clocks env))
      (x_bind (capture_property env here prop captures (wr_payload reply))
         (\<lambda>_. write_property env here prop (wr_payload reply)))"
    if "read_property env here prop st = (Val reply, st')" for reply st st'
    using that env \<open>True \<Longrightarrow> _\<close> unfolding read_property_def
    by (auto intro!: returns_bind returns_capture_property returns_write_property issue_payload
        dest: bounded_decodable)
  then show "returns N \<mu> (length (en_clocks env)) (read_echo_verb prop captures env here)"
    unfolding read_echo_verb_def using env \<open>True \<Longrightarrow> _\<close>
    by (intro returns_bind_from [OF returns_read_property] returns_bind_from [OF returns_require_ok_reply])
       (auto simp: require_ok_reply_def split: if_splits)
qed

lemma send_op_loop_returns:
  assumes "bounded_env N \<mu> env" "en_clocks env \<noteq> []"
  shows "returns N \<mu> (length (en_clocks env)) (send_op_loop env here opc params captures tolerant n last_meta)"
proof (induction n arbitrary: last_meta)
  case 0
  then show ?case by (simp add: send_op_loop.simps returns_intros)
next
  case (Suc n)
  then show ?case
    using assms by (subst send_op_loop.simps) (auto intro!: returns_intros returns_issue)
qed

lemma send_op_returns: "block_returns N \<mu> True (send_op_verb opc params captures rep tolerant)"
  unfolding send_op_verb_def by (auto intro!: block_returnsI returns_intros send_op_loop_returns)

lemma bounded_frame:
  assumes "bounded_env N \<mu> env" "en_backend env = Frame t"
  shows "draws \<mu> (open_channel t role)" "draws \<mu> (close_command_channel t frame)"
    "draws \<mu> (reopen_command_session t)"
  using assms by (simp_all add: bounded_env_def)

lemma open_channel_returns: "block_returns N \<mu> True (open_channel_verb role)"
  unfolding open_channel_verb_def
  by (auto intro!: block_returnsI returns_bind_from [OF returns_frame_transport] returns_intros bounded_frame
      dest: frame_transport_Val)

lemma returns_close_channel:
  assumes "bounded_env N \<mu> env" "en_clocks env \<noteq> []" "en_backend env = Frame t"
  shows "returns N \<mu> (length (en_clocks env)) (close_channel env t here sentinel)"
  unfolding close_channel_def using assms by (auto intro!: returns_intros bounded_frame)

lemma close_session_returns: "block_returns N \<mu> True (close_session_verb sentinel tolerant)"
  unfolding close_session_verb_def
  by (auto intro!: block_returnsI returns_bind_from [OF returns_frame_transport] returns_intros
      returns_issue returns_close_channel dest: frame_transport_Val)

lemma reopen_session_returns: "block_returns N \<mu> True (reopen_session_verb tolerant)"
  unfolding reopen_session_verb_def
  by (auto intro!: block_returnsI returns_bind_from [OF returns_frame_transport] returns_intros
      returns_issue returns_close_channel bounded_frame dest: frame_transport_Val)

section \<open>Waiting\<close>

lemma bounded_sleep: "bounded_env N \<mu> env \<Longrightarrow> draws \<mu> (backend_sleep (en_backend env) ms)"
  by (auto simp: bounded_env_def backend_sleep_def draws_typed split: TxnBackend.splits)

lemma returns_pause [returns_intros]:
  assumes "bounded_env N \<mu> env" "en_clocks env \<noteq> []"
  shows "returns N \<mu> (length (en_clocks env)) (pause env here ms)"
  unfolding pause_def using assms by (auto intro!: returns_intros bounded_sleep)

lemma returns_await_event:
  assumes "bounded_env N \<mu> env" "en_clocks env \<noteq> []"
  shows "returns N \<mu> (length (en_clocks env)) (await_event env here code)"
proof (cases "en_backend env")
  case (Frame t)
  with assms show ?thesis
    by (auto simp: await_event_def bounded_env_def intro!: returns_intros split: PtpIpPacket.splits)
next
  case (Transaction t)
  with assms show ?thesis
    by (auto simp: await_event_def bounded_env_def intro!: returns_intros draws_typed)
qed

lemma returns_await_first [returns_intros]:
  assumes "bounded_env N \<mu> env" "en_clocks env \<noteq> []"
  shows "returns N \<mu> (length (en_clocks env)) (await_first env here source)"
  unfolding await_first_def using assms
  by (auto intro!: returns_intros returns_await_event split: FfiAwaitSource.split)

lemma returns_poll_once:
  assumes "bounded_env N \<mu> env" "en_clocks env \<noteq> []"
  shows "returns N \<mu> (length (en_clocks env)) (poll_once env here prop)"
  unfolding poll_once_def using assms
  by (auto intro!: returns_intros returns_observe_property bounded_decodable)

lemma returns_await_done:
  assumes "bounded_env N \<mu> env"
  shows "returns N \<mu> d (await_done env here captures polled)"
  unfolding await_done_def using assms
  by (auto intro!: returns_intros returns_capture_property bounded_decodable)

lemma returns_mono:
  assumes "returns N \<mu> d m" "n \<le> N"
  shows "returns n \<mu> d m"
proof (rule returnsI)
  fix st r st' assume "\<mu> (cx_world st) < n" and run: "m st = (r, st')"
  with assms(2) have "\<mu> (cx_world st) < N" by simp
  from returnsD [OF assms(1) run this]
  show "\<mu> (cx_world st') \<le> \<mu> (cx_world st) \<and> r \<noteq> Stuck \<and> r \<noteq> Panic \<and> (\<forall>k c. r = Preempt k c \<longrightarrow> k < d)"
    by auto
qed

lemma returns_if_state:
  assumes "returns N \<mu> d m" "returns N \<mu> d m'"
  shows "returns N \<mu> d (\<lambda>st. if P st then m st else m' st)"
  using assms unfolding returns_def by presburger

text \<open>A round that goes on has slept, and sleeping used up a part of the host's supply.\<close>

lemma returns_after_pause:
  assumes "bounded_env N \<mu> env" "en_clocks env \<noteq> []" "Suc n \<le> N" "returns n \<mu> (length (en_clocks env)) m"
  shows "returns (Suc n) \<mu> (length (en_clocks env)) (x_bind (pause env here ms) (\<lambda>_. m))"
proof (rule returnsI)
  fix st r st' assume st: "\<mu> (cx_world st) < Suc n" and run: "x_bind (pause env here ms) (\<lambda>_. m) st = (r, st')"
  obtain r1 st1 where slept: "pause env here ms st = (r1, st1)" by (cases "pause env here ms st")
  have "\<mu> (cx_world st) < N" using st assms(3) by simp
  note p = returnsD [OF returns_pause [OF assms(1,2)] slept this]
  show "\<mu> (cx_world st') \<le> \<mu> (cx_world st) \<and> r \<noteq> Stuck \<and> r \<noteq> Panic \<and>
      (\<forall>k c. r = Preempt k c \<longrightarrow> k < length (en_clocks env))"
  proof (cases r1)
    case (Val u)
    with slept have "\<mu> (cx_world st1) < \<mu> (cx_world st)"
      unfolding pause_def by (blast intro: deadline_settled [OF bounded_sleep [OF assms(1)]])
    with st have st1: "\<mu> (cx_world st1) < n" by simp
    from run slept Val have "m st1 = (r, st')" by (simp add: x_bind_def x_handle_def)
    from returnsD [OF assms(4) this st1] p(1) show ?thesis by (auto intro: order_trans)
  qed (use p run slept in \<open>auto simp: x_bind_def x_handle_def x_fail_def\<close>)
qed

lemma await_loop_returns:
  assumes "bounded_env N \<mu> env" "en_clocks env \<noteq> []" "\<And>here. returns N \<mu> (length (en_clocks env)) (on_each env here)"
  shows "n \<le> fuel \<Longrightarrow> n \<le> N \<Longrightarrow>
    returns n \<mu> (length (en_clocks env)) (await_loop fuel env here predicate poll on_each captures ms)"
proof (induction fuel arbitrary: n)
  case 0
  then show ?case by (simp add: returns_def)
next
  case (Suc fuel)
  show ?case
  proof (cases n)
    case 0
    then show ?thesis by (simp add: returns_def)
  next
    case (Suc n')
    let ?rest = "x_bind (pause env here (if ms = 0 then DEFAULT_POLL_INTERVAL_MS else ms))
      (\<lambda>_. await_loop fuel env here predicate poll on_each captures ms)"
    have "returns n \<mu> (length (en_clocks env)) ?rest"
      unfolding Suc using Suc Suc.prems Suc.IH [of n'] assms(1,2) by (intro returns_after_pause) auto
    then have "returns n \<mu> (length (en_clocks env)) (x_bind (on_each env (here @ lit ''.onEach'')) (\<lambda>_. ?rest))"
      by (rule returns_bind [OF returns_mono [OF assms(3) Suc.prems(2)]])
    then have "returns n \<mu> (length (en_clocks env))
        (\<lambda>st. if pred_eval predicate (cx_observed st) then await_done env here captures polled st
         else if poll = None then x_fail (other here D_EventRejected) st
         else x_bind (on_each env (here @ lit ''.onEach'')) (\<lambda>_. ?rest) st)" for polled
      by (intro returns_if_state returns_fail returns_mono [OF returns_await_done [OF assms(1)] Suc.prems(2)])
    moreover have "returns n \<mu> (length (en_clocks env))
        (case poll of None \<Rightarrow> x_return None
         | Some prop \<Rightarrow> x_bind (poll_once env here prop) (\<lambda>reply. x_return (Some (prop, reply))))"
      by (intro returns_case_option returns_return returns_bind
          returns_mono [OF returns_poll_once [OF assms(1,2)] Suc.prems(2)])
    ultimately show ?thesis unfolding await_loop.simps by (rule returns_bind [rotated])
  qed
qed

lemma await_returns:
  assumes "block_returns N \<mu> False on_each"
  shows "block_returns N \<mu> False (await_verb source until on_each captures timeout_ms interval_ms)"
proof (rule block_returnsI)
  fix env :: "'a PtpEnv" and here assume env: "bounded_env N \<mu> env"
  let ?env = "with_clock (max timeout_ms 1) env"
  have on_each: "returns N \<mu> (length (en_clocks ?env)) (on_each ?env path)" for path
    using assms env by (simp add: block_returns_def del: with_clock_clocks) 
  have env': "bounded_env N \<mu> ?env" "en_clocks ?env \<noteq> []" and fuel: "N \<le> en_fuel ?env"
    using env by (simp_all add: bounded_env_def with_clock_def)
  have "returns N \<mu> (length (en_clocks ?env)) (run_await_body source until on_each captures interval_ms ?env here)"
    unfolding run_await_body_def
    by (intro returns_bind returns_await_first await_loop_returns [where N = N] env' on_each fuel order_refl)
  then show "returns N \<mu> (length (en_clocks env))
      (await_verb source until on_each captures timeout_ms interval_ms env here)"
    by (simp add: await_verb_def Let_def returns_clocked)
qed

section \<open>Blocks\<close>

lemma retry_activity_world [simp]: "cx_world (retry_activity n lim e st) = cx_world st"
  by (simp add: retry_activity_def Let_def split: option.split)

lemma finish_activity_world [simp]: "cx_world (finish_activity f st) = cx_world st"
  by (simp add: finish_activity_def split: option.split)

lemma start_activity_world [simp]: "cx_world (start_activity a st) = cx_world st"
  by (simp add: start_activity_def finish_activity_success_def Let_def)

lemma restore_world [simp]: "cx_world (restore slot v st) = cx_world st"
  by (simp add: restore_def split: option.split)

lemma returns_note_attempts [returns_intros]: "returns N \<mu> d (note_attempts n)"
  unfolding note_attempts_def by (intro returns_intros) simp

lemma retry_loop_returns:
  assumes "bounded_env N \<mu> env" "en_clocks env \<noteq> []" "\<And>here. returns N \<mu> (length (en_clocks env)) (body env here)"
    "\<And>b here. fallback = Some b \<Longrightarrow> returns N \<mu> (length (en_clocks env)) (b env here)"
  shows "returns N \<mu> (length (en_clocks env)) (retry_loop env here body fallback sel delay lim attempt)"
  using assms
proof (induction env here body fallback sel delay lim attempt rule: retry_loop.induct)
  case (1 env here body fallback sel delay lim attempt)
  have "returns N \<mu> (length (en_clocks env)) (if delay > 0 then pause env here delay else x_return ())"
    using "1.prems" by (auto intro!: returns_intros)
  moreover have "returns N \<mu> (length (en_clocks env)) (retry_loop env here body fallback sel delay lim (attempt + 1))"
    if "sel e \<and> attempt < lim" for e
    by (rule "1.IH" [OF that]) (fact "1.prems")+
  ultimately show ?case
    by (subst retry_loop.simps) (use "1.prems" in \<open>intro returns_intros; auto\<close>)
qed

lemma retry_returns:
  assumes "block_returns N \<mu> False body" "\<And>b. fallback = Some b \<Longrightarrow> block_returns N \<mu> False b"
  shows "block_returns N \<mu> True (retry_verb body fallback codes classes n delay)"
  unfolding retry_verb_def using assms by (auto intro!: block_returnsI retry_loop_returns dest: block_returnsD)

lemma returns_step:
  assumes "returns N \<mu> d m" "\<mu> (cx_world (f st)) = \<mu> (cx_world st)" "\<mu> (cx_world st) < N" "m (f st) = (r, st')"
  shows "\<mu> (cx_world st') \<le> \<mu> (cx_world st) \<and> r \<noteq> Stuck \<and> r \<noteq> Panic \<and> (\<forall>k c. r = Preempt k c \<longrightarrow> k < d)"
  using returnsD [OF assms(1,4)] assms(2,3) by auto

text \<open>A computation that looks at the state first.\<close>

definition settles :: "nat \<Rightarrow> ('w \<Rightarrow> nat) \<Rightarrow> nat \<Rightarrow> 'w PtpCtx \<Rightarrow> 'a walk \<times> 'w PtpCtx \<Rightarrow> bool" where
  "settles N \<mu> d st out \<longleftrightarrow>
     (\<mu> (cx_world st) < N \<longrightarrow>
        \<mu> (cx_world (snd out)) \<le> \<mu> (cx_world st) \<and> fst out \<noteq> Stuck \<and> fst out \<noteq> Panic \<and>
        (\<forall>k c. fst out = Preempt k c \<longrightarrow> k < d))"

lemma returns_pointwise:
  assumes "\<And>st. settles N \<mu> d st (m st)"
  shows "returns N \<mu> d m"
proof (rule returnsI)
  fix st r st' assume "\<mu> (cx_world st) < N" "m st = (r, st')"
  with assms [of st]
  show "\<mu> (cx_world st') \<le> \<mu> (cx_world st) \<and> r \<noteq> Stuck \<and> r \<noteq> Panic \<and> (\<forall>k c. r = Preempt k c \<longrightarrow> k < d)"
    by (simp add: settles_def)
qed

lemma settles_of:
  assumes "returns N \<mu> d m"
  shows "settles N \<mu> d st (m st)"
proof -
  obtain r st' where run: "m st = (r, st')" by (cases "m st")
  show ?thesis using returnsD [OF assms run] by (auto simp: settles_def run)
qed

lemma settles_pair [simp]: "settles N \<mu> d st (Err e, st)" "settles N \<mu> d st (Val a, st)"
  by (simp_all add: settles_def)

lemma returns_after:
  assumes "\<And>st. returns N \<mu> d (f st)" "\<And>st. cx_world (g st) = cx_world st"
  shows "returns N \<mu> d (\<lambda>st. f st (g st))"
proof (rule returns_pointwise)
  fix st
  from settles_of [OF assms(1) [of st], of "g st"] assms(2) show "settles N \<mu> d st (f st (g st))"
    by (simp add: settles_def)
qed

lemma for_each_loop_returns:
  assumes "\<And>here. returns N \<mu> d (body env here)"
  shows "returns N \<mu> d (for_each_loop env here slot body index vs last_meta)"
proof (induction vs arbitrary: index last_meta)
  case Nil
  then show ?case by (simp add: returns_def)
next
  case (Cons v vs)
  show ?case unfolding for_each_loop.simps Let_def
    by (rule returns_after) (auto intro!: returns_intros assms Cons)
qed

lemma for_each_returns:
  assumes "block_returns N \<mu> False body"
  shows "block_returns N \<mu> True (for_each_verb collection slot body)"
proof (rule block_returnsI)
  fix env :: "'a PtpEnv" and here assume "bounded_env N \<mu> env" "True \<Longrightarrow> en_clocks env \<noteq> []"
  then have "returns N \<mu> (length (en_clocks env)) (body env path)" for path
    using assms by (auto intro: block_returnsD)
  then show "returns N \<mu> (length (en_clocks env)) (for_each_verb collection slot body env here)"
    by - (rule returns_pointwise, auto intro!: settles_of for_each_loop_returns simp: for_each_verb_def split: option.split)
qed

lemma chunk_loop_returns:
  assumes "\<And>here. returns N \<mu> d (body env here)"
  shows "returns N \<mu> d (chunk_loop env here whole window off len body budget offset last_meta)"
proof (induction budget arbitrary: offset last_meta)
  case 0
  then show ?case by (auto simp: returns_def chunk_loop.simps)
next
  case (Suc budget)
  define window_run where "window_run = (\<lambda>st. let l = min (whole - offset) window in
      x_bind (x_finally (body env (here @ lit ''.chunk['' @ decimal (MAX_CHUNK_ITERS - Suc budget) @ lit '']''))
         (\<lambda>s. restore len (map_of (cx_bindings (bind_slot off (AV_U64 offset) st)) len)
            (restore off (map_of (cx_bindings st) off) s)))
       (chunk_loop env here whole window off len body budget (offset + l))
       (bind_slot len (AV_U64 l) (bind_slot off (AV_U64 offset) st)))"
  have "returns N \<mu> d window_run"
    unfolding window_run_def Let_def by (rule returns_after) (auto intro!: returns_intros assms Suc)
  moreover have "chunk_loop env here whole window off len body (Suc budget) offset last_meta =
      (if offset < whole then window_run else x_return last_meta)"
    by (rule ext) (subst chunk_loop.simps, simp add: window_run_def Let_def x_return_def)
  ultimately show ?case by (simp add: returns_return)
qed

lemma chunk_returns:
  assumes "block_returns N \<mu> False body"
  shows "block_returns N \<mu> True (chunk_verb whole sz off len body)"
proof (rule block_returnsI)
  fix env :: "'a PtpEnv" and here assume "bounded_env N \<mu> env" "True \<Longrightarrow> en_clocks env \<noteq> []"
  then have "returns N \<mu> (length (en_clocks env)) (body env path)" for path
    using assms by (auto intro: block_returnsD)
  then have "returns N \<mu> (length (en_clocks env)) (chunk_loop env here total window off len body budget 0 None)"
    for total window budget by (rule chunk_loop_returns)
  then show "returns N \<mu> (length (en_clocks env)) (chunk_verb whole sz off len body env here)"
    by - (rule returns_pointwise, auto intro!: settles_of simp: chunk_verb_def split: option.splits)
qed

lemma if_returns:
  assumes "block_returns N \<mu> False body" "\<And>b. else_steps = Some b \<Longrightarrow> block_returns N \<mu> False b"
  shows "block_returns N \<mu> True (if_verb slot v body else_steps)"
proof (rule block_returnsI)
  fix env :: "'a PtpEnv" and here assume "bounded_env N \<mu> env" "True \<Longrightarrow> en_clocks env \<noteq> []"
  then have "returns N \<mu> (length (en_clocks env)) (body env path)"
    "else_steps = Some b \<Longrightarrow> returns N \<mu> (length (en_clocks env)) (b env path)" for path b
    using assms by (auto intro: block_returnsD)
  then show "returns N \<mu> (length (en_clocks env)) (if_verb slot v body else_steps env here)"
    by - (rule returns_pointwise, auto intro!: settles_of simp: if_verb_def split: option.split)
qed

section \<open>Steps\<close>

lemma report_world [simp]: "cx_world (report r st) = cx_world st"
  by (simp add: report_def)

lemma count_step_world [simp]: "cx_world (count_step st) = cx_world st"
  by (simp add: count_step_def)

lemma conclude_step_returns [returns_intros]: "returns N \<mu> d (conclude_step env here step corr result)"
  by (auto simp: returns_def conclude_step_def Let_def split: sum.splits option.splits if_splits)

lemma run_step_returns:
  assumes "block_returns N \<mu> (\<not> is_await step) once"
  shows "block_returns N \<mu> False (run_step step once)"
proof (rule block_returnsI)
  fix env :: "'a PtpEnv" and here assume env: "bounded_env N \<mu> env"
  define body where "body =
      (if is_await step then once env here
       else clocked here (D_StepDeadline DEFAULT_STEP_TIMEOUT_MS)
              (once (with_clock DEFAULT_STEP_TIMEOUT_MS env) here))"
  have "returns N \<mu> (length (en_clocks env)) body"
    unfolding body_def
  proof (rule returns_if)
    assume "is_await step"
    with assms env show "returns N \<mu> (length (en_clocks env)) (once env here)"
      by (simp add: block_returns_def)
  next
    assume "\<not> is_await step"
    with assms env have "returns N \<mu> (length (en_clocks (with_clock DEFAULT_STEP_TIMEOUT_MS env)))
        (once (with_clock DEFAULT_STEP_TIMEOUT_MS env) here)"
      by (intro block_returnsD [of N \<mu> True]) auto
    then show "returns N \<mu> (length (en_clocks env)) (clocked here (D_StepDeadline DEFAULT_STEP_TIMEOUT_MS)
        (once (with_clock DEFAULT_STEP_TIMEOUT_MS env) here))"
      by (simp add: returns_clocked)
  qed
  then have "returns N \<mu> (length (en_clocks env))
      (x_handle body (\<lambda>meta. conclude_step env here step corr (Inr meta))
         (\<lambda>e. conclude_step env here step corr (Inl e)))" for corr
    by (intro returns_handle conclude_step_returns)
  then have "settles N \<mu> (length (en_clocks env)) (start_step env here step st) (run_step step once env here st)" for st
    unfolding run_step_def Let_def body_def by (rule settles_of)
  then show "returns N \<mu> (length (en_clocks env)) (run_step step once env here)"
    by (intro returns_pointwise) (simp add: settles_def start_step_def)
qed

lemma walk_block_returns:
  assumes "\<And>step once. (step, once) \<in> set steps \<Longrightarrow> block_returns N \<mu> (\<not> is_await step) once"
  shows "block_returns N \<mu> False (walk_block top_level steps index last_meta)"
  using assms
proof (induction steps arbitrary: index last_meta)
  case Nil
  then show ?case by (auto intro!: block_returnsI returns_intros)
next
  case (Cons s steps)
  obtain step once where s: "s = (step, once)" by (cases s)
  show ?case
  proof (rule block_returnsI)
    fix env :: "'a PtpEnv" and path assume env: "bounded_env N \<mu> env"
    have "returns N \<mu> (length (en_clocks env)) (run_step step once env here)" for here
      using run_step_returns [of N \<mu> step once] Cons.prems s env by (auto simp: block_returns_def)
    moreover have "returns N \<mu> (length (en_clocks env)) (walk_block top_level steps i meta env path)" for i meta
      using Cons.IH [of i meta] Cons.prems env by (auto simp: block_returns_def [of _ _ False])
    ultimately show "returns N \<mu> (length (en_clocks env)) (walk_block top_level (s # steps) index last_meta env path)"
      unfolding s walk_block.simps
      by (intro returns_intros)
         (auto simp: open_activity_def close_activity_def finish_activity_success_def
           finish_activity_failure_def split: option.splits)
  qed
qed

lemma nested_returns:
  assumes "\<And>s. s \<in> set steps \<Longrightarrow> block_returns N \<mu> (\<not> is_await s) (run_step_once s)"
  shows "block_returns N \<mu> False (nested (map (\<lambda>s. (s, run_step_once s)) steps))"
  unfolding nested_def using assms by (intro walk_block_returns) auto

lemma block_returns_weaken: "block_returns N \<mu> False b \<Longrightarrow> block_returns N \<mu> outside b"
  by (auto simp: block_returns_def)

lemma run_step_once_returns: "block_returns N \<mu> (\<not> is_await step) (run_step_once step)"
proof (induction step rule: run_step_once.induct)
  case (9 source until on_each captures timeout_ms interval_ms t)
  show ?case unfolding run_step_once.simps is_await.simps
    by (rule block_returns_weaken, rule await_returns, rule nested_returns, rule 9)
next
  case (10 steps fallback codes classes max_attempts delay t)
  have body: "block_returns N \<mu> False (nested (map (\<lambda>s. (s, run_step_once s)) steps))"
    by (rule nested_returns) (rule 10(1))
  have "block_returns N \<mu> False (nested (map (\<lambda>s. (s, run_step_once s)) fallback))" if "fallback \<noteq> []"
    using that by (intro nested_returns) (rule 10(2))
  then show ?case unfolding run_step_once.simps is_await.simps not_False_eq_True
    by (intro retry_returns [OF body]) (auto split: if_splits)
next
  case (11 collection slot body t)
  show ?case unfolding run_step_once.simps is_await.simps not_False_eq_True
    by (rule for_each_returns, rule nested_returns, rule 11)
next
  case (12 whole sz off len body t)
  show ?case unfolding run_step_once.simps is_await.simps not_False_eq_True
    by (rule chunk_returns, rule nested_returns, rule 12)
next
  case (13 slot v then_steps t)
  show ?case unfolding run_step_once.simps is_await.simps not_False_eq_True
    by (rule if_returns, rule nested_returns, rule 13) simp_all
next
  case (14 slot v then_steps else_steps t)
  have then_block: "block_returns N \<mu> False (nested (map (\<lambda>s. (s, run_step_once s)) then_steps))"
    by (rule nested_returns) (rule 14(1))
  have "block_returns N \<mu> False (nested (map (\<lambda>s. (s, run_step_once s)) else_steps))"
    by (rule nested_returns) (rule 14(2))
  then show ?case unfolding run_step_once.simps is_await.simps not_False_eq_True
    by (intro if_returns [OF then_block]) simp
qed (simp_all add: set_prop_verb_returns set_prop_runtime_returns get_prop_returns read_echo_returns
     send_op_returns open_channel_returns reopen_session_returns close_session_returns)

lemma walk_steps_returns: "block_returns N \<mu> False (walk_steps steps top_level)"
  unfolding walk_steps_def using run_step_once_returns by (intro walk_block_returns) auto

section \<open>A run returns\<close>

text \<open>C6: a run returns. If the host answers finitely many calls before a clock fires, whatever the
  answers and whichever clock, then every program of steps, with its retries, loops and waits nested
  in any way, ends with an outcome or an error: no wait goes on for ever, no clock escapes the step
  it belongs to, and nothing panics as long as the manifest's record streams are decodable. Fuel
  beyond the host's supply is enough.\<close>
theorem run_returns:
  assumes "host_draws \<mu> backend" "sink_draws \<mu> sink" "decodable m" "\<mu> w < fuel"
  shows "\<exists>r st. run_steps fuel m name steps activities backend params sink w = (Finished r, st)"
proof -
  have finished: "\<exists>r st. run_finished (walk_steps steps True env path (run_ctx rt w)) = (Finished r, st)"
    if "bounded_env fuel \<mu> env" "en_clocks env = []" for env path rt
  proof -
    obtain r st where run: "walk_steps steps True env path (run_ctx rt w) = (r, st)"
      by (cases "walk_steps steps True env path (run_ctx rt w)")
    have "returns fuel \<mu> (length (en_clocks env)) (walk_steps steps True env path)"
      using walk_steps_returns [of fuel \<mu> steps True] that(1) by (simp add: block_returns_def)
    from returnsD [OF this run] assms(4) that(2) run show ?thesis
      by (cases r) (auto simp: run_ctx_def run_finished_def Let_def)
  qed
  have "bounded_env fuel \<mu> (run_env fuel m name c framing activities backend (scope_map params) sink)" for c framing
    using assms by (simp add: bounded_env_def run_env_def)
  from finished [OF this] show ?thesis
    by (auto simp: run_steps_def Let_def run_env_def split: option.split)
qed

text \<open>A host that answers a given number of calls, the polled property always with the same value,
  and then lets the clock of the innermost step fire.\<close>

definition patient :: "'a \<Rightarrow> ('a, nat) typed_call" where
  "patient a budgets w = (if w = 0 then (Fired 1 (Inr ()), 0) else (Settled (Inr a), w - 1))"

definition patient_host :: "nat PtpTransactionTransport" where
  "patient_host =
     \<lparr>txn_execute = (\<lambda>opc ps d ms. patient \<lparr>tr_response_code = OK, tr_params = [], tr_data_in = Some [0]\<rparr>),
      txn_next_event = (\<lambda>e. patient \<lparr>te_event_code = e, te_params = []\<rparr>),
      txn_sleep = (\<lambda>ms. patient ())\<rparr>"

definition card_wait :: EntryStep where
  "card_wait = AwaitUntilStep (FA_Poll 0xd212) (F_Leaf 0xd212 None (Some 1) None None None) [] [] 5000 100 False"

lemma patient_draws: "draws id (patient a)"
  by (auto simp: draws_def patient_def split: if_splits)

lemma nudge_decodable: "decodable nudge_manifest"
  by (auto simp: decodable_def property_payload_def property_def find_code_def nudge_manifest_def
      sample_manifest_def split: option.splits if_splits)

theorem run_returns_witness:
  "\<exists>r st. run_steps 8 nudge_manifest (lit ''app'') [card_wait] [] (Transaction patient_host) [] None 7 = (Finished r, st)"
  by (rule run_returns [of id]) (simp_all add: patient_host_def patient_draws nudge_decodable sink_draws_def)

end
