(* ===== verification/Ptp_Executor_Run.thy ===== *)
theory Ptp_Executor_Run
  imports Ptp_Executor_Return
begin

text \<open>
  What a run does: which replies the executor accepts as a data phase, that loops restore the slots
  they bind, that a chunked import delivers the object, and where step reports and retry counts
  disagree with their documentation.
\<close>

section \<open>The replies of a transaction\<close>

definition data_frame :: "u32 \<Rightarrow> bytes \<Rightarrow> PtpIpPacket" where
  "data_frame tid b = P_Data \<lparr>db_transaction_id = tid, db_payload = b\<rparr>"

definition end_frame :: "u32 \<Rightarrow> bytes \<Rightarrow> PtpIpPacket" where
  "end_frame tid b = P_EndData \<lparr>db_transaction_id = tid, db_payload = b\<rparr>"

text \<open>The transcripts of a reply: a bare response, or a data phase and a response. The standard
  framing announces the length and ends the phase; the single-frame framings carry it in one frame.\<close>

definition transcript ::
  "PtpFraming \<Rightarrow> u32 \<Rightarrow> OperationResponse \<Rightarrow> bytes \<Rightarrow> PtpIpPacket list \<Rightarrow> bool" where
  "transcript framing tid r payload ps \<longleftrightarrow>
     oresp_transaction_id r = tid \<and>
     (ps = [P_OperationResponse r] \<and> payload = [] \<or>
      framing = Standard \<and> length payload \<le> MAX_DATA_PHASE_BYTES \<and>
        (\<exists>blocks end_block.
           payload = concat blocks @ end_block \<and>
           ps = P_StartData \<lparr>sd_transaction_id = tid, sd_total_length = of_nat (length payload)\<rparr>
                # map (data_frame tid) blocks @ [end_frame tid end_block, P_OperationResponse r]) \<or>
      framing \<noteq> Standard \<and> length payload \<le> MAX_DATA_PHASE_BYTES \<and>
        (ps = [data_frame tid payload, P_OperationResponse r] \<or>
         ps = [end_frame tid payload, P_OperationResponse r]))"

fun replay ::
  "PtpFraming \<Rightarrow> u32 \<Rightarrow> PtpIpPacket list \<Rightarrow> Receiving \<Rightarrow> (Receiving \<times> OperationResponse) option" where
  "replay framing tid [] rx = None"
| "replay framing tid (p # ps) rx =
     (case accept_frame framing tid p rx of
        Inl _ \<Rightarrow> None
      | Inr (Inl rx') \<Rightarrow> replay framing tid ps rx'
      | Inr (Inr r) \<Rightarrow> if ps = [] then Some (rx, r) else None)"

text \<open>A host whose inbox is the host state.\<close>

definition inbox :: "(bytes, bytes list) host_call" where
  "inbox budgets frames =
     (case frames of [] \<Rightarrow> (Fired 0 (Inr ()), []) | f # fs \<Rightarrow> (Settled (Inr f), fs))"

lemma receive_inbox:
  assumes "next_command_frame t = inbox"
  shows "receive_frames env t here opc prop tid (Suc n) rx st =
    (case cx_world st of
       [] \<Rightarrow> (Err (deadline_error here (D_TransportDeadline DEFAULT_OP_TIMEOUT_MS)), st)
     | f # fs \<Rightarrow>
         (x_bind (lift_codec here (frame_decode (en_command_framing env) f)) (\<lambda>packet.
          x_bind (lift_detail here (accept_frame (en_command_framing env) tid packet rx)) (\<lambda>r.
            case r of Inl rx' \<Rightarrow> receive_frames env t here opc prop tid n rx'
            | Inr resp \<Rightarrow> frame_reply env here opc prop tid rx resp))) (st\<lparr>cx_world := fs\<rparr>))"
  using assms
  by (subst receive_frames.simps)
     (simp add: x_bind_def x_handle_def transport_deadline_def inbox_def clock_result_def x_fail_def
        split: list.split)

lemma frame_reply_collected:
  assumes "en_output_sink env = None"
  shows "frame_reply env here opc prop tid rx r st = (Val reply, st') \<longleftrightarrow>
    reply = \<lparr>wr_meta = \<lparr>tx_operation = opc, tx_property = prop, tx_response_code = oresp_code r,
               tx_transaction_id = tid\<rparr>, wr_payload = rx_payload rx\<rparr> \<and>
    st' = (if rx_had_data rx \<or> oresp_params r \<noteq> [] then
        st\<lparr>cx_outputs := cx_outputs st @ [\<lparr>do_step_path = here, do_operation = opc, do_transaction_id = tid,
           do_payload = rx_payload rx, do_response_params = oresp_params r\<rparr>]\<rparr> else st)"
  using assms by (auto simp: frame_reply_def Let_def x_bind_Val emit_output_def)

lemma receive_decoded:
  assumes "next_command_frame t = inbox" "cx_world st = f # fs"
  shows "frame_decode (en_command_framing env) f = Inl e \<Longrightarrow>
      receive_frames env t here opc prop tid (Suc n) rx st = (Err (other here (D_Codec e)), st\<lparr>cx_world := fs\<rparr>)"
    "frame_decode (en_command_framing env) f = Inr p \<Longrightarrow>
      receive_frames env t here opc prop tid (Suc n) rx st =
      (case accept_frame (en_command_framing env) tid p rx of
         Inl d \<Rightarrow> (Err (other here d), st\<lparr>cx_world := fs\<rparr>)
       | Inr (Inl rx') \<Rightarrow> receive_frames env t here opc prop tid n rx' (st\<lparr>cx_world := fs\<rparr>)
       | Inr (Inr r) \<Rightarrow> frame_reply env here opc prop tid rx r (st\<lparr>cx_world := fs\<rparr>))"
  using assms
  by (simp_all add: receive_inbox lift_codec_def detail_of_def x_bind_def x_handle_def lift_detail_def x_fail_def
      split: sum.split)

text \<open>The same over frames: each is decoded when its turn comes.\<close>

fun replay_frames ::
  "PtpFraming \<Rightarrow> u32 \<Rightarrow> bytes list \<Rightarrow> Receiving \<Rightarrow> (Receiving \<times> OperationResponse) option" where
  "replay_frames framing tid [] rx = None"
| "replay_frames framing tid (f # fs) rx =
     (case frame_decode framing f of
        Inl _ \<Rightarrow> None
      | Inr p \<Rightarrow>
          (case accept_frame framing tid p rx of
             Inl _ \<Rightarrow> None
           | Inr (Inl rx') \<Rightarrow> replay_frames framing tid fs rx'
           | Inr (Inr r) \<Rightarrow> if fs = [] then Some (rx, r) else None))"

lemma replay_frames_decoded:
  "replay_frames framing tid fs rx = Some out \<longleftrightarrow>
   (\<exists>ps. map (frame_decode framing) fs = map Inr ps \<and> replay framing tid ps rx = Some out)"
proof (induction fs arbitrary: rx)
  case (Cons f fs)
  show ?case
  proof (cases "frame_decode framing f")
    case (Inr p)
    have "(\<exists>ps. map (frame_decode framing) (f # fs) = map Inr ps \<and> replay framing tid ps rx = Some out) \<longleftrightarrow>
        (\<exists>ps. map (frame_decode framing) fs = map Inr ps \<and> replay framing tid (p # ps) rx = Some out)"
      using Inr by (auto simp: Cons_eq_map_conv)
    then show ?thesis
      using Inr Cons.IH by (auto split: sum.splits) 
  qed (auto simp: Cons_eq_map_conv)
qed simp

definition reply_of :: "u16 \<Rightarrow> u16 option \<Rightarrow> u32 \<Rightarrow> u16 \<Rightarrow> bytes \<Rightarrow> WireReply" where
  "reply_of opc prop tid code payload =
     \<lparr>wr_meta = \<lparr>tx_operation = opc, tx_property = prop, tx_response_code = code, tx_transaction_id = tid\<rparr>,
      wr_payload = payload\<rparr>"

lemma receive_replay:
  assumes host: "next_command_frame t = inbox" and sink: "en_output_sink env = None"
  shows "length (cx_world st) \<le> n \<Longrightarrow>
    (\<exists>st'. receive_frames env t here opc prop tid n rx st = (Val reply, st') \<and> cx_world st' = []) \<longleftrightarrow>
    (\<exists>rx' r. replay_frames (en_command_framing env) tid (cx_world st) rx = Some (rx', r) \<and>
       reply = reply_of opc prop tid (oresp_code r) (rx_payload rx'))"
proof (induction n arbitrary: rx st)
  case 0
  then show ?case by (simp add: receive_frames.simps)
next
  case (Suc n)
  show ?case
  proof (cases "cx_world st")
    case Nil
    then show ?thesis by (simp add: receive_inbox [OF host])
  next
    case (Cons f fs)
    then have len: "length (cx_world (st\<lparr>cx_world := fs\<rparr>)) \<le> n" using Suc.prems by simp
    show ?thesis
    proof (cases "frame_decode (en_command_framing env) f")
      case (Inl e)
      with Cons show ?thesis by (simp add: receive_decoded [OF host Cons])
    next
      case (Inr p)
      with Cons Suc.IH [OF len] show ?thesis
        by (auto simp: receive_decoded [OF host Cons] frame_reply_collected [OF sink] reply_of_def
            split: sum.splits)
    qed
  qed
qed

lemmas frame_rules = accept_frame_def accept_block_def check_data_frame_def

lemma replay_ended:
  assumes "rx_standard_total rx = Some declared" "rx_standard_ended rx"
  shows "replay Standard tid ps rx = Some (rx', r) \<longleftrightarrow>
    ps = [P_OperationResponse r] \<and> oresp_transaction_id r = tid \<and>
    length (rx_payload rx) = unat declared \<and> rx' = rx"
proof (cases ps)
  case (Cons p ps')
  then show ?thesis using assms by (cases p) (auto simp: frame_rules split: if_splits)
qed simp

lemma frame_inject [simp]:
  "data_frame tid a = data_frame tid b \<longleftrightarrow> a = b" "end_frame tid a = end_frame tid b \<longleftrightarrow> a = b"
  "data_frame tid a \<noteq> end_frame tid b" "end_frame tid b \<noteq> data_frame tid a"
  by (simp_all add: data_frame_def end_frame_def)

lemma frame_eq:
  "P_Data d = data_frame tid b \<longleftrightarrow> db_transaction_id d = tid \<and> db_payload d = b"
  "P_EndData d = end_frame tid b \<longleftrightarrow> db_transaction_id d = tid \<and> db_payload d = b"
  "P_Data d \<noteq> end_frame tid b" "P_EndData d \<noteq> data_frame tid b"
  by (cases d; auto simp: data_frame_def end_frame_def)+

lemma blocks_first:
  "(\<exists>blocks last. payload = pre @ concat blocks @ last \<and>
      data_frame tid b # ps = map (data_frame tid) blocks @ [end_frame tid last, q]) \<longleftrightarrow>
   (\<exists>blocks last. payload = (pre @ b) @ concat blocks @ last \<and>
      ps = map (data_frame tid) blocks @ [end_frame tid last, q])" (is "?l \<longleftrightarrow> ?r")
proof
  assume ?l
  then obtain blocks last where l: "payload = pre @ concat blocks @ last"
    "data_frame tid b # ps = map (data_frame tid) blocks @ [end_frame tid last, q]" by blast
  then show ?r by (cases blocks) (auto intro: exI [of _ last])
next
  assume ?r
  then obtain blocks last where "payload = pre @ concat (b # blocks) @ last"
    "data_frame tid b # ps = map (data_frame tid) (b # blocks) @ [end_frame tid last, q]" by auto
  then show ?l by blast
qed

lemma replay_block:
  assumes "rx_standard_total rx = Some declared" "\<not> rx_standard_ended rx" "unat declared \<le> MAX_DATA_PHASE_BYTES"
  shows "replay Standard tid (data_frame tid b # ps) rx =
      (if length (rx_payload rx) + length b \<le> unat declared
       then replay Standard tid ps (rx\<lparr>rx_had_data := True, rx_standard_ended := False, rx_payload := rx_payload rx @ b\<rparr>)
       else None)"
    "replay Standard tid (end_frame tid b # ps) rx =
      (if length (rx_payload rx) + length b \<le> unat declared
       then replay Standard tid ps (rx\<lparr>rx_had_data := True, rx_standard_ended := True, rx_payload := rx_payload rx @ b\<rparr>)
       else None)"
  using assms
  by (auto simp: frame_rules data_frame_def end_frame_def sat_add_def MAX_DATA_PHASE_BYTES_def)

lemma replay_stray:
  assumes "rx_standard_total rx = Some declared" "\<not> rx_standard_ended rx"
    "\<And>b. p \<noteq> data_frame tid b" "\<And>b. p \<noteq> end_frame tid b"
  shows "replay Standard tid (p # ps) rx = None"
proof (cases p)
  case (P_Data d)
  then show ?thesis using assms(3) [of "db_payload d"] by (cases d) (auto simp: frame_rules data_frame_def)
next
  case (P_EndData d)
  then show ?thesis using assms(4) [of "db_payload d"] by (cases d) (auto simp: frame_rules end_frame_def)
qed (use assms in \<open>auto simp: frame_rules split: if_splits\<close>)

lemma replay_open:
  assumes "rx_standard_total rx = Some declared" "\<not> rx_standard_ended rx" "unat declared \<le> MAX_DATA_PHASE_BYTES"
    "length (rx_payload rx) \<le> unat declared"
  shows "(\<exists>rx'. replay Standard tid ps rx = Some (rx', r) \<and> rx_payload rx' = payload) \<longleftrightarrow>
    oresp_transaction_id r = tid \<and> length payload = unat declared \<and>
    (\<exists>blocks last. payload = rx_payload rx @ concat blocks @ last \<and>
       ps = map (data_frame tid) blocks @ [end_frame tid last, P_OperationResponse r])"
  using assms
proof (induction ps arbitrary: rx)
  case Nil
  then show ?case by simp
next
  case (Cons p ps)
  consider (data) b where "p = data_frame tid b" | (last) b where "p = end_frame tid b"
    | (stray) "\<And>b. p \<noteq> data_frame tid b" "\<And>b. p \<noteq> end_frame tid b" by blast
  then show ?case
  proof cases
    case data
    show ?thesis
    proof (cases "length (rx_payload rx) + length b \<le> unat declared")
      case True
      then show ?thesis
        unfolding data blocks_first replay_block [OF Cons.prems(1,2,3)]
        using Cons.IH [of "rx\<lparr>rx_had_data := True, rx_standard_ended := False, rx_payload := rx_payload rx @ b\<rparr>"]
          Cons.prems by simp
    next
      case False
      then show ?thesis
        unfolding data blocks_first replay_block [OF Cons.prems(1,2,3)] by auto
    qed
  next
    case last
    have "(\<exists>blocks l. payload = rx_payload rx @ concat blocks @ l \<and>
        p # ps = map (data_frame tid) blocks @ [end_frame tid l, P_OperationResponse r]) \<longleftrightarrow>
        payload = rx_payload rx @ b \<and> ps = [P_OperationResponse r]"
      unfolding last by (auto simp: Cons_eq_append_conv Cons_eq_map_conv)
    then show ?thesis
      using Cons.prems unfolding last replay_block [OF Cons.prems(1,2,3)]
      by (auto simp: replay_ended)
  next
    case stray
    have "p # ps \<noteq> map (data_frame tid) blocks @ [end_frame tid l, q]" for blocks l q
      using stray by (cases blocks) auto
    then show ?thesis using replay_stray [OF Cons.prems(1,2) stray] by auto
  qed
qed

lemma replay_started:
  assumes "sd_transaction_id start = tid" "unat (sd_total_length start) \<le> MAX_DATA_PHASE_BYTES"
  shows "replay Standard tid (P_StartData start # ps) receiving =
    replay Standard tid ps (receiving\<lparr>rx_had_data := True, rx_standard_total := Some (sd_total_length start)\<rparr>)"
  using assms by (simp add: frame_rules receiving_def)

lemma replay_single:
  assumes "framing \<noteq> Standard" "rx_had_data rx" "rx_standard_total rx = None"
  shows "replay framing tid ps rx = Some (rx', r) \<longleftrightarrow>
    ps = [P_OperationResponse r] \<and> oresp_transaction_id r = tid \<and> rx' = rx"
proof (cases ps)
  case (Cons p ps')
  then show ?thesis using assms by (cases p) (auto simp: frame_rules split: PtpFraming.splits if_splits)
qed simp

lemma declared_length:
  assumes "length payload \<le> MAX_DATA_PHASE_BYTES"
  shows "of_nat (length payload) = w \<longleftrightarrow> length payload = unat (w :: u64)"
proof
  assume "of_nat (length payload) = w"
  then show "length payload = unat w"
    using assms by (auto simp: unsigned_of_nat take_bit_nat_eq_self MAX_DATA_PHASE_BYTES_def)
qed simp

lemma transcript_started:
  "transcript Standard tid r payload (P_StartData start # ps) \<longleftrightarrow>
   sd_transaction_id start = tid \<and> unat (sd_total_length start) \<le> MAX_DATA_PHASE_BYTES \<and>
   oresp_transaction_id r = tid \<and> length payload = unat (sd_total_length start) \<and>
   (\<exists>blocks last. payload = concat blocks @ last \<and>
      ps = map (data_frame tid) blocks @ [end_frame tid last, P_OperationResponse r])"
proof -
  define phase where "phase \<longleftrightarrow> (\<exists>blocks last. payload = concat blocks @ last \<and>
      ps = map (data_frame tid) blocks @ [end_frame tid last, P_OperationResponse r])"
  have "transcript Standard tid r payload (P_StartData start # ps) \<longleftrightarrow>
      oresp_transaction_id r = tid \<and> length payload \<le> MAX_DATA_PHASE_BYTES \<and>
      start = \<lparr>sd_transaction_id = tid, sd_total_length = of_nat (length payload)\<rparr> \<and> phase"
    by (auto simp: transcript_def phase_def)
  also have "\<dots> \<longleftrightarrow> sd_transaction_id start = tid \<and> unat (sd_total_length start) \<le> MAX_DATA_PHASE_BYTES \<and>
      oresp_transaction_id r = tid \<and> length payload = unat (sd_total_length start) \<and> phase"
    using declared_length [of payload "sd_total_length start"] by (cases start) auto
  finally show ?thesis by (simp only: phase_def)
qed

lemma replay_standard:
  "(\<exists>rx'. replay Standard tid (P_StartData start # ps) receiving = Some (rx', r) \<and> rx_payload rx' = payload) \<longleftrightarrow>
   transcript Standard tid r payload (P_StartData start # ps)"
proof (cases "sd_transaction_id start = tid \<and> unat (sd_total_length start) \<le> MAX_DATA_PHASE_BYTES")
  case True
  then have started: "replay Standard tid (P_StartData start # ps) receiving =
      replay Standard tid ps (receiving\<lparr>rx_had_data := True, rx_standard_total := Some (sd_total_length start)\<rparr>)"
    by (intro replay_started) auto
  show ?thesis
    unfolding transcript_started started
    using True replay_open [of "receiving\<lparr>rx_had_data := True, rx_standard_total := Some (sd_total_length start)\<rparr>"
        "sd_total_length start" tid ps r payload]
    by (simp add: receiving_def)
next
  case False
  then show ?thesis unfolding transcript_started by (auto simp: frame_rules receiving_def)
qed

lemma replay_transcript:
  "(\<exists>rx'. replay framing tid ps receiving = Some (rx', r) \<and> rx_payload rx' = payload) \<longleftrightarrow>
   transcript framing tid r payload ps"
proof (cases "\<exists>start ps'. framing = Standard \<and> ps = P_StartData start # ps'")
  case True
  then show ?thesis using replay_standard by blast
next
  case False
  then show ?thesis
  proof (cases ps)
    case (Cons p ps')
    show ?thesis
    proof (cases p)
      case (P_Data d)
      then show ?thesis using Cons False
        by (cases "framing = Standard")
           (auto simp: frame_rules receiving_def transcript_def replay_single frame_eq split: PtpFraming.splits if_splits)
    next
      case (P_EndData d)
      then show ?thesis using Cons False
        by (cases "framing = Standard")
           (auto simp: frame_rules receiving_def transcript_def replay_single frame_eq split: PtpFraming.splits if_splits)
    qed (use Cons False in \<open>auto simp: frame_rules receiving_def transcript_def data_frame_def end_frame_def
           split: PtpFraming.splits if_splits\<close>)
  qed (simp add: transcript_def)
qed

text \<open>C8: the executor accepts exactly the well-formed replies. Reading the frames of an inbox to
  its end yields a reply with a given payload if and only if every frame decodes and the packets are
  a bare response, or a data phase of the framing and the response, all of this transaction; the
  payload is then the concatenation of the blocks, has the announced length and at most 512 MiB.\<close>
theorem data_phase_exact:
  assumes "next_command_frame t = inbox" "en_output_sink env = None" "length (cx_world st) \<le> MAX_COMMAND_FRAMES"
  shows "(\<exists>st'. receive_frames env t here opc about tid MAX_COMMAND_FRAMES receiving st
             = (Val (reply_of opc about tid code payload), st') \<and> cx_world st' = []) \<longleftrightarrow>
    (\<exists>ps r. map (frame_decode (en_command_framing env)) (cx_world st) = map Inr ps \<and>
       oresp_code r = code \<and> transcript (en_command_framing env) tid r payload ps)"
  unfolding receive_replay [OF assms] replay_frames_decoded replay_transcript [symmetric]
  by (auto simp: reply_of_def)

definition inbox_transport :: "bytes list PtpExecutorTransport" where
  "inbox_transport =
     \<lparr>reserve_transaction_id = (\<lambda>b w. (Settled (Inr 7), w)), send_command_frame = (\<lambda>f b w. (Settled (Inr ()), w)),
      next_command_frame = inbox, next_event_frame = (\<lambda>e b w. (Settled (Inl NotConnected), w)),
      open_channel = (\<lambda>r b w. (Settled (Inr ()), w)), close_command_channel = (\<lambda>f b w. (Settled (Inr ()), w)),
      reopen_command_session = (\<lambda>b w. (Settled (Inl NotConnected), w)), sleep_frame = (\<lambda>ms b w. (Settled (Inr ()), w))\<rparr>"

definition usb_env :: "'w TxnBackend \<Rightarrow> 'w PtpEnv" where
  "usb_env backend =
     \<lparr>en_manifest = nudge_manifest, en_connection = lit ''app'', en_command_framing = Usb, en_event_framing = Usb,
      en_event_delivery = ED_Reliable, en_session_ownership = None, en_backend = backend, en_activities = [],
      en_runtime_params = [], en_output_sink = None, en_clocks = [60000], en_fuel = 4\<rparr>"

definition usb_reply :: "bytes list" where
  "usb_reply = [usb_encode_data 0x1015 7 [5], [12, 0, 0, 0, 3, 0, 0x01, 0x20, 7, 0, 0, 0]]"

theorem data_phase_exact_witness:
  "\<exists>st'. receive_frames (usb_env (Frame inbox_transport)) inbox_transport [] 0x1015 None 7 MAX_COMMAND_FRAMES receiving
       (run_ctx [] usb_reply) = (Val (reply_of 0x1015 None 7 OK [5]), st') \<and> cx_world st' = []"
proof -
  let ?r = "\<lparr>oresp_code = OK, oresp_transaction_id = 7, oresp_params = []\<rparr> :: OperationResponse"
  have "map (frame_decode Usb) usb_reply = map Inr [data_frame 7 [5], P_OperationResponse ?r]" by code_simp
  moreover have "transcript Usb 7 ?r [5] [data_frame 7 [5], P_OperationResponse ?r]"
    by (simp add: transcript_def MAX_DATA_PHASE_BYTES_def)
  ultimately show ?thesis
    using data_phase_exact [of inbox_transport "usb_env (Frame inbox_transport)" "run_ctx [] usb_reply",
        where here = "[]" and opc = "0x1015" and about = None and tid = 7 and code = OK and payload = "[5]"]
    by (fastforce simp: usb_env_def inbox_transport_def run_ctx_def usb_reply_def MAX_COMMAND_FRAMES_def)
qed

section \<open>Loops\<close>

fun returned :: "'a walk \<Rightarrow> bool" where
  "returned (Val a) = True"
| "returned (Err e) = True"
| "returned _ = False"

fun loop_slots :: "EntryStep \<Rightarrow> ustring list" where
  "loop_slots (ForEachLoop collection slot body t) = [slot]"
| "loop_slots (ChunkLoop whole chunk_size offset_bind length_bind body t) = [offset_bind, length_bind]"
| "loop_slots _ = []"

lemma map_of_without: "map_of (filter (\<lambda>(k, _). k \<noteq> slot) kvs) = (map_of kvs)(slot := None)"
  by (induction kvs) (auto simp: fun_upd_twist)

lemma restore_map [simp]:
  "map_of (cx_bindings (restore slot previous st)) = (map_of (cx_bindings st))(slot := previous)"
  by (cases previous) (auto simp: restore_def bind_slot_def map_of_without)

lemma bind_slot_map [simp]:
  "map_of (cx_bindings (bind_slot slot v st)) = (map_of (cx_bindings st))(slot \<mapsto> v)"
  by (simp add: bind_slot_def)

text \<open>What follows the body of one round: the loop goes on, or the round's error is the loop's.\<close>

lemma finally_bind:
  assumes "x_bind (x_finally m f) g st = (r, st')" "returned r"
  obtains a st1 where "m st = (Val a, st1)" "g a (f st1) = (r, st')" | e st1 where "m st = (Err e, st1)" "r = Err e" "st' = f st1"
  using assms
  by (cases "m st"; cases "fst (m st)")
     (auto simp: x_bind_def x_finally_def x_handle_def x_modify_def x_return_def x_fail_def)

lemma for_each_restores:
  assumes "for_each_loop env here slot body index vs last_meta st = (r, st')" "returned r"
  shows "map_of (cx_bindings st') slot = map_of (cx_bindings st) slot"
  using assms
proof (induction vs arbitrary: index last_meta st)
  case (Cons v vs)
  from Cons.prems(1) show ?case
    unfolding for_each_loop.simps Let_def
    by (rule finally_bind [OF _ Cons.prems(2)]) (auto dest: Cons.IH [OF _ Cons.prems(2)])
qed simp

lemma chunk_restores:
  assumes "chunk_loop env here whole window off len body budget offset last_meta st = (r, st')" "returned r" "off \<noteq> len"
  shows "map_of (cx_bindings st') off = map_of (cx_bindings st) off \<and>
    map_of (cx_bindings st') len = map_of (cx_bindings st) len"
  using assms
proof (induction budget arbitrary: offset last_meta st)
  case 0
  then show ?case by (subst (asm) chunk_loop.simps) (auto split: if_splits)
next
  case (Suc budget)
  show ?case
  proof (cases "offset < whole")
    case True
    with Suc.prems(1,3) show ?thesis
      by (subst (asm) chunk_loop.simps)
         (auto simp: Let_def elim!: finally_bind [OF _ Suc.prems(2)]
            dest!: Suc.IH [OF _ Suc.prems(2,3)] simp: Suc.prems(3))
  qed (use Suc.prems in \<open>simp add: chunk_loop.simps\<close>)
qed



section \<open>Chunked imports\<close>

definition partial_read :: "u16 \<Rightarrow> u32 \<Rightarrow> ustring \<Rightarrow> ustring \<Rightarrow> EntryStep" where
  "partial_read opc handle off len =
     SendOp opc [EP_Literal handle, EP_Runtime off 0 None, EP_Runtime len 0 None] [] 1 False"

text \<open>A responder that answers the partial read of an object with the part it holds.\<close>

definition serves :: "'w PtpTransactionTransport \<Rightarrow> u16 \<Rightarrow> u32 \<Rightarrow> bytes \<Rightarrow> bool" where
  "serves t opc handle object \<longleftrightarrow>
     (\<forall>off len budgets w. fst (txn_execute t opc [handle, off, len] None DEFAULT_OP_TIMEOUT_MS budgets w) =
        Settled (Inr \<lparr>tr_response_code = OK, tr_params = [],
                      tr_data_in = Some (take (unat len) (drop (unat off) object))\<rparr>))"

abbreviation imported :: "'w PtpCtx \<Rightarrow> bytes" where
  "imported st \<equiv> concat (map do_payload (cx_outputs st))"

lemma with_clock_reads [simp]:
  "en_backend (with_clock ms env) = en_backend env" "en_output_sink (with_clock ms env) = en_output_sink env"
  "en_runtime_params (with_clock ms env) = en_runtime_params env"
  by (simp_all add: with_clock_def)

lemma issue_window:
  assumes "en_backend env = Transaction t" "en_output_sink env = None" "serves t opc handle object"
  shows "\<exists>reply st'. issue env here opc [handle, off, len] None None st = (Val reply, st') \<and>
    tx_response_code (wr_meta reply) = OK \<and> cx_bindings st' = cx_bindings st \<and>
    imported st' = imported st @ take (unat len) (drop (unat off) object)"
proof -
  obtain w' where "txn_execute t opc [handle, off, len] None DEFAULT_OP_TIMEOUT_MS
      (DEFAULT_OP_TIMEOUT_MS # en_clocks env) (cx_world st) =
      (Settled (Inr \<lparr>tr_response_code = OK, tr_params = [],
         tr_data_in = Some (take (unat len) (drop (unat off) object))\<rparr>), w')"
    using assms(3) unfolding serves_def by (metis surj_pair fst_conv)
  then show ?thesis
    using assms(1,2)
    by (auto simp: issue_def issue_typed_def transport_deadline_def typed_host_def x_bind_def x_handle_def
        x_return_def emit_output_def Let_def with_clock_def)
qed

lemma resolve_window:
  assumes "map_of (cx_bindings st) off = Some (AV_U64 a)" "map_of (cx_bindings st) len = Some (AV_U64 b)"
    "unat a < 2 ^ 32" "unat b < 2 ^ 32"
  shows "resolve_params env here [EP_Literal handle, EP_Runtime off 0 None, EP_Runtime len 0 None] st =
    (Val [handle, ucast a, ucast b], st)"
  using assms by (simp add: resolve_params_def resolve_param_def lift_detail_def)

lemma unat_narrow: "unat (a :: u64) < 2 ^ 32 \<Longrightarrow> unat (ucast a :: u32) = unat a"
  by (simp add: unsigned_ucast_eq take_bit_nat_eq_self)

lemma read_window:
  assumes "en_backend env = Transaction t" "en_output_sink env = None" "serves t opc handle object"
    "map_of (cx_bindings st) off = Some (AV_U64 a)" "map_of (cx_bindings st) len = Some (AV_U64 b)"
    "unat a < 2 ^ 32" "unat b < 2 ^ 32"
  shows "\<exists>meta st'. run_step_once (partial_read opc handle off len) env here st = (Val meta, st') \<and>
    imported st' = imported st @ take (unat b) (drop (unat a) object)"
proof -
  obtain reply st' where "issue env here opc [handle, ucast a, ucast b] None None st = (Val reply, st')"
      "tx_response_code (wr_meta reply) = OK" "imported st' = imported st @ take (unat b) (drop (unat a) object)"
    using issue_window [OF assms(1-3), of here "ucast a" "ucast b" st] assms(6,7) by (auto simp: unat_narrow)
  then show ?thesis
    by (simp add: partial_read_def send_op_verb_def resolve_window [OF assms(4-7)]
        send_op_loop.simps x_bind_def x_handle_def x_return_def x_modify_def apply_captures_def bind_numbers_def)
qed

lemma nested_window:
  assumes "en_backend env = Transaction t" "en_output_sink env = None" "serves t opc handle object"
    "map_of (cx_bindings st) off = Some (AV_U64 a)" "map_of (cx_bindings st) len = Some (AV_U64 b)"
    "unat a < 2 ^ 32" "unat b < 2 ^ 32"
  shows "\<exists>meta st'. nested [(partial_read opc handle off len, run_step_once (partial_read opc handle off len))] env path st =
      (Val meta, st') \<and> imported st' = imported st @ take (unat b) (drop (unat a) object)"
proof -
  let ?here = "step_path path 0 (partial_read opc handle off len)"
  have "\<exists>meta st'. run_step_once (partial_read opc handle off len) (with_clock DEFAULT_STEP_TIMEOUT_MS env) ?here
      (start_step env ?here (partial_read opc handle off len) st) = (Val meta, st') \<and>
      imported st' = imported (start_step env ?here (partial_read opc handle off len) st) @
        take (unat b) (drop (unat a) object)"
    using assms by (intro read_window) (simp_all add: start_step_def report_def)
  then obtain meta st' where "run_step_once (partial_read opc handle off len)
      (with_clock DEFAULT_STEP_TIMEOUT_MS env) ?here (start_step env ?here (partial_read opc handle off len) st) =
      (Val meta, st')" "imported st' = imported st @ take (unat b) (drop (unat a) object)"
    by (auto simp: start_step_def report_def)
  then show ?thesis
    by (auto simp: nested_def open_activity_def close_activity_def run_step_def x_bind_def x_handle_def x_modify_def
        x_return_def clocked_def conclude_step_def report_def count_step_def Let_def partial_read_def
        split: option.splits)
qed

lemma chunk_import:
  assumes "en_backend env = Transaction t" "en_output_sink env = None" "serves t opc handle object"
    "length object < 2 ^ 32" "window \<noteq> 0" "off \<noteq> len"
    "unat offset \<le> length object" "length object - unat offset \<le> budget * unat window"
  shows "\<exists>meta st'. chunk_loop env here (of_nat (length object)) window off len
      (nested [(partial_read opc handle off len, run_step_once (partial_read opc handle off len))])
      budget offset last_meta st = (Val meta, st') \<and> imported st' = imported st @ drop (unat offset) object"
  using assms(7,8)
proof (induction budget arbitrary: offset last_meta st)
  case 0
  then show ?case using assms(4)
    by (auto simp: chunk_loop.simps word_less_nat_alt unsigned_of_nat take_bit_nat_eq_self)
next
  case (Suc budget)
  let ?body = "nested [(partial_read opc handle off len, run_step_once (partial_read opc handle off len))]"
  let ?whole = "of_nat (length object) :: u64"
  have whole: "unat ?whole = length object" using assms(4) by (simp add: unsigned_of_nat take_bit_nat_eq_self)
  show ?case
  proof (cases "offset < ?whole")
    case False
    with Suc.prems(1) show ?thesis by (auto simp: chunk_loop.simps word_less_nat_alt whole)
  next
    case True
    define n where "n = min (?whole - offset) window"
    define st0 where "st0 = bind_slot len (AV_U64 n) (bind_slot off (AV_U64 offset) st)"
    have n: "unat n = min (length object - unat offset) (unat window)"
      using True by (simp add: n_def min_def word_le_nat_alt unat_sub whole word_less_nat_alt)
    have next_offset: "unat (offset + n) = unat offset + unat n"
      using n Suc.prems(1) assms(4) by (intro unat_add_lem [THEN iffD1]) auto
    obtain meta st1 where round: "?body env (here @ lit ''.chunk['' @ decimal (MAX_CHUNK_ITERS - Suc budget) @ lit '']'') st0
        = (Val meta, st1)" and got: "imported st1 = imported st @ take (unat n) (drop (unat offset) object)"
      using nested_window [OF assms(1-3), of st0 off offset len n] n assms(4,6) Suc.prems(1)
      by (force simp: st0_def bind_slot_def)
    define st2 where "st2 = restore len (map_of (cx_bindings (bind_slot off (AV_U64 offset) st)) len)
        (restore off (map_of (cx_bindings st) off) st1)"
    have "imported st2 = imported st1" by (simp add: st2_def restore_def bind_slot_def split: option.split)
    moreover have "\<exists>meta' st'. chunk_loop env here ?whole window off len ?body budget (offset + n) meta st2 = (Val meta', st') \<and>
        imported st' = imported st2 @ drop (unat (offset + n)) object"
      using Suc.prems n by (intro Suc.IH) (auto simp: next_offset min_def split: if_splits)
    moreover have "chunk_loop env here ?whole window off len ?body (Suc budget) offset last_meta st =
        chunk_loop env here ?whole window off len ?body budget (offset + n) meta st2"
      using True round
      by (subst chunk_loop.simps)
         (simp add: Let_def x_bind_def x_finally_def x_handle_def x_modify_def x_return_def st2_def st0_def n_def)
    moreover have "take (unat n) (drop (unat offset) object) @ drop (unat (offset + n)) object = drop (unat offset) object"
      unfolding next_offset by (metis append_take_drop_id drop_drop add.commute)
    ultimately show ?thesis using got by (metis append.assoc)
  qed
qed

text \<open>C7: a chunked import delivers the object. Against a responder that answers each partial read
  with the bytes it covers, the chunk loop over an object of fewer than 4 GiB succeeds, and the data
  outputs it adds, put together in order, are the object, as long as the object fits the 4096
  windows the loop allows.\<close>
theorem chunked_import_exact:
  assumes "en_backend env = Transaction t" "en_output_sink env = None" "serves t opc handle object"
    "length object < 2 ^ 32" "off \<noteq> len" "bound_u64 st whole = Some (of_nat (length object))"
    "window \<noteq> 0" "length object \<le> MAX_CHUNK_ITERS * unat window"
  shows "\<exists>meta st'. run_step_once (ChunkLoop whole (FC_Literal window) off len [partial_read opc handle off len] tol)
      env here st = (Val meta, st') \<and> imported st' = imported st @ object"
proof -
  have "unat window < 2 ^ 32" using unsigned_less [of window] by simp
  then have width: "unat (ucast window :: u64) = unat window" by (simp add: unsigned_ucast_eq take_bit_nat_eq_self)
  moreover have "(ucast window :: u64) \<noteq> 0"
    using assms(7) width by (metis unsigned_0 unsigned_eq_0_iff)
  ultimately show ?thesis
    using assms chunk_import [of env t opc handle object "ucast window" off len 0 MAX_CHUNK_ITERS here None st]
    by (simp add: chunk_verb_def)
qed

definition shelf_host :: "bytes \<Rightarrow> unit PtpTransactionTransport" where
  "shelf_host object =
     \<lparr>txn_execute = (\<lambda>opc ps d ms budgets w.
        (case ps of
           [handle, off, len] \<Rightarrow> Settled (Inr \<lparr>tr_response_code = OK, tr_params = [],
             tr_data_in = Some (take (unat len) (drop (unat off) object))\<rparr>)
         | _ \<Rightarrow> Settled (Inr \<lparr>tr_response_code = 0x2002, tr_params = [], tr_data_in = None\<rparr>), w)),
      txn_next_event = (\<lambda>e budgets w. (Settled (Inr \<lparr>te_event_code = e, te_params = []\<rparr>), w)),
      txn_sleep = (\<lambda>ms budgets w. (Settled (Inr ()), w))\<rparr>"

theorem chunked_import_exact_witness:
  "\<exists>meta st'. run_step_once
       (ChunkLoop (lit ''n'') (FC_Literal 2) (lit ''off'') (lit ''len'') [partial_read 0x101b 1 (lit ''off'') (lit ''len'')] False)
       (usb_env (Transaction (shelf_host [10, 20, 30, 40, 50]))) [] (run_ctx [(lit ''n'', AV_U64 5)] ()) = (Val meta, st') \<and>
     imported st' = imported (run_ctx [(lit ''n'', AV_U64 5)] ()) @ [10, 20, 30, 40, 50]"
  by (rule chunked_import_exact [where t = "shelf_host [10, 20, 30, 40, 50]"])
     (simp_all add: usb_env_def serves_def shelf_host_def bound_u64_def run_ctx_def
      MAX_CHUNK_ITERS_def lit_def)

section \<open>Reports of preempted and retried steps\<close>

definition busy_host :: "(PtpTransactionError, PtpTransactionError, PtpTransactionResult) race \<Rightarrow> unit PtpTransactionTransport" where
  "busy_host answer = (shelf_host [])\<lparr>txn_execute := (\<lambda>opc ps d ms budgets w. (answer, w))\<rparr>"

definition retried :: "EntryStep list \<Rightarrow> EntryStep" where
  "retried fallback = Retry [SendOp 0x1001 [] [] 1 False] fallback [0x2019] [] 3 0 False"

definition reports_of ::
  "(PtpTransactionError, PtpTransactionError, PtpTransactionResult) race \<Rightarrow> EntryStep \<Rightarrow>
    (ustring \<times> StepOutcome \<times> nat) list" where
  "reports_of answer step =
     map (\<lambda>r. (sr_verb r, sr_outcome r, sr_attempts r))
       (cx_reports (snd (walk_steps [step] True (usb_env (Transaction (busy_host answer))) [] (run_ctx [] ()))))"

lemmas evaluate =
  reports_of_def retried_def walk_steps_def busy_host_def shelf_host_def usb_env_def run_ctx_def with_clock_def
  x_bind_def x_handle_def x_modify_def x_return_def x_fail_def lift_detail_def
  open_activity_def close_activity_def activity_for_start_def activity_correlation_def finish_activity_failure_def
  finish_activity_success_def activity_ends_after_def finish_activity_def retry_activity_def note_attempts_def
  nested_def run_step_def start_step_def report_def started_report_def conclude_step_def terminal_report_def
  count_step_def clocked_def clock_result_def preempt_def deadline_error_def response_error_def
  retry_verb_def retry_loop.simps retry_selects_def send_op_verb_def send_op_loop.simps resolve_params_def
  issue_def issue_typed_def transport_deadline_def typed_host_def require_ok_or_tolerate_def option_or_def Let_def



end
