(* ===== verification/Spec2Isabelle.thy ===== *)
theory Spec2Isabelle
  imports Init_Packets Chunk_Frame Ptp_Executor_Run
begin

text \<open>
  A verification library for a camera simulator that speaks PTP (picture transfer protocol) and for
  the protocol library its client applications share with it.

  \<^bold>\<open>The program.\<close> \<^verbatim>\<open>crates/ptp-core\<close> has the wire datatypes, packets and datasets of PTP.
  \<^verbatim>\<open>crates/protocol-primitives\<close> has the vendor formats: container framings, init packets, chunked
  transfers and record streams. \<^verbatim>\<open>crates/camera-config\<close> has the manifest, the data that describes a
  camera, and the queries on it. \<^verbatim>\<open>crates/camera-media-store\<close> presents a directory as a card.
  \<^verbatim>\<open>crates/camera-sim\<close> has the responder engine, which answers PTP operations from a manifest, a card
  and its mutable state. \<^verbatim>\<open>crates/camera-protocol-ffi\<close> is the seam to client applications: it
  projects the steps of a manifest and executes them over a transport that the host supplies.

  \<^bold>\<open>Conventions.\<close> \<^verbatim>\<open>u8\<close> to \<^verbatim>\<open>u64\<close> are words of that width, \<^verbatim>\<open>i64\<close> is \<^typ>\<open>int\<close> with its range
  written out, \<^verbatim>\<open>usize\<close> is \<^typ>\<open>nat\<close>. A string is the list of its Unicode scalar values. A
  \<^verbatim>\<open>Result\<close> is a sum type with the error on the left. A panic is \<^const>\<open>None\<close>, or an own value of the
  executor's result. Arithmetic is that of a release build. An ordered map is a sorted association
  list where its order is visible and a function otherwise.

  \<^bold>\<open>The wire.\<close>
  \<^item> \<open>Prelude\<close>: integers, little-endian bytes, results.
  \<^item> \<open>Ptp_Datatype\<close> (\<^verbatim>\<open>datatype.rs\<close>): the cursor, the writer, strings and arrays, and the locales
    \<open>codec\<close> and \<open>sized_codec\<close>, the contract of a reader and a writer.
  \<^item> \<open>Ptp_Container\<close> and \<open>Ptp_Framing\<close> (\<^verbatim>\<open>container.rs\<close>, \<^verbatim>\<open>codes.rs\<close>, \<^verbatim>\<open>framing.rs\<close>): the packets
    and the standard framing, with the locales \<open>frame_codec\<close> and \<open>canonical_codec\<close>.
  \<^item> \<open>Ptp_Dataset\<close> (\<^verbatim>\<open>dataset.rs\<close>): object, device, storage and property descriptions.
  \<^item> \<open>Vendor_Framing\<close>, \<open>Init_Packets\<close>, \<open>Chunk_Frame\<close>, \<open>Record_Stream\<close>: the vendor formats.

  The lemmas show that values survive encoding and decoding, and for most packets that the encoder's
  image is the only one accepted; that a chunked transfer is lossless and respects its limits; and
  which reading of a record stream with undeclared members is returned, and when its decoder panics.

  \<^bold>\<open>The manifest and its queries.\<close>
  \<^item> \<open>Rust_Text\<close>: the text functions of the standard library, and hexadecimal codes.
  \<^item> \<open>Prop_Predicate\<close>, \<open>Firmware_Version\<close>, \<open>Lifecycle\<close> (\<^verbatim>\<open>predicate.rs\<close>, \<^verbatim>\<open>trace.rs\<close>, \<^verbatim>\<open>version.rs\<close>,
    \<^verbatim>\<open>lifecycle.rs\<close>): conditions, version order, and the evidence of the connection's layers.
  \<^item> \<open>Manifest\<close> (\<^verbatim>\<open>model.rs\<close>, \<^verbatim>\<open>query.rs\<close>): the data that the engine and the executor read, and the
    availability queries.
  \<^item> \<open>Action_Catalog\<close> (\<^verbatim>\<open>action.rs\<close>): the catalogue and the resolution of an invocation.

  \<^bold>\<open>The simulator.\<close>
  \<^item> \<open>Fault\<close> (\<^verbatim>\<open>fault.rs\<close>): fault rules, refined against the history of transactions.
  \<^item> \<open>Media_Store\<close>: handles, object queries, and the thumbnail parsers over a file-system parameter.
  \<^item> \<open>Camera_State\<close>, \<open>Gates\<close>, \<open>Transfer_Queue\<close>: the mutable state (\<^verbatim>\<open>state.rs\<close>), and the gates and
    object queues of \<^verbatim>\<open>engine.rs\<close>.
  \<^item> \<open>Engine_State\<close>, \<open>Engine\<close>, \<open>State_Overlay\<close>: the engine's record, one definition per handler, the
    dispatch of an operation with its guards and faults, and state overlays.
  \<^item> \<open>Engine_Safety\<close>, \<open>Engine_Run\<close>: the invariant of every handler, the step relation of the public
    mutators, and its reachable engines.

  The lemmas show that reachable engines keep values at their declared datatypes and account for
  every queued object; that requests are answered one by one; that failed requests and requests
  outside a session leave no trace; that a written value is read back; and that a gate opens by its
  sequence only.

  \<^bold>\<open>The application seam.\<close>
  \<^item> \<open>Ffi_Steps\<close> (\<^verbatim>\<open>lib.rs\<close>): typed steps, mirrored predicates and the projection from a manifest.
  \<^item> \<open>Ptp_Values\<close>, \<open>Ptp_Transaction\<close>, \<open>Ptp_Executor\<close> (\<^verbatim>\<open>ptp_executor.rs\<close>): property codecs, one
    transaction over frames or typed calls, and the walk over steps. A run passes its state
    explicitly. Every host call names the clocks it races with, and returns an answer or the clock
    that fired; a clock of an enclosing step drops what runs inside it.
  \<^item> \<open>Ptp_Executor_Return\<close>: a judgement, with one rule per combinator and verb, that a run returns.
  \<^item> \<open>Ptp_Executor_Run\<close>: which replies are accepted, what loops restore, that a chunked import is
    the object, and two disagreements of step reports with their documentation.

  \<^bold>\<open>Bounds and fuel.\<close> The only fuel is that of the polling loop of an await step. Fuel above the
  number of answers the host gives before a clock fires is enough, and \<open>run_returns\<close> proves it. All
  other loops carry the bounds of the source: 65536 command frames, 100000 elements, 4096 windows,
  512 MiB of a data phase, and 4096 states of the re-frame search.

  \<^bold>\<open>Parameters.\<close> The file system, the digest of the action catalogue, allocation in the chunk
  validator and the host transport are arguments. What a property needs of one is a hypothesis, and
  its witness gives a concrete instance.

  \<^bold>\<open>Not modelled.\<close> YAML and JSON through serde, and the validation of manifests at load: the model
  starts from loaded data. Sockets, HTTP, metrics and terminals of the service and the tools. The
  manufacturer index with the BLE, USB and PCSS paths that read it, the observation format and its
  generator, and the streaming executor: they are separate programs over the same formats that the
  library does not cover. Error messages are values instead of texts, and erasing secrets on drop has
  no observable effect. \<^verbatim>\<open>run_selected_object_preparation\<close> takes its plan from a query that is not
  modelled.
\<close>

end
